theory Spec2Isabelle
  imports Main "HOL-Library.Word" "HOL-Library.Sublist"
begin

unbundle bit_operations_syntax

section \<open>Value model\<close>

text \<open>
  The driver \<^verbatim>\<open>src/tools/wasm-interp.cc\<close> is embedded function by function. The
  declarations it includes from \<^verbatim>\<open>common.h\<close> and \<^verbatim>\<open>interpreter.h\<close> are not part of
  the sources at hand; each of them is introduced below with a comment saying so.
\<close>

text \<open>\<^verbatim>\<open>wabt::Result\<close>.\<close>

datatype wabt_Result = Ok | Error

definition Succeeded :: "wabt_Result \<Rightarrow> bool" where
  "Succeeded r = (r = Ok)"

definition Failed :: "wabt_Result \<Rightarrow> bool" where
  "Failed r = (r = Error)"

text \<open>
  Modelled from the spec: the enumeration \<^verbatim>\<open>Type\<close> (declared in \<^verbatim>\<open>common.h\<close>) with the four
  primitive value types of the data model. With these four the \<^verbatim>\<open>default:\<close> branches
  of the driver's switches over a value's type are taken by no value, or by the
  integer types only.
\<close>

datatype Type = I32 | I64 | F32 | F64

text \<open>
  Modelled from the spec: \<^verbatim>\<open>TypedValue\<close>, a type tag with a payload. The payload is a
  union whose active member is the one named by the tag (\<^verbatim>\<open>i32\<close>, \<^verbatim>\<open>i64\<close>,
  \<^verbatim>\<open>f32_bits\<close>, \<^verbatim>\<open>f64_bits\<close>); floats are kept as bit patterns.
\<close>

datatype TypedValue =
    TV_I32 (i32: "32 word")
  | TV_I64 (i64: "64 word")
  | TV_F32 (f32_bits: "32 word")
  | TV_F64 (f64_bits: "64 word")

fun tv_type :: "TypedValue \<Rightarrow> Type" where
  "tv_type (TV_I32 _) = I32"
| "tv_type (TV_I64 _) = I64"
| "tv_type (TV_F32 _) = F32"
| "tv_type (TV_F64 _) = F64"

text \<open>Modelled from the spec: \<^verbatim>\<open>Limits\<close>, a pair (initial, optional max).\<close>

record Limits =
  initial :: nat
  limit_max :: nat
  has_max :: bool

text \<open>
  Modelled from the spec: the macro \<^verbatim>\<open>WABT_MAX_PAGES\<close> of \<^verbatim>\<open>common.h\<close>, the engine-wide cap
  on the number of pages, 65,536 (the number of 64 KiB pages of a 32-bit address space).
\<close>

definition WABT_MAX_PAGES :: nat where
  "WABT_MAX_PAGES = 65536"

text \<open>Modelled from the spec: a memory is its page limits and a contiguous byte buffer.\<close>

record Memory =
  page_limits :: Limits
  data :: "8 word list"

text \<open>Modelled from the spec: a table is its limits and a vector of function indices
  (\<open>None\<close> is the sentinel for an empty slot).\<close>

record Table =
  limits :: Limits
  func_indexes :: "nat option list"

text \<open>Modelled from the spec: a global is a typed value and a mutability flag.\<close>

record Global =
  typed_value :: TypedValue
  mutabl :: bool

text \<open>\<^verbatim>\<open>std::vector::resize\<close>: truncates, or pads with value-initialised elements.\<close>

definition resize :: "nat \<Rightarrow> 'a::zero list \<Rightarrow> 'a list" where
  "resize n xs = take n xs @ replicate (n - length xs) 0"

section \<open>The spectest host import delegate\<close>

text \<open>An import descriptor: the driver reads its module and field names only.\<close>

record Import =
  "module_name" :: string
  field_name :: string

text \<open>\<^verbatim>\<open>PRIimport\<close> with \<^verbatim>\<open>PRINTF_IMPORT_ARG\<close>: the quoted \<^verbatim>\<open>"module.field"\<close>.\<close>

definition PRIimport :: "Import \<Rightarrow> string" where
  "PRIimport import = [CHR 0x22] @ module_name import @ ''.'' @ field_name import @ [CHR 0x22]"

text \<open>
  Each operation of \<^verbatim>\<open>SpectestHostImportDelegate\<close> returns its result, the entity it
  was given (updated), and the messages it passed to the error callback.
\<close>

definition ImportTable :: "Import \<Rightarrow> Table \<Rightarrow> wabt_Result \<times> Table \<times> string list" where
  "ImportTable import table =
     (if field_name import = ''table'' then
        (Ok,
         table\<lparr>limits := (limits table)\<lparr>has_max := True, initial := 10, limit_max := 20\<rparr>\<rparr>,
         [])
      else (Error, table, [''unknown host table import '' @ PRIimport import]))"

definition ImportMemory :: "Import \<Rightarrow> Memory \<Rightarrow> wabt_Result \<times> Memory \<times> string list" where
  "ImportMemory import memory =
     (if field_name import = ''memory'' then
        (let page_limits' = (page_limits memory)\<lparr>has_max := True, initial := 1, limit_max := 2\<rparr>
         in (Ok,
             memory\<lparr>page_limits := page_limits',
                    data := resize (initial page_limits' * WABT_MAX_PAGES) (data memory)\<rparr>,
             []))
      else (Error, memory, [''unknown host memory import '' @ PRIimport import]))"

text \<open>
  The bit patterns of the constants \<^verbatim>\<open>666.6f\<close> and \<^verbatim>\<open>666.6\<close> that \<^verbatim>\<open>ImportGlobal\<close>
  copies into a float global (IEEE-754 binary32 and binary64, round to nearest).
\<close>

definition f32_bits_666_6 :: "32 word" where
  "f32_bits_666_6 = 0x4426A666"

definition f64_bits_666_6 :: "64 word" where
  "f64_bits_666_6 = 0x4084D4CCCCCCCCCD"

definition ImportGlobal :: "Import \<Rightarrow> Global \<Rightarrow> wabt_Result \<times> Global \<times> string list" where
  "ImportGlobal import global =
     (if field_name import = ''global'' then
        (case tv_type (typed_value global) of
           I32 \<Rightarrow> (Ok, global\<lparr>typed_value := TV_I32 666\<rparr>, [])
         | F32 \<Rightarrow> (Ok, global\<lparr>typed_value := TV_F32 f32_bits_666_6\<rparr>, [])
         | I64 \<Rightarrow> (Ok, global\<lparr>typed_value := TV_I64 666\<rparr>, [])
         | F64 \<Rightarrow> (Ok, global\<lparr>typed_value := TV_F64 f64_bits_666_6\<rparr>, []))
      else (Error, global, [''unknown host global import '' @ PRIimport import]))"

section \<open>Faults\<close>

text \<open>
  What ends the process instead of returning: a failed \<^verbatim>\<open>assert\<close> (the driver is modelled
  with its assertions enabled), a read through a null pointer or past the end of a
  vector, \<^verbatim>\<open>WABT_FATAL\<close> (a message on the error stream, then \<^verbatim>\<open>exit(1)\<close>), and a
  loop that appends to a string for ever, until no memory is left.
\<close>

datatype fault =
    AssertionFailure string
  | NullPointer
  | OutOfBounds nat nat
  | Fatal string
  | OutOfMemory

text \<open>Reading element \<open>i\<close> of a vector: past the end it is a fault carrying the index and
  the size.\<close>

definition at_index :: "'a list \<Rightarrow> nat \<Rightarrow> fault + 'a" where
  "at_index xs i = (if i < length xs then Inr (xs ! i) else Inl (OutOfBounds i (length xs)))"

section \<open>Environment\<close>

text \<open>
  Modelled from the spec: the closed set of outcomes of an invocation, declared by
  the macro \<^verbatim>\<open>FOREACH_INTERPRETER_RESULT\<close> of \<^verbatim>\<open>interpreter.h\<close>. \<open>Result_Ok\<close> is
  \<^verbatim>\<open>interpreter::Result::Ok\<close>; the driver names \<^verbatim>\<open>UnknownExport\<close>, \<^verbatim>\<open>ExportKindMismatch\<close>,
  \<^verbatim>\<open>TrapCallStackExhausted\<close> and \<^verbatim>\<open>TrapValueStackExhausted\<close> itself.
\<close>

datatype interpreter_Result =
    Result_Ok
  | Returned
  | TrapUnreachable
  | TrapIntegerOverflow
  | TrapIntegerDivideByZero
  | TrapInvalidConversionToInteger
  | TrapMemoryAccessOutOfBounds
  | TrapUndefinedTableIndex
  | TrapUninitializedElement
  | TrapIndirectCallSignatureMismatch
  | TrapCallStackExhausted
  | TrapValueStackExhausted
  | UnknownExport
  | ExportKindMismatch
  | TrapHostTrapped

text \<open>Modelled from the spec: \<^verbatim>\<open>Index\<close> and \<^verbatim>\<open>kInvalidIndex\<close> of \<^verbatim>\<open>common.h\<close>. An index
  is a 32-bit unsigned integer, and the invalid index, which stands for an absent start
  function or module, is its largest value.\<close>

type_synonym Index = nat

definition kInvalidIndex :: Index where
  "kInvalidIndex = 4294967295"

datatype ExternalKind = Kind_Func | Kind_Table | Kind_Memory | Kind_Global

text \<open>Modelled from the spec: an export is a (name, kind, index) triple.\<close>

record Export =
  name :: string
  kind :: ExternalKind
  index :: Index

text \<open>
  Modelled from the spec: a module with its name, its export list, the variant tag and,
  for a defined module, the optional start function (\<^verbatim>\<open>kInvalidIndex\<close> when absent).
\<close>

record Module =
  mod_name :: string
  exports :: "Export list"
  is_host :: bool
  start_func_index :: Index

record FuncSignature =
  param_types :: "Type list"
  result_types :: "Type list"

text \<open>Modelled from the spec: a function is defined (signature, owning module) or a
  host function (signature, module name, field name).\<close>

datatype Func =
    DefinedFunc FuncSignature Index
  | HostFunc FuncSignature string string

text \<open>
  Modelled from the spec: the Environment holds append-only vectors of modules, functions,
  tables, memories and globals, and two name-to-index maps, kept here in insertion order.
\<close>

record Environment =
  modules :: "Module list"
  funcs :: "Func list"
  tables :: "Table list"
  memories :: "Memory list"
  globals :: "Global list"
  module_bindings :: "(string \<times> Index) list"
  registered_module_bindings :: "(string \<times> Index) list"

text \<open>Modelled from the spec: \<^verbatim>\<open>Environment::MarkPoint\<close>, the sizes of every vector and of
  both maps.\<close>

record MarkPoint =
  modules_size :: nat
  funcs_size :: nat
  tables_size :: nat
  memories_size :: nat
  globals_size :: nat
  module_bindings_size :: nat
  registered_module_bindings_size :: nat

text \<open>Modelled from the spec: \<^verbatim>\<open>Environment::Mark\<close> (in \<^verbatim>\<open>interpreter.cc\<close>) snapshots the
  current sizes of every vector and of both maps.\<close>

definition Mark :: "Environment \<Rightarrow> MarkPoint" where
  "Mark e =
     \<lparr>modules_size = length (modules e),
      funcs_size = length (funcs e),
      tables_size = length (tables e),
      memories_size = length (memories e),
      globals_size = length (globals e),
      module_bindings_size = length (module_bindings e),
      registered_module_bindings_size = length (registered_module_bindings e)\<rparr>"

text \<open>Modelled from the spec: \<^verbatim>\<open>Environment::ResetToMarkPoint\<close> (in \<^verbatim>\<open>interpreter.cc\<close>)
  truncates every vector and both maps to the sizes of the mark.\<close>

definition ResetToMarkPoint :: "MarkPoint \<Rightarrow> Environment \<Rightarrow> Environment" where
  "ResetToMarkPoint mark e =
     \<lparr>modules = take (modules_size mark) (modules e),
      funcs = take (funcs_size mark) (funcs e),
      tables = take (tables_size mark) (tables e),
      memories = take (memories_size mark) (memories e),
      globals = take (globals_size mark) (globals e),
      module_bindings = take (module_bindings_size mark) (module_bindings e),
      registered_module_bindings =
        take (registered_module_bindings_size mark) (registered_module_bindings e)\<rparr>"

text \<open>Modelled from the spec: \<^verbatim>\<open>Environment::GetModuleCount\<close>, the number of modules.\<close>

definition GetModuleCount :: "Environment \<Rightarrow> nat" where
  "GetModuleCount e = length (modules e)"

text \<open>Modelled from the spec: \<^verbatim>\<open>Environment::GetLastModuleIndex\<close>, the index of the module
  appended last, the invalid index when there is none.\<close>

definition GetLastModuleIndex :: "Environment \<Rightarrow> Index" where
  "GetLastModuleIndex e = (if modules e = [] then kInvalidIndex else length (modules e) - 1)"

text \<open>Modelled from the spec: the lookup in a name-to-index map, the invalid index for
  an unbound name. Of several bindings of a name the latest is found.\<close>

definition FindIndex :: "(string \<times> Index) list \<Rightarrow> string \<Rightarrow> Index" where
  "FindIndex bindings n = (case map_of (rev bindings) n of None \<Rightarrow> kInvalidIndex | Some i \<Rightarrow> i)"

text \<open>Modelled from the spec: \<^verbatim>\<open>Environment::FindModuleIndex\<close>, the lookup in the module
  bindings.\<close>

definition FindModuleIndex :: "Environment \<Rightarrow> string \<Rightarrow> Index" where
  "FindModuleIndex e n = FindIndex (module_bindings e) n"

text \<open>Modelled from the spec: \<^verbatim>\<open>Environment::GetLastModule\<close>, a pointer to the module
  appended last; \<open>None\<close> is the null pointer.\<close>

definition GetLastModule :: "Environment \<Rightarrow> Module option" where
  "GetLastModule e = (if modules e = [] then None else Some (last (modules e)))"

text \<open>Modelled from the spec: \<^verbatim>\<open>Environment::FindModule\<close>, a pointer to the module bound
  to the name; \<open>None\<close> is the null pointer.\<close>

definition FindModule :: "Environment \<Rightarrow> string \<Rightarrow> Module option" where
  "FindModule e n =
     (let i = FindModuleIndex e n
      in if i = kInvalidIndex \<or> length (modules e) \<le> i then None else Some (modules e ! i))"

text \<open>Modelled from the spec: \<^verbatim>\<open>Environment::EmplaceModuleBinding\<close> and
  \<^verbatim>\<open>Environment::EmplaceRegisteredModuleBinding\<close> add a binding to a map.\<close>

definition EmplaceModuleBinding :: "string \<Rightarrow> Index \<Rightarrow> Environment \<Rightarrow> Environment" where
  "EmplaceModuleBinding n i e = e\<lparr>module_bindings := module_bindings e @ [(n, i)]\<rparr>"

definition EmplaceRegisteredModuleBinding :: "string \<Rightarrow> Index \<Rightarrow> Environment \<Rightarrow> Environment" where
  "EmplaceRegisteredModuleBinding n i e =
     e\<lparr>registered_module_bindings := registered_module_bindings e @ [(n, i)]\<rparr>"

text \<open>Modelled from the spec: \<^verbatim>\<open>Environment::AppendHostModule\<close> appends a host module,
  which has exports only, and registers it under its name.\<close>

definition AppendHostModule :: "string \<Rightarrow> Environment \<Rightarrow> Environment" where
  "AppendHostModule n e =
     e\<lparr>modules := modules e @
          [\<lparr>mod_name = n, exports = [], is_host = True, start_func_index = kInvalidIndex\<rparr>],
       registered_module_bindings := registered_module_bindings e @ [(n, length (modules e))]\<rparr>"

text \<open>Modelled from the spec: \<^verbatim>\<open>Module::GetExport\<close>, a pointer to the export of that name
  (export names are unique within a module); \<open>None\<close> is the null pointer.\<close>

definition GetExport :: "Module \<Rightarrow> string \<Rightarrow> Export option" where
  "GetExport module n = find (\<lambda>e. name e = n) (exports module)"

text \<open>Modelled from the spec: \<^verbatim>\<open>Environment::GetGlobal\<close>, the global at an index of the
  vector of globals.\<close>

definition GetGlobal :: "Environment \<Rightarrow> Index \<Rightarrow> fault + Global" where
  "GetGlobal e i = at_index (globals e) i"

section \<open>Actions, commands and the script\<close>

datatype RunVerbosity = Quiet | Verbose

datatype ModuleType = Text | Binary

datatype ActionType = Invoke | Get

record Action =
  action_type :: ActionType
  action_module_name :: string
  action_field_name :: string
  action_args :: "TypedValue list"

text \<open>
  The commands of a script, each with the fields its handler is called with. The source
  has no such type: \<^verbatim>\<open>parse_command\<close> reads the fields of a command into local variables
  and calls the handler in the same branch.
\<close>

datatype Command =
    ModuleCommand string string
  | ActionCommand Action
  | RegisterCommand string string
  | AssertMalformedCommand string string ModuleType
  | AssertInvalidCommand string string ModuleType
  | AssertUnlinkableCommand string string ModuleType
  | AssertUninstantiableCommand string string ModuleType
  | AssertReturnCommand Action "TypedValue list"
  | AssertReturnCanonicalNanCommand Action
  | AssertReturnArithmeticNanCommand Action
  | AssertTrapCommand Action string
  | AssertExhaustionCommand Action

text \<open>The callbacks that \<^verbatim>\<open>parse_options\<close> registers with the option parser.\<close>

datatype OptionCallback =
    On_verbose
  | On_value_stack_size string
  | On_call_stack_size string
  | On_trace
  | On_spec
  | On_run_all_exports
  | On_filename string

section \<open>Collaborators and the process state\<close>

text \<open>
  The code the driver calls and that is not in \<^verbatim>\<open>wasm-interp.cc\<close> is a parameter of the
  model: the interpreter (\<^verbatim>\<open>Thread::RunFunction\<close>, \<^verbatim>\<open>Thread::TraceFunction\<close>: from the
  environment, a function index, the arguments and the previous content of the result
  vector to the result, the result vector, the environment and the text written to the
  standard output), the file reader, the binary reader (its result, the environment,
  the module it built and the messages given to the error handler), the text parser, the
  disassembler, the table of trap names, the C library's formatting of floats and its
  \<^verbatim>\<open>atoi\<close>, the integer parsers \<^verbatim>\<open>parse_int32\<close> and \<^verbatim>\<open>parse_int64\<close> (called with
  \<^verbatim>\<open>ParseIntType::UnsignedOnly\<close>; \<open>None\<close> when they fail), whether the C type \<^verbatim>\<open>char\<close> is
  signed on the platform, and the option parser (from the command line to the callbacks it
  invokes, in order, unless it ends the process itself).
\<close>

record Collab =
  RunFunction :: "Environment \<Rightarrow> Index \<Rightarrow> TypedValue list \<Rightarrow> TypedValue list
                    \<Rightarrow> interpreter_Result \<times> TypedValue list \<times> Environment \<times> string"
  TraceFunction :: "Environment \<Rightarrow> Index \<Rightarrow> TypedValue list \<Rightarrow> TypedValue list
                    \<Rightarrow> interpreter_Result \<times> TypedValue list \<times> Environment \<times> string"
  ReadFile :: "string \<Rightarrow> 8 word list option"
  read_binary_interpreter :: "Environment \<Rightarrow> 8 word list
                    \<Rightarrow> wabt_Result \<times> Environment \<times> Index option \<times> string list"
  parse_wast :: "string \<Rightarrow> wabt_Result \<times> string list"
  DisassembleModule :: "Environment \<Rightarrow> Index option \<Rightarrow> string"
  s_trap_strings :: "interpreter_Result \<Rightarrow> string"
  format_f32 :: "32 word \<Rightarrow> string"
  format_f64 :: "64 word \<Rightarrow> string"
  atoi :: "string \<Rightarrow> int"
  parse_int32 :: "string \<Rightarrow> 32 word option"
  parse_int64 :: "string \<Rightarrow> 64 word option"
  char_is_signed :: bool
  OptionParser_Parse :: "string list \<Rightarrow> fault + OptionCallback list"

text \<open>The static variables of the driver.\<close>

record Globals =
  s_verbose :: int
  s_infile :: string
  s_value_stack_size :: int
  s_call_stack_size :: int
  s_trace :: bool
  s_spec :: bool
  s_run_all_exports :: bool

text \<open>
  The state the driver's functions act on: the Environment and the text written to the
  standard output so far. \<^verbatim>\<open>Context\<close> extends it with the fields of the source's struct
  (the thread is determined by the environment). Of the fields of the JSON reader, the
  locations \<^verbatim>\<open>loc\<close> and \<^verbatim>\<open>prev_loc\<close> are left out but for the file name: they are read
  only for the messages of parse errors, which go to the error stream.
\<close>

record World =
  env :: Environment
  stdout :: string

text \<open>The counters \<^verbatim>\<open>passed\<close> and \<^verbatim>\<open>total\<close> are C \<^verbatim>\<open>int\<close>s, incremented at most once
  per command; they are integers here, as no script of fewer than \<open>2\<^sup>3\<^sup>1\<close> commands
  overflows them.\<close>

record Context = World +
  last_module :: "Index option"
  loc_filename :: string
  json_data :: "8 word list"
  source_filename :: string
  json_offset :: nat
  has_prev_loc :: bool
  command_line_number :: nat
  passed :: int
  total :: int

definition newline :: string where
  "newline = [CHR 0x0A]"

definition printf :: "string \<Rightarrow> 'a World_scheme \<Rightarrow> 'a World_scheme" where
  "printf text w = w\<lparr>stdout := stdout w @ text\<rparr>"

section \<open>Printing values and calls\<close>

text \<open>The conversions \<^verbatim>\<open>%u\<close> (also \<^verbatim>\<open>%zd\<close> on a size and \<^verbatim>\<open>PRIu64\<close>) and \<^verbatim>\<open>%d\<close> of
  \<^verbatim>\<open>printf\<close>: the decimal digits, most significant first.\<close>

definition digit_char :: "nat \<Rightarrow> char" where
  "digit_char d = char_of (d + 48)"

function format_u :: "nat \<Rightarrow> string" where
  "format_u n =
     (if n div 10 = 0 then [digit_char n]
      else format_u (n div 10) @ [digit_char (n mod 10)])"
  by pat_completeness auto
termination
  by (relation "measure id") auto

declare format_u.simps [simp del]

definition format_d :: "int \<Rightarrow> string" where
  "format_d i = (if 0 \<le> i then format_u (nat i) else CHR ''-'' # format_u (nat (- i)))"

definition sprint_typed_value :: "Collab \<Rightarrow> TypedValue \<Rightarrow> string" where
  "sprint_typed_value x tv =
     (case tv of
        TV_I32 v \<Rightarrow> ''i32:'' @ format_u (unat v)
      | TV_I64 v \<Rightarrow> ''i64:'' @ format_u (unat v)
      | TV_F32 v \<Rightarrow> ''f32:'' @ format_f32 x v
      | TV_F64 v \<Rightarrow> ''f64:'' @ format_f64 x v)"

fun print_typed_value_vector :: "Collab \<Rightarrow> TypedValue list \<Rightarrow> string" where
  "print_typed_value_vector x [] = []"
| "print_typed_value_vector x [v] = sprint_typed_value x v"
| "print_typed_value_vector x (v # vs) =
     sprint_typed_value x v @ '', '' @ print_typed_value_vector x vs"

definition print_interpreter_result :: "Collab \<Rightarrow> string \<Rightarrow> interpreter_Result \<Rightarrow> string" where
  "print_interpreter_result x desc iresult = desc @ '': '' @ s_trap_strings x iresult @ newline"

definition print_call ::
  "Collab \<Rightarrow> string \<Rightarrow> string \<Rightarrow> TypedValue list \<Rightarrow> TypedValue list \<Rightarrow> interpreter_Result \<Rightarrow> string"
where
  "print_call x module_nm func_name args results iresult =
     (if module_nm \<noteq> [] then module_nm @ ''.'' else [])
     @ func_name @ ''('' @ print_typed_value_vector x args @ '') =>''
     @ (if iresult = Result_Ok then
          (if length results > 0 then '' '' @ print_typed_value_vector x results else [])
          @ newline
        else print_interpreter_result x '' error'' iresult)"

section \<open>Running functions and exports\<close>

definition run_function ::
  "Collab \<Rightarrow> Globals \<Rightarrow> Index \<Rightarrow> TypedValue list \<Rightarrow> TypedValue list \<Rightarrow> 'a World_scheme
     \<Rightarrow> (interpreter_Result \<times> TypedValue list) \<times> 'a World_scheme"
where
  "run_function x g func_index args out_results w =
     (case (if s_trace g then TraceFunction x else RunFunction x)
             (env w) func_index args out_results of
        (iresult, results, env', text) \<Rightarrow>
          ((iresult, results), w\<lparr>env := env', stdout := stdout w @ text\<rparr>))"

definition run_start_function ::
  "Collab \<Rightarrow> Globals \<Rightarrow> Module \<Rightarrow> 'a World_scheme \<Rightarrow> fault + (interpreter_Result \<times> 'a World_scheme)"
where
  "run_start_function x g module w =
     (if start_func_index module = kInvalidIndex then Inr (Result_Ok, w)
      else
        (let w1 = (if s_trace g then printf (''>>> running start function:'' @ newline) w else w)
         in case run_function x g (start_func_index module) [] [] w1 of
              ((iresult, results), w2) \<Rightarrow>
                if length results = 0 then Inr (iresult, w2)
                else Inl (AssertionFailure ''results.size() == 0'')))"

definition run_export ::
  "Collab \<Rightarrow> Globals \<Rightarrow> Export \<Rightarrow> TypedValue list \<Rightarrow> TypedValue list \<Rightarrow> 'a World_scheme
     \<Rightarrow> fault + ((interpreter_Result \<times> TypedValue list) \<times> 'a World_scheme)"
where
  "run_export x g export args out_results w =
     (let w1 = (if s_trace g
                then printf (''>>> running export '' @ [CHR 0x22] @ name export @ [CHR 0x22]
                             @ '':'' @ newline) w
                else w)
      in if kind export = Kind_Func
         then Inr (run_function x g (index export) args out_results w1)
         else Inl (AssertionFailure ''export_->kind == ExternalKind::Func''))"

definition run_export_by_name ::
  "Collab \<Rightarrow> Globals \<Rightarrow> Module \<Rightarrow> string \<Rightarrow> TypedValue list \<Rightarrow> TypedValue list \<Rightarrow> 'a World_scheme
     \<Rightarrow> fault + ((interpreter_Result \<times> TypedValue list) \<times> 'a World_scheme)"
where
  "run_export_by_name x g module nm args out_results w =
     (case GetExport module nm of
        None \<Rightarrow> Inr ((UnknownExport, out_results), w)
      | Some export \<Rightarrow>
          if kind export \<noteq> Kind_Func then Inr ((ExportKindMismatch, out_results), w)
          else run_export x g export args out_results w)"

definition get_global_export_by_name ::
  "Module \<Rightarrow> string \<Rightarrow> TypedValue list \<Rightarrow> 'a World_scheme
     \<Rightarrow> fault + ((interpreter_Result \<times> TypedValue list) \<times> 'a World_scheme)"
where
  "get_global_export_by_name module nm out_results w =
     (case GetExport module nm of
        None \<Rightarrow> Inr ((UnknownExport, out_results), w)
      | Some export \<Rightarrow>
          if kind export \<noteq> Kind_Global then Inr ((ExportKindMismatch, out_results), w)
          else
            (case GetGlobal (env w) (index export) of
               Inl f \<Rightarrow> Inl f
             | Inr global \<Rightarrow> Inr ((Result_Ok, [] @ [typed_value global]), w)))"

fun run_all_exports_loop ::
  "Collab \<Rightarrow> Globals \<Rightarrow> RunVerbosity \<Rightarrow> Export list \<Rightarrow> TypedValue list \<Rightarrow> 'a World_scheme
     \<Rightarrow> fault + 'a World_scheme"
where
  "run_all_exports_loop x g verbose [] results w = Inr w"
| "run_all_exports_loop x g verbose (export # rest) results w =
     (case run_export x g export [] results w of
        Inl f \<Rightarrow> Inl f
      | Inr ((iresult, results'), w1) \<Rightarrow>
          run_all_exports_loop x g verbose rest results'
            (if verbose = Verbose
             then printf (print_call x [] (name export) [] results' iresult) w1
             else w1))"

definition run_all_exports ::
  "Collab \<Rightarrow> Globals \<Rightarrow> Module \<Rightarrow> RunVerbosity \<Rightarrow> 'a World_scheme \<Rightarrow> fault + 'a World_scheme"
where
  "run_all_exports x g module verbose w = run_all_exports_loop x g verbose (exports module) [] w"

section \<open>Reading modules\<close>

text \<open>
  \<^verbatim>\<open>ErrorHandlerFile\<close>: constructed with the location type alone it writes to the error
  stream; constructed with \<^verbatim>\<open>stdout\<close>, a header and \<^verbatim>\<open>PrintHeader::Once\<close> it writes the
  header before the first message, as the expected output of the test suite shows.
\<close>

datatype ErrorHandlerFile =
    ErrorHandler_stderr
  | ErrorHandler_stdout string

definition error_handler_stdout :: "ErrorHandlerFile \<Rightarrow> string list \<Rightarrow> string" where
  "error_handler_stdout h messages =
     (case h of
        ErrorHandler_stderr \<Rightarrow> []
      | ErrorHandler_stdout header \<Rightarrow>
          if messages = [] then [] else header @ '':'' @ newline @ concat messages)"

definition read_module ::
  "Collab \<Rightarrow> Globals \<Rightarrow> string \<Rightarrow> ErrorHandlerFile \<Rightarrow> 'a World_scheme
     \<Rightarrow> (wabt_Result \<times> Index option) \<times> 'a World_scheme"
where
  "read_module x g module_filename error_handler w =
     (case ReadFile x module_filename of
        None \<Rightarrow> ((Error, None), w)
      | Some file_data \<Rightarrow>
          (case read_binary_interpreter x (env w) file_data of
             (result, env', out_module, messages) \<Rightarrow>
               (let w1 = printf (error_handler_stdout error_handler messages) (w\<lparr>env := env'\<rparr>)
                in ((result, out_module),
                    (if Succeeded result \<and> s_verbose g \<noteq> 0
                     then printf (DisassembleModule x env' out_module) w1
                     else w1)))))"

definition Environment_new :: Environment where
  "Environment_new =
     \<lparr>modules = [], funcs = [], tables = [], memories = [], globals = [],
      module_bindings = [], registered_module_bindings = []\<rparr>"

definition init_environment :: "Environment \<Rightarrow> Environment" where
  "init_environment e = AppendHostModule ''spectest'' e"

text \<open>A pointer to a defined module is its index in \<open>modules\<close>.\<close>

definition deref_module :: "Environment \<Rightarrow> Index option \<Rightarrow> fault + Module" where
  "deref_module e p = (case p of None \<Rightarrow> Inl NullPointer | Some i \<Rightarrow> at_index (modules e) i)"

definition read_and_run_module ::
  "Collab \<Rightarrow> Globals \<Rightarrow> string \<Rightarrow> World \<Rightarrow> fault + (wabt_Result \<times> World)"
where
  "read_and_run_module x g module_filename w0 =
     (let w = w0\<lparr>env := init_environment Environment_new\<rparr>
      in case read_module x g module_filename ErrorHandler_stderr w of
           ((result, module), w1) \<Rightarrow>
             if Succeeded result then
               (case deref_module (env w1) module of
                  Inl f \<Rightarrow> Inl f
                | Inr m \<Rightarrow>
                    (case run_start_function x g m w1 of
                       Inl f \<Rightarrow> Inl f
                     | Inr (iresult, w2) \<Rightarrow>
                         if iresult = Result_Ok then
                           (if s_run_all_exports g then
                              (case deref_module (env w2) module of
                                 Inl f \<Rightarrow> Inl f
                               | Inr m2 \<Rightarrow>
                                   (case run_all_exports x g m2 Verbose w2 of
                                      Inl f \<Rightarrow> Inl f
                                    | Inr w3 \<Rightarrow> Inr (result, w3)))
                            else Inr (result, w2))
                         else
                           Inr (result,
                                printf (print_interpreter_result x
                                          ''error running start function'' iresult) w2)))
             else Inr (result, w1))"

section \<open>Commands of the spec script\<close>

definition print_command_error :: "string \<Rightarrow> Context \<Rightarrow> Context" where
  "print_command_error msg ctx =
     printf (source_filename ctx @ '':'' @ format_u (command_line_number ctx) @ '': ''
             @ msg @ newline) ctx"

fun find_last_of :: "char \<Rightarrow> string \<Rightarrow> nat option" where
  "find_last_of c [] = None"
| "find_last_of c (d # s) =
     (case find_last_of c s of
        Some i \<Rightarrow> Some (Suc i)
      | None \<Rightarrow> if d = c then Some 0 else None)"

definition get_dirname :: "string \<Rightarrow> string" where
  "get_dirname path =
     (let last_slash = (case find_last_of (CHR ''/'') path of None \<Rightarrow> 0 | Some i \<Rightarrow> i);
          last_backslash = (case find_last_of (CHR 0x5C) path of None \<Rightarrow> 0 | Some i \<Rightarrow> i)
      in take (max last_slash last_backslash) path)"

text \<open>\<^verbatim>\<open>ConvertBackslashToSlash\<close> is a helper of the library: it replaces every backslash
  of the path by a slash.\<close>

definition ConvertBackslashToSlash :: "string \<Rightarrow> string" where
  "ConvertBackslashToSlash path = map (\<lambda>c. if c = CHR 0x5C then CHR ''/'' else c) path"

definition CreateModulePath :: "Context \<Rightarrow> string \<Rightarrow> string" where
  "CreateModulePath ctx filename =
     (let dirname = get_dirname (loc_filename ctx)
      in ConvertBackslashToSlash
           (if length dirname = 0 then filename else dirname @ ''/'' @ filename))"

definition on_module_command ::
  "Collab \<Rightarrow> Globals \<Rightarrow> string \<Rightarrow> string \<Rightarrow> Context \<Rightarrow> fault + (wabt_Result \<times> Context)"
where
  "on_module_command x g filename nm ctx =
     (let path = CreateModulePath ctx filename;
          mark = Mark (env ctx)
      in case read_module x g path ErrorHandler_stderr ctx of
           ((result, module), ctx0) \<Rightarrow>
             (let ctx1 = ctx0\<lparr>last_module := module\<rparr>
              in if Failed result then
                   Inr (Error,
                        print_command_error
                          (''error reading module: '' @ [CHR 0x22] @ path @ [CHR 0x22])
                          (ctx1\<lparr>env := ResetToMarkPoint mark (env ctx1)\<rparr>))
                 else
                   (case deref_module (env ctx1) (last_module ctx1) of
                      Inl f \<Rightarrow> Inl f
                    | Inr m \<Rightarrow>
                        (case run_start_function x g m ctx1 of
                           Inl f \<Rightarrow> Inl f
                         | Inr (iresult, ctx2) \<Rightarrow>
                             if iresult \<noteq> Result_Ok then
                               Inr (Error,
                                    printf (print_interpreter_result x
                                              ''error running start function'' iresult)
                                      (ctx2\<lparr>env := ResetToMarkPoint mark (env ctx2)\<rparr>))
                             else if nm \<noteq> [] then
                               (case last_module ctx2 of
                                  None \<Rightarrow> Inl NullPointer
                                | Some i \<Rightarrow>
                                    if i < length (modules (env ctx2)) then
                                      Inr (Ok,
                                           ctx2\<lparr>env :=
                                             EmplaceModuleBinding nm
                                               (GetModuleCount (env ctx2) - 1)
                                               ((env ctx2)\<lparr>modules :=
                                                  (modules (env ctx2))
                                                    [i := (modules (env ctx2) ! i)\<lparr>mod_name := nm\<rparr>]\<rparr>)\<rparr>)
                                    else Inl (OutOfBounds i (length (modules (env ctx2)))))
                             else Inr (Ok, ctx2)))))"

text \<open>\<^verbatim>\<open>run_action\<close>: the target module is the one bound to the action's module name,
  or the last module; the \<^verbatim>\<open>default:\<close> branch of the switch is taken by no action
  type.\<close>

definition run_action ::
  "Collab \<Rightarrow> Globals \<Rightarrow> Action \<Rightarrow> RunVerbosity \<Rightarrow> Context
     \<Rightarrow> fault + ((wabt_Result \<times> interpreter_Result \<times> TypedValue list) \<times> Context)"
where
  "run_action x g action verbose ctx =
     (case (if action_module_name action \<noteq> []
            then FindModule (env ctx) (action_module_name action)
            else GetLastModule (env ctx)) of
        None \<Rightarrow> Inl (AssertionFailure ''module'')
      | Some module \<Rightarrow>
          (case action_type action of
             Invoke \<Rightarrow>
               (case run_export_by_name x g module (action_field_name action) (action_args action) [] ctx of
                  Inl f \<Rightarrow> Inl f
                | Inr ((iresult, results), ctx1) \<Rightarrow>
                    Inr ((Ok, iresult, results),
                         (if verbose = Verbose
                          then printf (print_call x [] (action_field_name action) (action_args action)
                                         results iresult) ctx1
                          else ctx1)))
           | Get \<Rightarrow>
               (case get_global_export_by_name module (action_field_name action) [] ctx of
                  Inl f \<Rightarrow> Inl f
                | Inr ((iresult, results), ctx1) \<Rightarrow> Inr ((Ok, iresult, results), ctx1))))"

definition on_action_command ::
  "Collab \<Rightarrow> Globals \<Rightarrow> Action \<Rightarrow> Context \<Rightarrow> fault + (wabt_Result \<times> Context)"
where
  "on_action_command x g action ctx =
     (case run_action x g action Verbose (ctx\<lparr>total := total ctx + 1\<rparr>) of
        Inl f \<Rightarrow> Inl f
      | Inr ((result, iresult, results), ctx1) \<Rightarrow>
          if Succeeded result then
            (if iresult = Result_Ok then Inr (result, ctx1\<lparr>passed := passed ctx1 + 1\<rparr>)
             else Inr (Error,
                       print_command_error (''unexpected trap: '' @ s_trap_strings x iresult) ctx1))
          else Inr (result, ctx1))"

definition read_invalid_text_module ::
  "Collab \<Rightarrow> string \<Rightarrow> ErrorHandlerFile \<Rightarrow> 'a World_scheme \<Rightarrow> wabt_Result \<times> 'a World_scheme"
where
  "read_invalid_text_module x module_filename error_handler w =
     (case parse_wast x module_filename of
        (result, messages) \<Rightarrow> (result, printf (error_handler_stdout error_handler messages) w))"

text \<open>\<^verbatim>\<open>read_invalid_module\<close> reads the header's fields from the context and loads into
  the environment it is given: that of \<open>w\<close>. The header is made with \<^verbatim>\<open>%d\<close>: the line number, a
  \<^verbatim>\<open>uint32_t\<close>, is printed as a signed number of 32 bits, negative from \<open>2\<^sup>3\<^sup>1\<close> on
  (\<^verbatim>\<open>print_command_error\<close> prints it with \<^verbatim>\<open>%u\<close>).\<close>

definition read_invalid_module ::
  "Collab \<Rightarrow> Globals \<Rightarrow> Context \<Rightarrow> string \<Rightarrow> ModuleType \<Rightarrow> string \<Rightarrow> 'a World_scheme
     \<Rightarrow> wabt_Result \<times> 'a World_scheme"
where
  "read_invalid_module x g ctx module_filename module_type desc w =
     (let header = source_filename ctx @ '':''
                   @ format_d (sint (word_of_nat (command_line_number ctx) :: 32 word))
                   @ '': '' @ desc @ '' passed''
      in case module_type of
           Text \<Rightarrow> read_invalid_text_module x module_filename (ErrorHandler_stdout header) w
         | Binary \<Rightarrow>
             (case read_module x g module_filename (ErrorHandler_stdout header) w of
                ((result, module), w1) \<Rightarrow> (result, w1)))"

text \<open>\<^verbatim>\<open>on_assert_malformed_command\<close> and \<^verbatim>\<open>on_assert_invalid_command\<close> load into a
  fresh environment of their own, which is dropped on return.\<close>

definition on_assert_malformed_command ::
  "Collab \<Rightarrow> Globals \<Rightarrow> string \<Rightarrow> string \<Rightarrow> ModuleType \<Rightarrow> Context \<Rightarrow> wabt_Result \<times> Context"
where
  "on_assert_malformed_command x g filename text module_type ctx =
     (let ctx1 = ctx\<lparr>total := total ctx + 1\<rparr>;
          path = CreateModulePath ctx1 filename
      in case read_invalid_module x g ctx1 path module_type ''assert_malformed''
                (ctx1\<lparr>env := init_environment Environment_new\<rparr>) of
           (result, ctx2) \<Rightarrow>
             (let ctx3 = ctx2\<lparr>env := env ctx1\<rparr>
              in if Failed result then (Ok, ctx3\<lparr>passed := passed ctx3 + 1\<rparr>)
                 else (Error,
                       print_command_error
                         (''expected module to be malformed: '' @ [CHR 0x22] @ path @ [CHR 0x22])
                         ctx3)))"

definition on_register_command ::
  "string \<Rightarrow> string \<Rightarrow> Context \<Rightarrow> wabt_Result \<times> Context"
where
  "on_register_command nm as ctx =
     (let module_index = (if nm \<noteq> [] then FindModuleIndex (env ctx) nm
                          else GetLastModuleIndex (env ctx))
      in if module_index = kInvalidIndex
         then (Error, print_command_error ''unknown module in register'' ctx)
         else (Ok, ctx\<lparr>env := EmplaceRegisteredModuleBinding as module_index (env ctx)\<rparr>))"

definition on_assert_unlinkable_command ::
  "Collab \<Rightarrow> Globals \<Rightarrow> string \<Rightarrow> string \<Rightarrow> ModuleType \<Rightarrow> Context \<Rightarrow> wabt_Result \<times> Context"
where
  "on_assert_unlinkable_command x g filename text module_type ctx =
     (let ctx1 = ctx\<lparr>total := total ctx + 1\<rparr>;
          path = CreateModulePath ctx1 filename;
          mark = Mark (env ctx1)
      in case read_invalid_module x g ctx1 path module_type ''assert_unlinkable'' ctx1 of
           (result, ctx2) \<Rightarrow>
             (let ctx3 = ctx2\<lparr>env := ResetToMarkPoint mark (env ctx2)\<rparr>
              in if Failed result then (Ok, ctx3\<lparr>passed := passed ctx3 + 1\<rparr>)
                 else (Error,
                       print_command_error
                         (''expected module to be unlinkable: '' @ [CHR 0x22] @ path @ [CHR 0x22])
                         ctx3)))"

definition on_assert_invalid_command ::
  "Collab \<Rightarrow> Globals \<Rightarrow> string \<Rightarrow> string \<Rightarrow> ModuleType \<Rightarrow> Context \<Rightarrow> wabt_Result \<times> Context"
where
  "on_assert_invalid_command x g filename text module_type ctx =
     (let ctx1 = ctx\<lparr>total := total ctx + 1\<rparr>;
          path = CreateModulePath ctx1 filename
      in case read_invalid_module x g ctx1 path module_type ''assert_invalid''
                (ctx1\<lparr>env := init_environment Environment_new\<rparr>) of
           (result, ctx2) \<Rightarrow>
             (let ctx3 = ctx2\<lparr>env := env ctx1\<rparr>
              in if Failed result then (Ok, ctx3\<lparr>passed := passed ctx3 + 1\<rparr>)
                 else (Error,
                       print_command_error
                         (''expected module to be invalid: '' @ [CHR 0x22] @ path @ [CHR 0x22])
                         ctx3)))"

definition on_assert_uninstantiable_command ::
  "Collab \<Rightarrow> Globals \<Rightarrow> string \<Rightarrow> string \<Rightarrow> ModuleType \<Rightarrow> Context
     \<Rightarrow> fault + (wabt_Result \<times> Context)"
where
  "on_assert_uninstantiable_command x g filename text module_type ctx =
     (let ctx1 = ctx\<lparr>total := total ctx + 1\<rparr>;
          path = CreateModulePath ctx1 filename;
          mark = Mark (env ctx1)
      in case read_module x g path ErrorHandler_stderr ctx1 of
           ((result, module), ctx2) \<Rightarrow>
             if Succeeded result then
               (case deref_module (env ctx2) module of
                  Inl f \<Rightarrow> Inl f
                | Inr m \<Rightarrow>
                    (case run_start_function x g m ctx2 of
                       Inl f \<Rightarrow> Inl f
                     | Inr (iresult, ctx3) \<Rightarrow>
                         if iresult = Result_Ok then
                           (let ctx4 = print_command_error
                                         (''expected error running start function: ''
                                          @ [CHR 0x22] @ path @ [CHR 0x22]) ctx3
                            in Inr (Error, ctx4\<lparr>env := ResetToMarkPoint mark (env ctx4)\<rparr>))
                         else
                           Inr (Ok, ctx3\<lparr>passed := passed ctx3 + 1,
                                         env := ResetToMarkPoint mark (env ctx3)\<rparr>)))
             else
               (let ctx3 = print_command_error
                             (''error reading module: '' @ [CHR 0x22] @ path @ [CHR 0x22]) ctx2
                in Inr (Error, ctx3\<lparr>env := ResetToMarkPoint mark (env ctx3)\<rparr>)))"

definition typed_values_are_equal :: "TypedValue \<Rightarrow> TypedValue \<Rightarrow> bool" where
  "typed_values_are_equal tv1 tv2 =
     (if tv_type tv1 \<noteq> tv_type tv2 then False
      else
        (case tv_type tv1 of
           I32 \<Rightarrow> i32 tv1 = i32 tv2
         | F32 \<Rightarrow> f32_bits tv1 = f32_bits tv2
         | I64 \<Rightarrow> i64 tv1 = i64 tv2
         | F64 \<Rightarrow> f64_bits tv1 = f64_bits tv2))"

text \<open>The loop of \<^verbatim>\<open>on_assert_return_command\<close> over the results, from index \<open>i\<close> on: it
  reports every mismatch and goes on to the end.\<close>

fun assert_return_loop ::
  "Collab \<Rightarrow> nat \<Rightarrow> TypedValue list \<Rightarrow> TypedValue list \<Rightarrow> wabt_Result \<Rightarrow> Context
     \<Rightarrow> wabt_Result \<times> Context"
where
  "assert_return_loop x i (expected_tv # expected) (actual_tv # results) result ctx =
     (if \<not> typed_values_are_equal expected_tv actual_tv then
        assert_return_loop x (Suc i) expected results Error
          (print_command_error
             (''mismatch in result '' @ format_u i @ '' of assert_return: expected ''
              @ sprint_typed_value x expected_tv @ '', got '' @ sprint_typed_value x actual_tv)
             ctx)
      else assert_return_loop x (Suc i) expected results result ctx)"
| "assert_return_loop x i expected results result ctx = (result, ctx)"

definition on_assert_return_command ::
  "Collab \<Rightarrow> Globals \<Rightarrow> Action \<Rightarrow> TypedValue list \<Rightarrow> Context \<Rightarrow> fault + (wabt_Result \<times> Context)"
where
  "on_assert_return_command x g action expected ctx =
     (case run_action x g action Quiet (ctx\<lparr>total := total ctx + 1\<rparr>) of
        Inl f \<Rightarrow> Inl f
      | Inr ((result, iresult, results), ctx1) \<Rightarrow>
          (case (if Succeeded result then
                   (if iresult = Result_Ok then
                      (if length results = length expected
                       then assert_return_loop x 0 expected results result ctx1
                       else (Error,
                             print_command_error
                               (''result length mismatch in assert_return: expected ''
                                @ format_u (length expected) @ '', got ''
                                @ format_u (length results)) ctx1))
                    else (Error,
                          print_command_error
                            (''unexpected trap: '' @ s_trap_strings x iresult) ctx1))
                 else (result, ctx1)) of
             (result1, ctx2) \<Rightarrow>
               Inr (result1,
                    if Succeeded result1 then ctx2\<lparr>passed := passed ctx2 + 1\<rparr> else ctx2)))"

text \<open>
  Modelled from the spec: the predicates \<^verbatim>\<open>IsCanonicalNan\<close> and \<^verbatim>\<open>IsArithmeticNan\<close> of
  \<^verbatim>\<open>interpreter.h\<close>, on the bits of a binary32 and of a binary64 value. An arithmetic NaN
  has all exponent bits and the top payload bit set; a canonical NaN has all other
  payload bits zero.
\<close>

definition IsCanonicalNan_f32 :: "32 word \<Rightarrow> bool" where
  "IsCanonicalNan_f32 bits = (bits AND 0x7FFFFFFF = 0x7FC00000)"

definition IsArithmeticNan_f32 :: "32 word \<Rightarrow> bool" where
  "IsArithmeticNan_f32 bits = (bits AND 0x7FC00000 = 0x7FC00000)"

definition IsCanonicalNan_f64 :: "64 word \<Rightarrow> bool" where
  "IsCanonicalNan_f64 bits = (bits AND 0x7FFFFFFFFFFFFFFF = 0x7FF8000000000000)"

definition IsArithmeticNan_f64 :: "64 word \<Rightarrow> bool" where
  "IsArithmeticNan_f64 bits = (bits AND 0x7FF8000000000000 = 0x7FF8000000000000)"

text \<open>\<^verbatim>\<open>get_type_name\<close> is a helper of the library: the name of a value type.\<close>

definition get_type_name :: "Type \<Rightarrow> string" where
  "get_type_name t = (case t of I32 \<Rightarrow> ''i32'' | I64 \<Rightarrow> ''i64'' | F32 \<Rightarrow> ''f32'' | F64 \<Rightarrow> ''f64'')"

definition on_assert_return_nan_command ::
  "Collab \<Rightarrow> Globals \<Rightarrow> Action \<Rightarrow> bool \<Rightarrow> Context \<Rightarrow> fault + (wabt_Result \<times> Context)"
where
  "on_assert_return_nan_command x g action canonical ctx =
     (case run_action x g action Quiet (ctx\<lparr>total := total ctx + 1\<rparr>) of
        Inl f \<Rightarrow> Inl f
      | Inr ((result, iresult, results), ctx1) \<Rightarrow>
          (case (if Succeeded result then
                   (if iresult = Result_Ok then
                      (case (if length results \<noteq> 1
                             then (Error,
                                   print_command_error
                                     (''expected one result, got ''
                                      @ format_u (length results)) ctx1)
                             else (result, ctx1)) of
                         (result1, ctx2) \<Rightarrow>
                           (case at_index results 0 of
                              Inl f \<Rightarrow> Inl f
                            | Inr actual \<Rightarrow>
                                (case tv_type actual of
                                   F32 \<Rightarrow>
                                     (let is_nan = (if canonical
                                                    then IsCanonicalNan_f32 (f32_bits actual)
                                                    else IsArithmeticNan_f32 (f32_bits actual))
                                      in if \<not> is_nan then
                                           Inr (Error,
                                                print_command_error
                                                  (''expected result to be nan, got ''
                                                   @ sprint_typed_value x actual) ctx2)
                                         else Inr (result1, ctx2))
                                 | F64 \<Rightarrow>
                                     (let is_nan = (if canonical
                                                    then IsCanonicalNan_f64 (f64_bits actual)
                                                    else IsArithmeticNan_f64 (f64_bits actual))
                                      in if \<not> is_nan then
                                           Inr (Error,
                                                print_command_error
                                                  (''expected result to be nan, got ''
                                                   @ sprint_typed_value x actual) ctx2)
                                         else Inr (result1, ctx2))
                                 | _ \<Rightarrow>
                                     Inr (Error,
                                          print_command_error
                                            (''expected result type to be f32 or f64, got ''
                                             @ get_type_name (tv_type actual)) ctx2))))
                    else Inr (Error,
                              print_command_error
                                (''unexpected trap: '' @ s_trap_strings x iresult) ctx1))
                 else Inr (result, ctx1)) of
             Inl f \<Rightarrow> Inl f
           | Inr (result2, ctx3) \<Rightarrow>
               Inr (Ok, if Succeeded result2 then ctx3\<lparr>passed := passed ctx3 + 1\<rparr> else ctx3)))"

definition on_assert_trap_command ::
  "Collab \<Rightarrow> Globals \<Rightarrow> Action \<Rightarrow> string \<Rightarrow> Context \<Rightarrow> fault + (wabt_Result \<times> Context)"
where
  "on_assert_trap_command x g action text ctx =
     (case run_action x g action Quiet (ctx\<lparr>total := total ctx + 1\<rparr>) of
        Inl f \<Rightarrow> Inl f
      | Inr ((result, iresult, results), ctx1) \<Rightarrow>
          if Succeeded result then
            (if iresult \<noteq> Result_Ok then Inr (result, ctx1\<lparr>passed := passed ctx1 + 1\<rparr>)
             else Inr (Error,
                       print_command_error
                         (''expected trap: '' @ [CHR 0x22] @ text @ [CHR 0x22]) ctx1))
          else Inr (result, ctx1))"

definition on_assert_exhaustion_command ::
  "Collab \<Rightarrow> Globals \<Rightarrow> Action \<Rightarrow> Context \<Rightarrow> fault + (wabt_Result \<times> Context)"
where
  "on_assert_exhaustion_command x g action ctx =
     (case run_action x g action Quiet (ctx\<lparr>total := total ctx + 1\<rparr>) of
        Inl f \<Rightarrow> Inl f
      | Inr ((result, iresult, results), ctx1) \<Rightarrow>
          if Succeeded result then
            (if iresult = TrapCallStackExhausted \<or> iresult = TrapValueStackExhausted
             then Inr (result, ctx1\<lparr>passed := passed ctx1 + 1\<rparr>)
             else Inr (Error, print_command_error ''expected call stack exhaustion'' ctx1))
          else Inr (result, ctx1))"

section \<open>The JSON reader\<close>

definition char_value :: "Collab \<Rightarrow> 8 word \<Rightarrow> int" where
  "char_value x b = (if char_is_signed x then sint b else uint b)"

definition read_char :: "Collab \<Rightarrow> Context \<Rightarrow> int \<times> Context" where
  "read_char x ctx =
     (if json_offset ctx \<ge> length (json_data ctx) then (- 1, ctx)
      else (char_value x (json_data ctx ! json_offset ctx),
            ctx\<lparr>json_offset := json_offset ctx + 1, has_prev_loc := True\<rparr>))"

definition putback_char :: "Context \<Rightarrow> fault + Context" where
  "putback_char ctx =
     (if has_prev_loc ctx
      then Inr (ctx\<lparr>json_offset := (if json_offset ctx = 0 then 2 ^ 64 - 1
                                      else json_offset ctx - 1),
                    has_prev_loc := False\<rparr>)
      else Inl (AssertionFailure ''ctx->has_prev_loc''))"

definition remaining :: "Context \<Rightarrow> nat" where
  "remaining ctx = length (json_data ctx) - json_offset ctx"

function skip_whitespace :: "Collab \<Rightarrow> Context \<Rightarrow> fault + Context" where
  "skip_whitespace x ctx =
     (case read_char x ctx of
        (c, ctx1) \<Rightarrow>
          if c = - 1 then Inr ctx1
          else if c = 32 \<or> c = 9 \<or> c = 10 \<or> c = 13 then skip_whitespace x ctx1
          else putback_char ctx1)"
  by pat_completeness auto
termination
  by (relation "measure (\<lambda>(x, ctx). remaining ctx)")
     (auto simp: read_char_def remaining_def split: if_splits)

declare skip_whitespace.simps [simp del]

fun match_loop :: "Collab \<Rightarrow> string \<Rightarrow> Context \<Rightarrow> bool \<times> Context" where
  "match_loop x [] ctx = (True, ctx)"
| "match_loop x (c # s) ctx =
     (case read_char x ctx of
        (r, ctx1) \<Rightarrow> if of_char c = r then match_loop x s ctx1 else (False, ctx1))"

definition match :: "Collab \<Rightarrow> string \<Rightarrow> Context \<Rightarrow> fault + (bool \<times> Context)" where
  "match x s ctx =
     (case skip_whitespace x ctx of
        Inl f \<Rightarrow> Inl f
      | Inr ctx1 \<Rightarrow>
          (case match_loop x s ctx1 of
             (True, ctx2) \<Rightarrow> Inr (True, ctx2)
           | (False, ctx2) \<Rightarrow> Inr (False, ctx2\<lparr>json_offset := json_offset ctx1\<rparr>)))"

type_synonym 'a reader = "Context \<Rightarrow> fault + ('a option \<times> Context)"

definition ok :: "'a \<Rightarrow> 'a reader" where
  "ok a ctx = Inr (Some a, ctx)"

definition then_read :: "'a reader \<Rightarrow> ('a \<Rightarrow> 'b reader) \<Rightarrow> 'b reader" where
  "then_read p f ctx =
     (case p ctx of
        Inl e \<Rightarrow> Inl e
      | Inr (None, ctx1) \<Rightarrow> Inr (None, ctx1)
      | Inr (Some a, ctx1) \<Rightarrow> f a ctx1)"

lemma then_read_cong [fundef_cong]:
  assumes "p ctx = p' ctx'" and "\<And>a ctx1. p' ctx' = Inr (Some a, ctx1) \<Longrightarrow> f a ctx1 = f' a ctx1"
  shows "then_read p f ctx = then_read p' f' ctx'"
  using assms by (auto simp: then_read_def split: sum.splits option.splits prod.splits)

definition expect :: "Collab \<Rightarrow> string \<Rightarrow> unit reader" where
  "expect x s ctx =
     (case match x s ctx of
        Inl f \<Rightarrow> Inl f
      | Inr (b, ctx1) \<Rightarrow> Inr (if b then Some () else None, ctx1))"


definition fail :: "'a reader" where
  "fail ctx = Inr (None, ctx)"

definition if_match :: "Collab \<Rightarrow> string \<Rightarrow> 'a reader \<Rightarrow> 'a reader \<Rightarrow> 'a reader" where
  "if_match x s p q ctx =
     (case match x s ctx of
        Inl f \<Rightarrow> Inl f
      | Inr (True, ctx1) \<Rightarrow> p ctx1
      | Inr (False, ctx1) \<Rightarrow> q ctx1)"

definition quoted :: "string \<Rightarrow> string" where
  "quoted s = [CHR 0x22] @ s @ [CHR 0x22]"

definition expect_key :: "Collab \<Rightarrow> string \<Rightarrow> unit reader" where
  "expect_key x key = then_read (expect x (quoted key)) (\<lambda>u. expect x '':'')"

function parse_uint32_loop :: "Collab \<Rightarrow> 32 word \<Rightarrow> (32 word) reader" where
  "parse_uint32_loop x result ctx =
     (case read_char x ctx of
        (c, ctx1) \<Rightarrow>
          if 48 \<le> c \<and> c \<le> 57 then
            (if result * 10 + word_of_int (c - 48) < result then Inr (None, ctx1)
             else parse_uint32_loop x (result * 10 + word_of_int (c - 48)) ctx1)
          else
            (case putback_char ctx1 of
               Inl f \<Rightarrow> Inl f
             | Inr ctx2 \<Rightarrow> Inr (Some result, ctx2)))"
  by pat_completeness auto
termination
  by (relation "measure (\<lambda>(x, result, ctx). remaining ctx)")
     (auto simp: read_char_def remaining_def split: if_splits)

declare parse_uint32_loop.simps [simp del]

definition parse_uint32 :: "Collab \<Rightarrow> (32 word) reader" where
  "parse_uint32 x ctx =
     (case skip_whitespace x ctx of
        Inl f \<Rightarrow> Inl f
      | Inr ctx1 \<Rightarrow> parse_uint32_loop x 0 ctx1)"

fun parse_hex_digits :: "Collab \<Rightarrow> nat \<Rightarrow> 16 word \<Rightarrow> (16 word) reader" where
  "parse_hex_digits x 0 code ctx = Inr (Some code, ctx)"
| "parse_hex_digits x (Suc n) code ctx =
     (case read_char x ctx of
        (c, ctx1) \<Rightarrow>
          if 48 \<le> c \<and> c \<le> 57
          then parse_hex_digits x n (push_bit 4 code + word_of_int (c - 48)) ctx1
          else if 97 \<le> c \<and> c \<le> 102
          then parse_hex_digits x n (push_bit 4 code + word_of_int (c - 97 + 10)) ctx1
          else if 65 \<le> c \<and> c \<le> 70
          then parse_hex_digits x n (push_bit 4 code + word_of_int (c - 65 + 10)) ctx1
          else Inr (None, ctx1))"

text \<open>The loop of \<^verbatim>\<open>parse_string\<close>. It ends at a quote or at a bad escape only. At the
  end of the input \<^verbatim>\<open>read_char\<close> returns \<open>-1\<close> and does not advance; \<open>-1\<close> is neither a quote
  nor a backslash, so the loop appends it to the string and reads again, for ever: the
  string grows until no memory is left and the process ends there, with nothing printed
  after. The model ends the run at this point with the fault \<^verbatim>\<open>OutOfMemory\<close>. Before the
  end of the input every round of the loop reads a byte.\<close>

function parse_string_loop :: "Collab \<Rightarrow> string \<Rightarrow> string reader" where
  "parse_string_loop x out ctx =
     (if length (json_data ctx) \<le> json_offset ctx then Inl OutOfMemory
      else
        (case read_char x ctx of
           (c, ctx1) \<Rightarrow>
             if c = 34 then Inr (Some out, ctx1)
             else if c = 92 then
               (case read_char x ctx1 of
                  (c2, ctx2) \<Rightarrow>
                    if c2 \<noteq> 117 then Inr (None, ctx2)
                    else
                      then_read (parse_hex_digits x 4 0)
                        (\<lambda>code. parse_string_loop x
                                  (if code < 256 then out @ [char_of (unat code)] else out))
                        ctx2)
             else parse_string_loop x (out @ [char_of c]) ctx1))"
  by pat_completeness auto

definition parse_string :: "Collab \<Rightarrow> string reader" where
  "parse_string x ctx =
     (case skip_whitespace x ctx of
        Inl f \<Rightarrow> Inl f
      | Inr ctx1 \<Rightarrow>
          (case read_char x ctx1 of
             (c, ctx2) \<Rightarrow> if c \<noteq> 34 then Inr (None, ctx2) else parse_string_loop x [] ctx2))"

definition parse_key_string_value :: "Collab \<Rightarrow> string \<Rightarrow> string reader" where
  "parse_key_string_value x key = then_read (expect_key x key) (\<lambda>u. parse_string x)"

definition parse_opt_name_string_value :: "Collab \<Rightarrow> string reader" where
  "parse_opt_name_string_value x =
     if_match x (quoted ''name'')
       (then_read (expect x '':'') (\<lambda>u.
        then_read (parse_string x) (\<lambda>s.
        then_read (expect x '','') (\<lambda>u. ok s))))
       (ok [])"

definition parse_line :: "Collab \<Rightarrow> unit reader" where
  "parse_line x =
     then_read (expect_key x ''line'') (\<lambda>u.
     then_read (parse_uint32 x) (\<lambda>n ctx.
       Inr (Some (), ctx\<lparr>command_line_number := unat n\<rparr>)))"

definition parse_type_object :: "Collab \<Rightarrow> Type reader" where
  "parse_type_object x =
     then_read (expect x ''{'') (\<lambda>u.
     then_read (parse_key_string_value x ''type'') (\<lambda>type_str.
     then_read (expect x ''}'') (\<lambda>u.
       if type_str = ''i32'' then ok I32
       else if type_str = ''f32'' then ok F32
       else if type_str = ''i64'' then ok I64
       else if type_str = ''f64'' then ok F64
       else fail)))"

function parse_type_vector_loop :: "Collab \<Rightarrow> bool \<Rightarrow> Type list \<Rightarrow> (Type list) reader" where
  "parse_type_vector_loop x first out_types ctx =
     (case match x '']'' ctx of
        Inl f \<Rightarrow> Inl f
      | Inr (True, ctx1) \<Rightarrow> Inr (Some out_types, ctx1)
      | Inr (False, ctx1) \<Rightarrow>
          then_read (if \<not> first then expect x '','' else ok ()) (\<lambda>u.
          then_read (parse_type_object x) (\<lambda>t.
            parse_type_vector_loop x False (out_types @ [t]))) ctx1)"
  by pat_completeness auto

definition parse_type_vector :: "Collab \<Rightarrow> (Type list) reader" where
  "parse_type_vector x = then_read (expect x ''['') (\<lambda>u. parse_type_vector_loop x True [])"

definition parse_const :: "Collab \<Rightarrow> TypedValue reader" where
  "parse_const x =
     then_read (expect x ''{'') (\<lambda>u.
     then_read (parse_key_string_value x ''type'') (\<lambda>type_str.
     then_read (expect x '','') (\<lambda>u.
     then_read (parse_key_string_value x ''value'') (\<lambda>value_str.
     then_read (expect x ''}'') (\<lambda>u.
       if type_str = ''i32'' then
         (case parse_int32 x value_str of None \<Rightarrow> fail | Some v \<Rightarrow> ok (TV_I32 v))
       else if type_str = ''f32'' then
         (case parse_int32 x value_str of None \<Rightarrow> fail | Some v \<Rightarrow> ok (TV_F32 v))
       else if type_str = ''i64'' then
         (case parse_int64 x value_str of None \<Rightarrow> fail | Some v \<Rightarrow> ok (TV_I64 v))
       else if type_str = ''f64'' then
         (case parse_int64 x value_str of None \<Rightarrow> fail | Some v \<Rightarrow> ok (TV_F64 v))
       else fail)))))"

function parse_const_vector_loop ::
  "Collab \<Rightarrow> bool \<Rightarrow> TypedValue list \<Rightarrow> (TypedValue list) reader"
where
  "parse_const_vector_loop x first out_values ctx =
     (case match x '']'' ctx of
        Inl f \<Rightarrow> Inl f
      | Inr (True, ctx1) \<Rightarrow> Inr (Some out_values, ctx1)
      | Inr (False, ctx1) \<Rightarrow>
          then_read (if \<not> first then expect x '','' else ok ()) (\<lambda>u.
          then_read (parse_const x) (\<lambda>v.
            parse_const_vector_loop x False (out_values @ [v]))) ctx1)"
  by pat_completeness auto

definition parse_const_vector :: "Collab \<Rightarrow> (TypedValue list) reader" where
  "parse_const_vector x = then_read (expect x ''['') (\<lambda>u. parse_const_vector_loop x True [])"

definition parse_action :: "Collab \<Rightarrow> Action reader" where
  "parse_action x =
     then_read (expect_key x ''action'') (\<lambda>u.
     then_read (expect x ''{'') (\<lambda>u.
     then_read (expect_key x ''type'') (\<lambda>u.
     then_read (if_match x (quoted ''invoke'') (ok Invoke)
                  (then_read (expect x (quoted ''get'')) (\<lambda>u. ok Get))) (\<lambda>type.
     then_read (expect x '','') (\<lambda>u.
     then_read (if_match x (quoted ''module'')
                  (then_read (expect x '':'') (\<lambda>u.
                   then_read (parse_string x) (\<lambda>s.
                   then_read (expect x '','') (\<lambda>u. ok s))))
                  (ok [])) (\<lambda>module_nm.
     then_read (parse_key_string_value x ''field'') (\<lambda>field.
     then_read (if type = Invoke
                then then_read (expect x '','') (\<lambda>u.
                     then_read (expect_key x ''args'') (\<lambda>u. parse_const_vector x))
                else ok []) (\<lambda>values.
     then_read (expect x ''}'') (\<lambda>u.
       ok \<lparr>action_type = type, action_module_name = module_nm,
           action_field_name = field, action_args = values\<rparr>)))))))))"

definition parse_module_type :: "Collab \<Rightarrow> ModuleType reader" where
  "parse_module_type x =
     then_read (parse_key_string_value x ''module_type'') (\<lambda>module_type_str.
       if module_type_str = ''text'' then ok Text
       else if module_type_str = ''binary'' then ok Binary
       else fail)"

section \<open>The script\<close>

text \<open>The handler that \<^verbatim>\<open>parse_command\<close> calls in the branch of each command type.\<close>

definition run_command ::
  "Collab \<Rightarrow> Globals \<Rightarrow> Command \<Rightarrow> Context \<Rightarrow> fault + (wabt_Result \<times> Context)"
where
  "run_command x g command ctx =
     (case command of
        ModuleCommand filename nm \<Rightarrow> on_module_command x g filename nm ctx
      | ActionCommand action \<Rightarrow> on_action_command x g action ctx
      | RegisterCommand nm as \<Rightarrow> Inr (on_register_command nm as ctx)
      | AssertMalformedCommand filename text module_type \<Rightarrow>
          Inr (on_assert_malformed_command x g filename text module_type ctx)
      | AssertInvalidCommand filename text module_type \<Rightarrow>
          Inr (on_assert_invalid_command x g filename text module_type ctx)
      | AssertUnlinkableCommand filename text module_type \<Rightarrow>
          Inr (on_assert_unlinkable_command x g filename text module_type ctx)
      | AssertUninstantiableCommand filename text module_type \<Rightarrow>
          on_assert_uninstantiable_command x g filename text module_type ctx
      | AssertReturnCommand action expected \<Rightarrow> on_assert_return_command x g action expected ctx
      | AssertReturnCanonicalNanCommand action \<Rightarrow>
          on_assert_return_nan_command x g action True ctx
      | AssertReturnArithmeticNanCommand action \<Rightarrow>
          on_assert_return_nan_command x g action False ctx
      | AssertTrapCommand action text \<Rightarrow> on_assert_trap_command x g action text ctx
      | AssertExhaustionCommand action \<Rightarrow> on_assert_exhaustion_command x g action ctx)"

text \<open>The handler's result is dropped by \<^verbatim>\<open>parse_command\<close>.\<close>

definition call_handler :: "(Context \<Rightarrow> fault + (wabt_Result \<times> Context)) \<Rightarrow> unit reader" where
  "call_handler h ctx =
     (case h ctx of
        Inl f \<Rightarrow> Inl f
      | Inr (r, ctx1) \<Rightarrow> Inr (Some (), ctx1))"

text \<open>The fields that the branches of the four commands on a module that must not load
  read, in the same order in each.\<close>

definition parse_invalid_module_fields :: "Collab \<Rightarrow> (string \<times> string \<times> ModuleType) reader" where
  "parse_invalid_module_fields x =
     then_read (expect x '','') (\<lambda>u.
     then_read (parse_line x) (\<lambda>u.
     then_read (expect x '','') (\<lambda>u.
     then_read (parse_key_string_value x ''filename'') (\<lambda>filename.
     then_read (expect x '','') (\<lambda>u.
     then_read (parse_key_string_value x ''text'') (\<lambda>msg.
     then_read (expect x '','') (\<lambda>u.
     then_read (parse_module_type x) (\<lambda>module_type.
       ok (filename, msg, module_type)))))))))"

text \<open>The line and the action, which six branches read first.\<close>

definition parse_line_and_action :: "Collab \<Rightarrow> Action reader" where
  "parse_line_and_action x =
     then_read (expect x '','') (\<lambda>u.
     then_read (parse_line x) (\<lambda>u.
     then_read (expect x '','') (\<lambda>u. parse_action x)))"

text \<open>The chain of branches of \<^verbatim>\<open>parse_command\<close>, up to the call of the handler.\<close>

definition parse_command_fields :: "Collab \<Rightarrow> Command reader" where
  "parse_command_fields x =
     if_match x (quoted ''module'')
       (then_read (expect x '','') (\<lambda>u.
        then_read (parse_line x) (\<lambda>u.
        then_read (expect x '','') (\<lambda>u.
        then_read (parse_opt_name_string_value x) (\<lambda>nm.
        then_read (parse_key_string_value x ''filename'') (\<lambda>filename.
          ok (ModuleCommand filename nm)))))))
    (if_match x (quoted ''action'')
       (then_read (parse_line_and_action x) (\<lambda>action. ok (ActionCommand action)))
    (if_match x (quoted ''register'')
       (then_read (expect x '','') (\<lambda>u.
        then_read (parse_line x) (\<lambda>u.
        then_read (expect x '','') (\<lambda>u.
        then_read (parse_opt_name_string_value x) (\<lambda>nm.
        then_read (parse_key_string_value x ''as'') (\<lambda>as.
          ok (RegisterCommand nm as)))))))
    (if_match x (quoted ''assert_malformed'')
       (then_read (parse_invalid_module_fields x) (\<lambda>(filename, msg, module_type).
          ok (AssertMalformedCommand filename msg module_type)))
    (if_match x (quoted ''assert_invalid'')
       (then_read (parse_invalid_module_fields x) (\<lambda>(filename, msg, module_type).
          ok (AssertInvalidCommand filename msg module_type)))
    (if_match x (quoted ''assert_unlinkable'')
       (then_read (parse_invalid_module_fields x) (\<lambda>(filename, msg, module_type).
          ok (AssertUnlinkableCommand filename msg module_type)))
    (if_match x (quoted ''assert_uninstantiable'')
       (then_read (parse_invalid_module_fields x) (\<lambda>(filename, msg, module_type).
          ok (AssertUninstantiableCommand filename msg module_type)))
    (if_match x (quoted ''assert_return'')
       (then_read (parse_line_and_action x) (\<lambda>action.
        then_read (expect x '','') (\<lambda>u.
        then_read (expect_key x ''expected'') (\<lambda>u.
        then_read (parse_const_vector x) (\<lambda>expected.
          ok (AssertReturnCommand action expected))))))
    (if_match x (quoted ''assert_return_canonical_nan'')
       (then_read (parse_line_and_action x) (\<lambda>action.
        then_read (expect x '','') (\<lambda>u.
        then_read (expect_key x ''expected'') (\<lambda>u.
        then_read (parse_type_vector x) (\<lambda>expected.
          ok (AssertReturnCanonicalNanCommand action))))))
    (if_match x (quoted ''assert_return_arithmetic_nan'')
       (then_read (parse_line_and_action x) (\<lambda>action.
        then_read (expect x '','') (\<lambda>u.
        then_read (expect_key x ''expected'') (\<lambda>u.
        then_read (parse_type_vector x) (\<lambda>expected.
          ok (AssertReturnArithmeticNanCommand action))))))
    (if_match x (quoted ''assert_trap'')
       (then_read (parse_line_and_action x) (\<lambda>action.
        then_read (expect x '','') (\<lambda>u.
        then_read (parse_key_string_value x ''text'') (\<lambda>msg.
          ok (AssertTrapCommand action msg)))))
    (if_match x (quoted ''assert_exhaustion'')
       (then_read (parse_line_and_action x) (\<lambda>action. ok (AssertExhaustionCommand action)))
       (\<lambda>ctx. Inr (None, print_command_error ''unknown command type'' ctx)))))))))))))"

text \<open>\<^verbatim>\<open>parse_command\<close>: the opening brace and the type key, the fields of the command,
  the call of its handler, and the closing brace.\<close>

definition parse_command :: "Collab \<Rightarrow> Globals \<Rightarrow> unit reader" where
  "parse_command x g =
     then_read (expect x ''{'') (\<lambda>u.
     then_read (expect_key x ''type'') (\<lambda>u.
     then_read (parse_command_fields x) (\<lambda>command.
     then_read (call_handler (run_command x g command)) (\<lambda>u. expect x ''}''))))"

text \<open>The loop of \<^verbatim>\<open>parse_commands\<close>: until the closing bracket, a comma unless the
  command is the first, and the command. Its termination is proved below, with the
  lemmas on what a command consumes.\<close>

function parse_commands_loop :: "Collab \<Rightarrow> Globals \<Rightarrow> bool \<Rightarrow> unit reader" where
  "parse_commands_loop x g first ctx =
     (case match x '']'' ctx of
        Inl f \<Rightarrow> Inl f
      | Inr (True, ctx1) \<Rightarrow> Inr (Some (), ctx1)
      | Inr (False, ctx1) \<Rightarrow>
          then_read (if \<not> first then expect x '','' else ok ()) (\<lambda>u.
          then_read (parse_command x g) (\<lambda>u. parse_commands_loop x g False)) ctx1)"
  by pat_completeness auto

definition parse_commands :: "Collab \<Rightarrow> Globals \<Rightarrow> unit reader" where
  "parse_commands x g =
     then_read (expect x ''{'') (\<lambda>u.
     then_read (parse_key_string_value x ''source_filename'') (\<lambda>s.
     then_read (\<lambda>ctx. Inr (Some (), ctx\<lparr>source_filename := s\<rparr>)) (\<lambda>u.
     then_read (expect x '','') (\<lambda>u.
     then_read (expect_key x ''commands'') (\<lambda>u.
     then_read (expect x ''['') (\<lambda>u.
     then_read (parse_commands_loop x g True) (\<lambda>u. expect x ''}'')))))))"

text \<open>The summary line: \<^verbatim>\<open>printf("%d/%d tests passed.\n", ctx.passed, ctx.total)\<close>.\<close>

definition summary_line :: "int \<Rightarrow> int \<Rightarrow> string" where
  "summary_line p t = format_d p @ ''/'' @ format_d t @ '' tests passed.'' @ newline"

text \<open>\<^verbatim>\<open>read_and_run_spec_json\<close>, from the text already on the standard output to the
  result and the text on the standard output at the end.\<close>

definition Context_new :: "string \<Rightarrow> Context" where
  "Context_new out =
     \<lparr>env = Environment_new, stdout = out, last_module = None, loc_filename = [],
      json_data = [], source_filename = [], json_offset = 0, has_prev_loc = False,
      command_line_number = 0, passed = 0, total = 0\<rparr>"

definition read_and_run_spec_json ::
  "Collab \<Rightarrow> Globals \<Rightarrow> string \<Rightarrow> string \<Rightarrow> fault + (wabt_Result \<times> string)"
where
  "read_and_run_spec_json x g spec_json_filename out =
     (let ctx = (Context_new out)\<lparr>loc_filename := spec_json_filename\<rparr>;
          ctx0 = ctx\<lparr>env := init_environment (env ctx)\<rparr>
      in case ReadFile x spec_json_filename of
           None \<Rightarrow> Inr (Error, stdout ctx0)
         | Some file_data \<Rightarrow>
             (case parse_commands x g (ctx0\<lparr>json_data := file_data\<rparr>) of
                Inl f \<Rightarrow> Inl f
              | Inr (result, ctx1) \<Rightarrow>
                  Inr (if result = None then Error else Ok,
                       stdout (printf (summary_line (passed ctx1) (total ctx1)) ctx1))))"

section \<open>The command line\<close>

definition run_option_callback :: "Collab \<Rightarrow> Globals \<Rightarrow> OptionCallback \<Rightarrow> Globals" where
  "run_option_callback x g cb =
     (case cb of
        On_verbose \<Rightarrow> g\<lparr>s_verbose := s_verbose g + 1\<rparr>
      | On_value_stack_size argument \<Rightarrow> g\<lparr>s_value_stack_size := atoi x argument\<rparr>
      | On_call_stack_size argument \<Rightarrow> g\<lparr>s_call_stack_size := atoi x argument\<rparr>
      | On_trace \<Rightarrow> g\<lparr>s_trace := True\<rparr>
      | On_spec \<Rightarrow> g\<lparr>s_spec := True\<rparr>
      | On_run_all_exports \<Rightarrow> g\<lparr>s_run_all_exports := True\<rparr>
      | On_filename argument \<Rightarrow> g\<lparr>s_infile := argument\<rparr>)"

text \<open>The static variables at program start; the default stack sizes are those of the
  configuration options of the spec.\<close>

definition Globals_initial :: Globals where
  "Globals_initial =
     \<lparr>s_verbose = 0, s_infile = [], s_value_stack_size = 16384, s_call_stack_size = 1024,
      s_trace = False, s_spec = False, s_run_all_exports = False\<rparr>"

definition parse_options :: "Collab \<Rightarrow> string list \<Rightarrow> Globals \<Rightarrow> fault + Globals" where
  "parse_options x argv g =
     (case OptionParser_Parse x argv of
        Inl f \<Rightarrow> Inl f
      | Inr callbacks \<Rightarrow>
          (let g1 = foldl (run_option_callback x) g callbacks
           in if s_spec g1 \<and> s_run_all_exports g1
              then Inl (Fatal (''--spec and --run-all-exports are incompatible.'' @ newline))
              else Inr g1))"

text \<open>\<^verbatim>\<open>ProgramMain\<close>, from the command line and the text on the standard output to the
  exit code and the text on the standard output.\<close>

definition ProgramMain :: "Collab \<Rightarrow> string list \<Rightarrow> string \<Rightarrow> fault + (int \<times> string)" where
  "ProgramMain x argv out =
     (case parse_options x argv Globals_initial of
        Inl f \<Rightarrow> Inl f
      | Inr g \<Rightarrow>
          (if s_spec g then
             (case read_and_run_spec_json x g (s_infile g) out of
                Inl f \<Rightarrow> Inl f
              | Inr (result, out1) \<Rightarrow> Inr (if result \<noteq> Ok then 1 else 0, out1))
           else
             (case read_and_run_module x g (s_infile g)
                     \<lparr>env = Environment_new, stdout = out\<rparr> of
                Inl f \<Rightarrow> Inl f
              | Inr (result, w) \<Rightarrow> Inr (if result \<noteq> Ok then 1 else 0, stdout w))))"

section \<open>An example installation\<close>

text \<open>
  A small instance of the collaborators, at which the theorems below are applied: an
  interpreter with five functions, three module files, one script and a plain option
  parser.
\<close>

definition example_module :: Module where
  "example_module =
     \<lparr>mod_name = [],
      exports =
        [\<lparr>name = ''nan'', kind = Kind_Func, index = 0\<rparr>,
         \<lparr>name = ''none'', kind = Kind_Func, index = 1\<rparr>,
         \<lparr>name = ''rec'', kind = Kind_Func, index = 2\<rparr>,
         \<lparr>name = ''seven'', kind = Kind_Func, index = 3\<rparr>,
         \<lparr>name = ''g'', kind = Kind_Global, index = 0\<rparr>],
      is_host = False,
      start_func_index = kInvalidIndex\<rparr>"

definition example_global :: Global where
  "example_global = \<lparr>typed_value = TV_I32 666, mutabl = False\<rparr>"

definition example_RunFunction ::
  "Environment \<Rightarrow> Index \<Rightarrow> TypedValue list \<Rightarrow> TypedValue list
     \<Rightarrow> interpreter_Result \<times> TypedValue list \<times> Environment \<times> string"
where
  "example_RunFunction e i as old =
     (if i = 0 then (Result_Ok, [TV_F32 0x7FC00000], e, [])
      else if i = 1 then (Result_Ok, [], e, [])
      else if i = 2 then (TrapCallStackExhausted, [], e, [])
      else if i = 3 then (Result_Ok, [TV_I32 7], e, [])
      else (TrapUnreachable, [], e, []))"

definition example_read_binary_interpreter ::
  "Environment \<Rightarrow> 8 word list \<Rightarrow> wabt_Result \<times> Environment \<times> Index option \<times> string list"
where
  "example_read_binary_interpreter e bytes =
     (if bytes = [0] then
        (Ok, e\<lparr>modules := modules e @ [example_module], globals := globals e @ [example_global]\<rparr>,
         Some (length (modules e)), [])
      else if bytes = [1] then
        (Ok, e\<lparr>modules := modules e @ [example_module\<lparr>start_func_index := 4\<rparr>]\<rparr>,
         Some (length (modules e)), [])
      else if bytes = [2] then
        (Error,
         e\<lparr>modules := modules e @ [example_module],
           funcs := funcs e @ [HostFunc \<lparr>param_types = [], result_types = [I32]\<rparr> ''Mf'' ''call'']\<rparr>,
         None,
         [''  error: import signature mismatch'' @ newline])
      else (Error, e, None, []))"

text \<open>The bytes of a script with one module and two assertions: the first holds, the second
  does not.\<close>

definition example_json :: "8 word list" where
  "example_json = map of_char
     (''{'' @ quoted ''source_filename'' @ '':'' @ quoted ''t.wast'' @ '',''
      @ quoted ''commands'' @ '':['' @ newline
      @ ''{'' @ quoted ''type'' @ '':'' @ quoted ''module'' @ '','' @ quoted ''line''
      @ '':1,'' @ quoted ''filename'' @ '':'' @ quoted ''ok.wasm'' @ ''},''
      @ ''{'' @ quoted ''type'' @ '':'' @ quoted ''assert_return'' @ '','' @ quoted ''line''
      @ '':2,'' @ quoted ''action'' @ '':{'' @ quoted ''type'' @ '':'' @ quoted ''invoke''
      @ '','' @ quoted ''field'' @ '':'' @ quoted ''none'' @ '','' @ quoted ''args''
      @ '':[]},'' @ quoted ''expected'' @ '':[]},''
      @ ''{'' @ quoted ''type'' @ '':'' @ quoted ''assert_exhaustion'' @ '',''
      @ quoted ''line'' @ '':3,'' @ quoted ''action'' @ '':{'' @ quoted ''type'' @ '':''
      @ quoted ''invoke'' @ '','' @ quoted ''field'' @ '':'' @ quoted ''none'' @ '',''
      @ quoted ''args'' @ '':[]}}]}'')"

definition example_ReadFile :: "string \<Rightarrow> 8 word list option" where
  "example_ReadFile path =
     (if path = ''ok.wasm'' then Some [0]
      else if path = ''trap.wasm'' then Some [1]
      else if path = ''unlinkable.wasm'' then Some [2]
      else if path = ''test.json'' then Some example_json
      else None)"

definition example_invoke :: "string \<Rightarrow> Action" where
  "example_invoke field =
     \<lparr>action_type = Invoke, action_module_name = [], action_field_name = field, action_args = []\<rparr>"

definition example_option :: "string \<Rightarrow> OptionCallback" where
  "example_option arg =
     (if arg = ''--spec'' then On_spec
      else if arg = ''--run-all-exports'' then On_run_all_exports
      else if arg = ''--trace'' then On_trace
      else On_filename arg)"

definition example_collab :: Collab where
  "example_collab =
     \<lparr>RunFunction = example_RunFunction,
      TraceFunction = example_RunFunction,
      ReadFile = example_ReadFile,
      read_binary_interpreter = example_read_binary_interpreter,
      parse_wast = (\<lambda>filename. (Error, [])),
      DisassembleModule = (\<lambda>e m. []),
      s_trap_strings = (\<lambda>r. if r = TrapCallStackExhausted then ''call stack exhausted''
                             else ''trap''),
      format_f32 = (\<lambda>bits. ''nan''),
      format_f64 = (\<lambda>bits. ''nan''),
      atoi = (\<lambda>a. 0),
      parse_int32 = (\<lambda>s. if s = ''7'' then Some 7 else None),
      parse_int64 = (\<lambda>s. if s = ''7'' then Some 7 else None),
      char_is_signed = True,
      OptionParser_Parse = (\<lambda>argv. Inr (map example_option (tl argv)))\<rparr>"

definition example_env :: Environment where
  "example_env =
     (init_environment Environment_new)
       \<lparr>modules := modules (init_environment Environment_new) @ [example_module],
        globals := [example_global]\<rparr>"

definition example_context :: Context where
  "example_context =
     (Context_new [])\<lparr>env := example_env, loc_filename := ''test.json'',
                       source_filename := ''test.wast'', command_line_number := 7\<rparr>"

section \<open>Bit-equal comparison, as the specification words it\<close>

text \<open>The 64-bit payload of a typed value: its bits, zero-extended for the 32-bit types.\<close>

definition payload_bits :: "TypedValue \<Rightarrow> 64 word" where
  "payload_bits tv =
     (case tv of
        TV_I32 v \<Rightarrow> ucast v
      | TV_I64 v \<Rightarrow> v
      | TV_F32 v \<Rightarrow> ucast v
      | TV_F64 v \<Rightarrow> v)"

text \<open>Two typed values are bit-equal when their type tags are equal and their payloads
  are the same bits.\<close>

definition bit_equal :: "TypedValue \<Rightarrow> TypedValue \<Rightarrow> bool" where
  "bit_equal tv1 tv2 = (tv_type tv1 = tv_type tv2 \<and> payload_bits tv1 = payload_bits tv2)"

section \<open>Append-only loading and the commands that count\<close>

text \<open>The Environment \<open>e'\<close> extends \<open>e\<close> by appending: every vector and both maps of \<open>e\<close>
  are an initial part of those of \<open>e'\<close>.\<close>

definition appends_only :: "Environment \<Rightarrow> Environment \<Rightarrow> bool" where
  "appends_only e e' =
     (prefix (modules e) (modules e') \<and> prefix (funcs e) (funcs e')
      \<and> prefix (tables e) (tables e') \<and> prefix (memories e) (memories e')
      \<and> prefix (globals e) (globals e')
      \<and> prefix (module_bindings e) (module_bindings e')
      \<and> prefix (registered_module_bindings e) (registered_module_bindings e'))"

text \<open>The Environment \<open>e'\<close> has lost nothing that a mark of \<open>e\<close> counts: no vector is
  shorter than in \<open>e\<close>, and the bindings of \<open>e\<close> are still the first ones of both maps.
  What the vectors hold may differ: a load may write into a memory, a table or a global that
  was there before.\<close>

definition grows_from :: "Environment \<Rightarrow> Environment \<Rightarrow> bool" where
  "grows_from e e' =
     (length (modules e) \<le> length (modules e') \<and> length (funcs e) \<le> length (funcs e')
      \<and> length (tables e) \<le> length (tables e') \<and> length (memories e) \<le> length (memories e')
      \<and> length (globals e) \<le> length (globals e')
      \<and> prefix (module_bindings e) (module_bindings e')
      \<and> prefix (registered_module_bindings e) (registered_module_bindings e'))"

text \<open>The commands whose handler increments \<^verbatim>\<open>total\<close>: all but \<^verbatim>\<open>module\<close> and
  \<^verbatim>\<open>register\<close>.\<close>

fun counts_as_test :: "Command \<Rightarrow> bool" where
  "counts_as_test (ModuleCommand filename nm) = False"
| "counts_as_test (RegisterCommand nm as) = False"
| "counts_as_test command = True"

section \<open>Framing\<close>

text \<open>A step of the driver that only appends to the standard output and leaves every
  field beyond the environment as it is.\<close>

definition frame :: "'a World_scheme \<Rightarrow> 'a World_scheme \<Rightarrow> bool" where
  "frame w w' = (prefix (stdout w) (stdout w') \<and> World.more w' = World.more w)"

text \<open>A step of the JSON reader: it does not add to the input left to read, and leaves
  the input, the environment, the standard output and the counters as they are.\<close>

definition lex_step :: "Context \<Rightarrow> Context \<Rightarrow> bool" where
  "lex_step c c' =
     (remaining c' \<le> remaining c \<and> json_data c' = json_data c \<and> env c' = env c
      \<and> stdout c' = stdout c \<and> passed c' = passed c \<and> total c' = total c)"

definition lexes :: "'a reader \<Rightarrow> bool" where
  "lexes p = (\<forall>c r c'. p c = Inr (r, c') \<longrightarrow> lex_step c c')"

text \<open>A step of the reader with the handlers: the input left to read does not grow beyond
  one byte, the output is appended to, and \<^verbatim>\<open>passed\<close> grows by no more than \<^verbatim>\<open>total\<close>.\<close>

definition run_step :: "Context \<Rightarrow> Context \<Rightarrow> bool" where
  "run_step c c' =
     (remaining c' \<le> max (remaining c) 1 \<and> json_data c' = json_data c
      \<and> prefix (stdout c) (stdout c') \<and> passed c \<le> passed c'
      \<and> passed c' - passed c \<le> total c' - total c)"


text \<open>A step of the reader outside the handlers: the input left to read does not grow
  beyond one byte, the output is appended to, and the input, the environment and the
  counters are left as they are.\<close>

definition read_step :: "Context \<Rightarrow> Context \<Rightarrow> bool" where
  "read_step c c' =
     (remaining c' \<le> max (remaining c) 1 \<and> json_data c' = json_data c \<and> env c' = env c
      \<and> prefix (stdout c) (stdout c') \<and> passed c' = passed c \<and> total c' = total c)"

definition reads :: "'a reader \<Rightarrow> bool" where
  "reads p = (\<forall>c r c'. p c = Inr (r, c') \<longrightarrow> read_step c c')"

text \<open>The faults of the reader itself: the string that is read for ever, and the assertion
  of \<^verbatim>\<open>putback_char\<close>.\<close>

definition reader_fault :: "fault \<Rightarrow> bool" where
  "reader_fault e = (e = OutOfMemory \<or> e = AssertionFailure ''ctx->has_prev_loc'')"

definition fails_in_reader :: "'a reader \<Rightarrow> bool" where
  "fails_in_reader p = (\<forall>c e. p c = Inl e \<longrightarrow> reader_fault e)"

section \<open>The commands that a script runs\<close>

text \<open>The context that \<^verbatim>\<open>read_and_run_spec_json\<close> gives to \<^verbatim>\<open>parse_commands\<close>.\<close>

definition script_context :: "string \<Rightarrow> 8 word list \<Rightarrow> string \<Rightarrow> Context" where
  "script_context spec_json_filename file_data out =
     (let ctx = (Context_new out)\<lparr>loc_filename := spec_json_filename\<rparr>
      in ctx\<lparr>env := init_environment (env ctx), json_data := file_data\<rparr>)"

text \<open>What \<^verbatim>\<open>parse_commands\<close> reads before its loop.\<close>

definition script_header :: "Collab \<Rightarrow> unit reader" where
  "script_header x =
     then_read (expect x ''{'') (\<lambda>u.
     then_read (parse_key_string_value x ''source_filename'') (\<lambda>s.
     then_read (\<lambda>ctx. Inr (Some (), ctx\<lparr>source_filename := s\<rparr>)) (\<lambda>u.
     then_read (expect x '','') (\<lambda>u.
     then_read (expect_key x ''commands'') (\<lambda>u. expect x ''['')))))"

text \<open>The command that \<^verbatim>\<open>parse_command\<close> reads from \<open>ctx\<close> on and hands to its handler,
  with the context that the handler is called with; none when the reader stops before.\<close>

definition dispatched :: "Collab \<Rightarrow> Context \<Rightarrow> (Command \<times> Context) option" where
  "dispatched x ctx =
     (case then_read (expect x ''{'') (\<lambda>u.
           then_read (expect_key x ''type'') (\<lambda>u. parse_command_fields x)) ctx of
        Inl f \<Rightarrow> None
      | Inr (None, k) \<Rightarrow> None
      | Inr (Some command, k) \<Rightarrow> Some (command, k))"

text \<open>The commands that the loop of \<^verbatim>\<open>parse_commands\<close> hands to a handler from \<open>ctx\<close> on,
  in order, each with the context its handler is called with. The loop is followed as it
  runs: the next command is looked for where \<^verbatim>\<open>parse_command\<close> has left the input.\<close>

function commands_log :: "Collab \<Rightarrow> Globals \<Rightarrow> bool \<Rightarrow> Context \<Rightarrow> (Command \<times> Context) list"
where
  "commands_log x g first ctx =
     (case match x '']'' ctx of
        Inl f \<Rightarrow> []
      | Inr (True, ctx1) \<Rightarrow> []
      | Inr (False, ctx1) \<Rightarrow>
          (case (if \<not> first then expect x '','' else ok ()) ctx1 of
             Inl f \<Rightarrow> []
           | Inr (None, ctx2) \<Rightarrow> []
           | Inr (Some u, ctx2) \<Rightarrow>
               (case dispatched x ctx2 of
                  None \<Rightarrow> []
                | Some d \<Rightarrow>
                    d # (case parse_command x g ctx2 of
                           Inl f \<Rightarrow> []
                         | Inr (None, ctx3) \<Rightarrow> []
                         | Inr (Some v, ctx3) \<Rightarrow> commands_log x g False ctx3))))"
  by pat_completeness auto

definition script_log :: "Collab \<Rightarrow> Globals \<Rightarrow> Context \<Rightarrow> (Command \<times> Context) list" where
  "script_log x g ctx =
     (case script_header x ctx of
        Inl f \<Rightarrow> []
      | Inr (None, c) \<Rightarrow> []
      | Inr (Some u, c) \<Rightarrow> commands_log x g True c)"

text \<open>The handler of the command counts it as passed: it returns with \<^verbatim>\<open>passed\<close> one
  higher.\<close>

definition counted_as_passed :: "Collab \<Rightarrow> Globals \<Rightarrow> Command \<times> Context \<Rightarrow> bool" where
  "counted_as_passed x g d =
     (case run_command x g (fst d) (snd d) of
        Inl f \<Rightarrow> False
      | Inr (r, k) \<Rightarrow> passed k = passed (snd d) + 1)"



section \<open>Properties\<close>

lemma length_resize: "length (resize n xs) = n"
  by (simp add: resize_def)

text \<open>
  Claim C1. Importing the field \<^verbatim>\<open>memory\<close> from the spectest host module succeeds, sets the
  memory's limits to initial = 1 page with a maximum of 2 pages, and sizes the byte
  buffer to initial pages times 65,536 bytes, that is to exactly 65,536 bytes.
\<close>

theorem ImportMemory_spectest_memory:
  assumes "field_name import = ''memory''"
  shows "\<exists>memory'. ImportMemory import memory = (Ok, memory', [])
           \<and> initial (page_limits memory') = 1
           \<and> has_max (page_limits memory')
           \<and> limit_max (page_limits memory') = 2
           \<and> length (data memory') = initial (page_limits memory') * 65536
           \<and> length (data memory') = 65536"
  using assms by (simp add: ImportMemory_def Let_def length_resize WABT_MAX_PAGES_def)

theorem ImportMemory_spectest_memory_witness:
  "\<exists>memory'.
     ImportMemory \<lparr>module_name = ''spectest'', field_name = ''memory''\<rparr>
       \<lparr>page_limits = \<lparr>initial = 0, limit_max = 0, has_max = False\<rparr>, data = []\<rparr>
       = (Ok, memory', [])
     \<and> initial (page_limits memory') = 1
     \<and> has_max (page_limits memory')
     \<and> limit_max (page_limits memory') = 2
     \<and> length (data memory') = initial (page_limits memory') * 65536
     \<and> length (data memory') = 65536"
  using ImportMemory_spectest_memory
    [of "\<lparr>module_name = ''spectest'', field_name = ''memory''\<rparr>"
        "\<lparr>page_limits = \<lparr>initial = 0, limit_max = 0, has_max = False\<rparr>, data = []\<rparr>"]
  by simp

subsection \<open>Steps that only print\<close>

lemma frame_refl [simp]: "frame w w"
  by (simp add: frame_def)

lemma frame_trans: "frame a b \<Longrightarrow> frame b c \<Longrightarrow> frame a c"
  by (auto simp: frame_def)

lemma frame_printf [simp]: "frame w (printf t w)"
  by (simp add: frame_def printf_def)

lemma frame_update [simp]: "frame w (w\<lparr>env := e, stdout := stdout w @ t\<rparr>)"
  by (simp add: frame_def)

lemma frame_env [simp]: "frame w (w'\<lparr>env := e\<rparr>) = frame w w'"
  by (simp add: frame_def)

lemma frame_env2 [simp]: "frame (w\<lparr>env := e\<rparr>) w' = frame w w'"
  by (simp add: frame_def)

lemma frame_fields:
  "frame (c::Context) c' \<Longrightarrow> passed c' = passed c \<and> total c' = total c \<and> last_module c' = last_module c
     \<and> source_filename c' = source_filename c \<and> command_line_number c' = command_line_number c
     \<and> loc_filename c' = loc_filename c \<and> prefix (stdout c) (stdout c')
     \<and> json_data c' = json_data c \<and> json_offset c' = json_offset c
     \<and> has_prev_loc c' = has_prev_loc c"
  unfolding frame_def by (cases c, cases c') simp

lemma run_function_frame: "run_function x g i a out w = (r, w') \<Longrightarrow> frame w w'"
  by (auto simp: run_function_def split: prod.splits)

lemma run_start_function_frame: "run_start_function x g m w = Inr (r, w') \<Longrightarrow> frame w w'"
  by (auto simp: run_start_function_def Let_def split: prod.splits if_splits
        dest!: run_function_frame intro: frame_trans[OF frame_printf])

lemma run_export_frame: "run_export x g ex a out w = Inr (r, w') \<Longrightarrow> frame w w'"
  by (auto simp: run_export_def Let_def split: if_splits
        dest!: run_function_frame intro: frame_trans[OF frame_printf])

lemma run_export_by_name_frame: "run_export_by_name x g m n a out w = Inr (r, w') \<Longrightarrow> frame w w'"
  by (auto simp: run_export_by_name_def split: option.splits if_splits dest!: run_export_frame)

lemma get_global_export_by_name_same:
  "get_global_export_by_name m n out w = Inr (r, w') \<Longrightarrow> w' = w"
  by (auto simp: get_global_export_by_name_def split: option.splits if_splits sum.splits)

lemma run_action_frame:
  "run_action x g action v ctx = Inr ((result, ir, rs), ctx') \<Longrightarrow> result = Ok \<and> frame ctx ctx'"
  unfolding run_action_def
  by (auto split: option.splits if_splits sum.splits ActionType.splits prod.splits
        dest!: run_export_by_name_frame get_global_export_by_name_same
        intro: frame_trans[OF _ frame_printf])


subsection \<open>Unfolding sets\<close>

lemmas example_defs =
  example_collab_def example_RunFunction_def example_read_binary_interpreter_def
  example_ReadFile_def example_invoke_def example_option_def
  example_env_def example_context_def example_module_def example_global_def
  Context_new_def Environment_new_def init_environment_def AppendHostModule_def
  Globals_initial_def kInvalidIndex_def

lemmas driver_defs =
  run_action_def run_export_by_name_def get_global_export_by_name_def run_export_def
  run_function_def GetExport_def GetGlobal_def at_index_def FindModule_def GetLastModule_def
  FindModuleIndex_def FindIndex_def printf_def print_command_error_def Succeeded_def Failed_def

subsection \<open>Actions\<close>

text \<open>
  Claim C7. An invoke action whose field names no export of the target module returns
  \<^verbatim>\<open>UnknownExport\<close> and runs nothing: the context is returned as it was (in verbose
  mode the call is printed). If the export is not a function the result is
  \<^verbatim>\<open>ExportKindMismatch\<close>. A get action returns \<^verbatim>\<open>UnknownExport\<close> for a missing export,
  \<^verbatim>\<open>ExportKindMismatch\<close> for an export that is not a global, and otherwise \<^verbatim>\<open>Ok\<close> with
  exactly one result, the current typed value of the global (its index being one of the
  Environment's globals).
\<close>

theorem run_action_export_lookup:
  assumes "(if action_module_name action \<noteq> []
            then FindModule (env ctx) (action_module_name action)
            else GetLastModule (env ctx)) = Some module"
  shows "(action_type action = Invoke \<longrightarrow>
            (GetExport module (action_field_name action) = None \<longrightarrow>
               run_action x g action verbose ctx =
                 Inr ((Ok, UnknownExport, []),
                      if verbose = Verbose
                      then printf (print_call x [] (action_field_name action) (action_args action)
                                     [] UnknownExport) ctx
                      else ctx))
          \<and> (\<forall>export. GetExport module (action_field_name action) = Some export
                 \<and> kind export \<noteq> Kind_Func \<longrightarrow>
               run_action x g action verbose ctx =
                 Inr ((Ok, ExportKindMismatch, []),
                      if verbose = Verbose
                      then printf (print_call x [] (action_field_name action) (action_args action)
                                     [] ExportKindMismatch) ctx
                      else ctx)))
       \<and> (action_type action = Get \<longrightarrow>
            (GetExport module (action_field_name action) = None \<longrightarrow>
               run_action x g action verbose ctx = Inr ((Ok, UnknownExport, []), ctx))
          \<and> (\<forall>export. GetExport module (action_field_name action) = Some export \<longrightarrow>
                (kind export \<noteq> Kind_Global \<longrightarrow>
                   run_action x g action verbose ctx = Inr ((Ok, ExportKindMismatch, []), ctx))
              \<and> (kind export = Kind_Global \<and> index export < length (globals (env ctx)) \<longrightarrow>
                   run_action x g action verbose ctx =
                     Inr ((Ok, Result_Ok, [typed_value (globals (env ctx) ! index export)]), ctx))))"
  using assms
  by (auto simp: run_action_def run_export_by_name_def get_global_export_by_name_def
        GetGlobal_def at_index_def)

theorem run_action_export_lookup_witness:
  "run_action example_collab Globals_initial (example_invoke ''missing'') Quiet example_context
     = Inr ((Ok, UnknownExport, []), example_context)
   \<and> run_action example_collab Globals_initial (example_invoke ''g'') Quiet example_context
     = Inr ((Ok, ExportKindMismatch, []), example_context)
   \<and> run_action example_collab Globals_initial
       ((example_invoke ''missing'')\<lparr>action_type := Get\<rparr>) Quiet example_context
     = Inr ((Ok, UnknownExport, []), example_context)
   \<and> run_action example_collab Globals_initial
       ((example_invoke ''seven'')\<lparr>action_type := Get\<rparr>) Quiet example_context
     = Inr ((Ok, ExportKindMismatch, []), example_context)
   \<and> run_action example_collab Globals_initial
       ((example_invoke ''g'')\<lparr>action_type := Get\<rparr>) Quiet example_context
     = Inr ((Ok, Result_Ok, [TV_I32 666]), example_context)"
proof -
  have m: "\<And>a. action_module_name a = [] \<Longrightarrow>
             (if action_module_name a \<noteq> []
              then FindModule (env example_context) (action_module_name a)
              else GetLastModule (env example_context)) = Some example_module"
    by (simp add: example_defs GetLastModule_def)
  have e1: "GetExport example_module ''missing'' = None"
    and e2: "GetExport example_module ''g'' = Some \<lparr>name = ''g'', kind = Kind_Global, index = 0\<rparr>"
    and e3: "GetExport example_module ''seven'' = Some \<lparr>name = ''seven'', kind = Kind_Func, index = 3\<rparr>"
    by (simp_all add: GetExport_def example_module_def)
  have g: "globals (env example_context) = [example_global]"
    by (simp add: example_defs)
  note t = run_action_export_lookup [OF m, of _ example_collab Globals_initial Quiet]
  show ?thesis
    using t [of "example_invoke ''missing''"] t [of "example_invoke ''g''"]
      t [of "(example_invoke ''missing'')\<lparr>action_type := Get\<rparr>"]
      t [of "(example_invoke ''seven'')\<lparr>action_type := Get\<rparr>"]
      t [of "(example_invoke ''g'')\<lparr>action_type := Get\<rparr>"]
    by (simp add: e1 e2 e3 g example_invoke_def example_global_def)
qed

subsection \<open>Assertions on the result of an action\<close>

lemma run_action_counts:
  assumes "run_action x g action v (ctx\<lparr>total := total ctx + 1\<rparr>) = Inr ((result, ir, rs), ctx1)"
  shows "result = Ok \<and> passed ctx1 = passed ctx \<and> total ctx1 = total ctx + 1
         \<and> source_filename ctx1 = source_filename ctx
         \<and> command_line_number ctx1 = command_line_number ctx
         \<and> last_module ctx1 = last_module ctx \<and> loc_filename ctx1 = loc_filename ctx
         \<and> prefix (stdout ctx) (stdout ctx1)
         \<and> json_data ctx1 = json_data ctx \<and> json_offset ctx1 = json_offset ctx"
  using run_action_frame [OF assms] frame_fields [of "ctx\<lparr>total := total ctx + 1\<rparr>" ctx1]
  by simp

text \<open>
  Claim C6. An assert_exhaustion command passes exactly when the result of its action is
  the call-stack or the value-stack exhaustion trap; on \<^verbatim>\<open>Ok\<close> and on any other trap it
  fails and prints the message \<^verbatim>\<open>expected call stack exhaustion\<close>.
\<close>

theorem assert_exhaustion_passes_iff:
  assumes "run_action x g action Quiet (ctx\<lparr>total := total ctx + 1\<rparr>)
             = Inr ((result, iresult, results), ctx1)"
  shows "on_assert_exhaustion_command x g action ctx =
           (if iresult = TrapCallStackExhausted \<or> iresult = TrapValueStackExhausted
            then Inr (Ok, ctx1\<lparr>passed := passed ctx + 1\<rparr>)
            else Inr (Error,
                      ctx1\<lparr>stdout := stdout ctx1 @ source_filename ctx @ '':''
                             @ format_u (command_line_number ctx)
                             @ '': expected call stack exhaustion'' @ newline\<rparr>))
         \<and> passed ctx1 = passed ctx \<and> total ctx1 = total ctx + 1"
  using run_action_counts [OF assms] assms
  by (simp add: on_assert_exhaustion_command_def Succeeded_def print_command_error_def printf_def)

theorem assert_exhaustion_passes_iff_witness:
  "on_assert_exhaustion_command example_collab Globals_initial (example_invoke ''rec'')
     example_context
     = Inr (Ok, example_context\<lparr>total := 1, passed := 1\<rparr>)
   \<and> on_assert_exhaustion_command example_collab Globals_initial (example_invoke ''seven'')
       example_context
     = Inr (Error,
            example_context\<lparr>total := 1,
              stdout := ''test.wast:7: expected call stack exhaustion'' @ newline\<rparr>)
   \<and> on_assert_exhaustion_command example_collab Globals_initial (example_invoke ''missing'')
       example_context
     = Inr (Error,
            example_context\<lparr>total := 1,
              stdout := ''test.wast:7: expected call stack exhaustion'' @ newline\<rparr>)"
proof -
  have r1: "run_action example_collab Globals_initial (example_invoke ''rec'') Quiet
              (example_context\<lparr>total := total example_context + 1\<rparr>)
            = Inr ((Ok, TrapCallStackExhausted, []), example_context\<lparr>total := 1\<rparr>)"
    by (simp add: driver_defs example_defs)
  have r2: "run_action example_collab Globals_initial (example_invoke ''seven'') Quiet
              (example_context\<lparr>total := total example_context + 1\<rparr>)
            = Inr ((Ok, Result_Ok, [TV_I32 7]), example_context\<lparr>total := 1\<rparr>)"
    by (simp add: driver_defs example_defs)
  have r3: "run_action example_collab Globals_initial (example_invoke ''missing'') Quiet
              (example_context\<lparr>total := total example_context + 1\<rparr>)
            = Inr ((Ok, UnknownExport, []), example_context\<lparr>total := 1\<rparr>)"
    by (simp add: driver_defs example_defs)
  have s: "format_u 7 = ''7''"
    by code_simp
  show ?thesis
    using assert_exhaustion_passes_iff [OF r1] assert_exhaustion_passes_iff [OF r2]
      assert_exhaustion_passes_iff [OF r3]
    by (simp add: example_context_def Context_new_def s)
qed

lemma ucast_32_64_inj: "(ucast (a :: 32 word) :: 64 word) = ucast b \<longleftrightarrow> a = b"
proof
  assume "(ucast a :: 64 word) = ucast b"
  then have "(ucast (ucast a :: 64 word) :: 32 word) = ucast (ucast b :: 64 word)"
    by simp
  then show "a = b"
    by (simp add: ucast_up_ucast_id is_up)
qed simp

lemma typed_values_are_equal_bit_equal: "typed_values_are_equal tv1 tv2 = bit_equal tv1 tv2"
  by (cases tv1; cases tv2)
     (simp_all add: typed_values_are_equal_def bit_equal_def payload_bits_def ucast_32_64_inj)

lemma typed_values_are_equal_eq: "typed_values_are_equal tv1 tv2 \<longleftrightarrow> tv1 = tv2"
  by (cases tv1; cases tv2) (simp_all add: typed_values_are_equal_def)

lemma assert_return_loop_result:
  "length expected = length results \<Longrightarrow>
   \<exists>ctx'. assert_return_loop x i expected results result ctx
            = (if list_all2 typed_values_are_equal expected results then result else Error, ctx')
          \<and> frame ctx ctx'
          \<and> (list_all2 typed_values_are_equal expected results \<longrightarrow> ctx' = ctx)"
proof (induction x i expected results result ctx rule: assert_return_loop.induct)
  case (1 x i expected_tv expected actual_tv results result ctx)
  show ?case
  proof (cases "typed_values_are_equal expected_tv actual_tv")
    case True
    with 1 show ?thesis by simp
  next
    case False
    with 1 obtain ctx' where
      "assert_return_loop x (Suc i) expected results Error
         (print_command_error
            (''mismatch in result '' @ format_u i @ '' of assert_return: expected ''
             @ sprint_typed_value x expected_tv @ '', got '' @ sprint_typed_value x actual_tv)
            ctx)
       = (Error, ctx')" and
      "frame (print_command_error
            (''mismatch in result '' @ format_u i @ '' of assert_return: expected ''
             @ sprint_typed_value x expected_tv @ '', got '' @ sprint_typed_value x actual_tv)
            ctx) ctx'"
      by (fastforce split: if_splits)
    with False show ?thesis
      by (auto simp: print_command_error_def intro: frame_trans [OF frame_printf])
  qed
qed simp_all

text \<open>
  Claim C2. An assert_return command passes if and only if its action returns \<^verbatim>\<open>Ok\<close>, with as
  many results as expected, each equal to the expected value under the bit-equal
  comparison: equal type tags and identical payload bits, so that NaNs of different
  payloads and zeros of different signs are unequal.
\<close>

theorem assert_return_passes_iff:
  assumes "run_action x g action Quiet (ctx\<lparr>total := total ctx + 1\<rparr>)
             = Inr ((result, iresult, results), ctx1)"
  shows "(\<exists>ctx'. on_assert_return_command x g action expected ctx
                  = Inr (if iresult = Result_Ok \<and> length results = length expected
                            \<and> list_all2 bit_equal expected results
                         then Ok else Error, ctx')
              \<and> passed ctx' = passed ctx
                    + (if iresult = Result_Ok \<and> length results = length expected
                          \<and> list_all2 bit_equal expected results
                       then 1 else 0)
              \<and> total ctx' = total ctx + 1)
         \<and> (\<forall>tv1 tv2. typed_values_are_equal tv1 tv2 = bit_equal tv1 tv2)
         \<and> \<not> typed_values_are_equal (TV_F32 0x7FC00000) (TV_F32 0x7FC00001)
         \<and> \<not> typed_values_are_equal (TV_F64 0x7FF8000000000000) (TV_F64 0xFFF8000000000000)
         \<and> \<not> typed_values_are_equal (TV_F32 0) (TV_F32 0x80000000)
         \<and> \<not> typed_values_are_equal (TV_F64 0) (TV_F64 0x8000000000000000)
         \<and> \<not> typed_values_are_equal (TV_I32 0) (TV_F32 0)"
proof -
  note c = run_action_counts [OF assms]
  have eq: "typed_values_are_equal = bit_equal"
    by (intro ext) (rule typed_values_are_equal_bit_equal)
  have passes: "\<exists>ctx'. on_assert_return_command x g action expected ctx
                  = Inr (if iresult = Result_Ok \<and> length results = length expected
                            \<and> list_all2 bit_equal expected results
                         then Ok else Error, ctx')
              \<and> passed ctx' = passed ctx
                    + (if iresult = Result_Ok \<and> length results = length expected
                          \<and> list_all2 bit_equal expected results
                       then 1 else 0)
              \<and> total ctx' = total ctx + 1"
  proof (cases "iresult = Result_Ok \<and> length results = length expected")
    case True
    then have len: "length expected = length results" by simp
    from assert_return_loop_result [OF len, of x 0 Ok ctx1] obtain ctx' where
      l: "assert_return_loop x 0 expected results Ok ctx1
            = (if list_all2 typed_values_are_equal expected results then Ok else Error, ctx')"
      and f: "frame ctx1 ctx'"
      by blast
    from frame_fields [OF f] c True l show ?thesis
      by (simp add: on_assert_return_command_def assms Succeeded_def eq)
  next
    case False
    with c show ?thesis
      by (auto simp: on_assert_return_command_def assms Succeeded_def print_command_error_def
            printf_def)
  qed
  have unequal: "\<not> typed_values_are_equal (TV_F32 0x7FC00000) (TV_F32 0x7FC00001)
         \<and> \<not> typed_values_are_equal (TV_F64 0x7FF8000000000000) (TV_F64 0xFFF8000000000000)
         \<and> \<not> typed_values_are_equal (TV_F32 0) (TV_F32 0x80000000)
         \<and> \<not> typed_values_are_equal (TV_F64 0) (TV_F64 0x8000000000000000)
         \<and> \<not> typed_values_are_equal (TV_I32 0) (TV_F32 0)"
    by (simp add: typed_values_are_equal_eq)
  from passes unequal show ?thesis
    by (simp only: eq simp_thms) 
qed

theorem assert_return_passes_iff_witness:
  "(\<exists>ctx'. on_assert_return_command example_collab Globals_initial (example_invoke ''seven'')
             [TV_I32 7] example_context = Inr (Ok, ctx')
           \<and> passed ctx' = 1 \<and> total ctx' = 1)
   \<and> (\<exists>ctx'. on_assert_return_command example_collab Globals_initial (example_invoke ''seven'')
             [TV_I32 8] example_context = Inr (Error, ctx')
           \<and> passed ctx' = 0 \<and> total ctx' = 1)
   \<and> (\<exists>ctx'. on_assert_return_command example_collab Globals_initial (example_invoke ''seven'')
             [] example_context = Inr (Error, ctx')
           \<and> passed ctx' = 0 \<and> total ctx' = 1)
   \<and> (\<exists>ctx'. on_assert_return_command example_collab Globals_initial (example_invoke ''rec'')
             [] example_context = Inr (Error, ctx')
           \<and> passed ctx' = 0 \<and> total ctx' = 1)"
proof -
  have r1: "run_action example_collab Globals_initial (example_invoke ''seven'') Quiet
              (example_context\<lparr>total := total example_context + 1\<rparr>)
            = Inr ((Ok, Result_Ok, [TV_I32 7]), example_context\<lparr>total := 1\<rparr>)"
    by (simp add: driver_defs example_defs)
  have r2: "run_action example_collab Globals_initial (example_invoke ''rec'') Quiet
              (example_context\<lparr>total := total example_context + 1\<rparr>)
            = Inr ((Ok, TrapCallStackExhausted, []), example_context\<lparr>total := 1\<rparr>)"
    by (simp add: driver_defs example_defs)
  have p: "passed example_context = 0" "total example_context = 0"
    by (simp_all add: example_context_def Context_new_def)
  have b: "bit_equal (TV_I32 7) (TV_I32 7)" "\<not> bit_equal (TV_I32 8) (TV_I32 7)"
    by (simp_all add: bit_equal_def payload_bits_def)
  show ?thesis
    using assert_return_passes_iff [OF r1, of "[TV_I32 7]"]
      assert_return_passes_iff [OF r1, of "[TV_I32 8]"]
      assert_return_passes_iff [OF r1, of "[]"]
      assert_return_passes_iff [OF r2, of "[]"]
    by (simp add: p b)
qed

subsection \<open>The NaN assertions\<close>

text \<open>The predicate that \<^verbatim>\<open>on_assert_return_nan_command\<close> applies to its first result.\<close>

lemma assert_return_nan_with_results:
  assumes "run_action x g action Quiet (ctx\<lparr>total := total ctx + 1\<rparr>)
             = Inr ((result, iresult, results), ctx1)"
    and "iresult = Result_Ok \<longrightarrow> results \<noteq> []"
  shows "\<exists>ctx'. on_assert_return_nan_command x g action canonical ctx = Inr (Ok, ctx')
           \<and> total ctx' = total ctx + 1
           \<and> passed ctx' = passed ctx +
               (if iresult = Result_Ok \<and> length results = 1
                   \<and> (case hd results of
                         TV_F32 bits \<Rightarrow> if canonical then IsCanonicalNan_f32 bits
                                         else IsArithmeticNan_f32 bits
                       | TV_F64 bits \<Rightarrow> if canonical then IsCanonicalNan_f64 bits
                                         else IsArithmeticNan_f64 bits
                       | _ \<Rightarrow> False)
                then 1 else 0)"
proof (cases "iresult = Result_Ok")
  case False
  with run_action_counts [OF assms(1)] show ?thesis
    by (simp add: on_assert_return_nan_command_def assms(1) Succeeded_def
          print_command_error_def printf_def)
next
  case True
  with assms(2) obtain actual rest where r: "results = actual # rest"
    by (cases results) auto
  with True run_action_counts [OF assms(1)] show ?thesis
    by (cases actual)
       (simp_all add: on_assert_return_nan_command_def assms(1) Succeeded_def at_index_def
          print_command_error_def printf_def Let_def)
qed

text \<open>
  Claim C9. When the action of a NaN assertion returns \<^verbatim>\<open>Ok\<close>, the first result is read
  whatever the number of results: a count other than one is reported and the function
  goes on to the read, so with no result at all the read is past the end of the vector.
\<close>

theorem assert_return_nan_reads_first_result:
  assumes "run_action x g action Quiet (ctx\<lparr>total := total ctx + 1\<rparr>)
             = Inr ((result, Result_Ok, results), ctx1)"
  shows "(results = [] \<longrightarrow>
            on_assert_return_nan_command x g action canonical ctx = Inl (OutOfBounds 0 0))
       \<and> (\<forall>bits rest. results = TV_I32 bits # rest \<and> rest \<noteq> [] \<longrightarrow>
            on_assert_return_nan_command x g action canonical ctx =
              Inr (Ok,
                   print_command_error ''expected result type to be f32 or f64, got i32''
                     (print_command_error
                        (''expected one result, got '' @ format_u (length results)) ctx1)))"
  using run_action_counts [OF assms]
  by (auto simp: on_assert_return_nan_command_def assms Succeeded_def at_index_def
        get_type_name_def print_command_error_def printf_def)

theorem assert_return_nan_reads_first_result_witness:
  "on_assert_return_nan_command example_collab Globals_initial (example_invoke ''none'') False
     example_context = Inl (OutOfBounds 0 0)"
proof -
  have r: "run_action example_collab Globals_initial (example_invoke ''none'') Quiet
              (example_context\<lparr>total := total example_context + 1\<rparr>)
            = Inr ((Ok, Result_Ok, []), example_context\<lparr>total := 1\<rparr>)"
    by (simp add: driver_defs example_defs)
  show ?thesis
    using assert_return_nan_reads_first_result [OF r, of False] by simp
qed

text \<open>
  Claim C5. A NaN assertion passes exactly when its action returns \<^verbatim>\<open>Ok\<close> with one result
  of type f32 or f64 whose bits satisfy the predicate; an integer result, another
  result count and a trap make it fail. The driver does so whenever the action returns
  a result (\<open>assert_return_nan_with_results\<close>). With an action that returns \<^verbatim>\<open>Ok\<close> and
  no result, such as the invocation of a function without results, the command does not
  fail: the driver reads the first element of the empty result vector.
\<close>

theorem assert_return_canonical_nan_no_result:
  "run_action example_collab Globals_initial (example_invoke ''none'') Quiet
     (example_context\<lparr>total := total example_context + 1\<rparr>)
     = Inr ((Ok, Result_Ok, []), example_context\<lparr>total := 1\<rparr>)
   \<and> on_assert_return_nan_command example_collab Globals_initial (example_invoke ''none'') True
       example_context = Inl (OutOfBounds 0 0)"
  by (simp add: on_assert_return_nan_command_def driver_defs example_defs)

subsection \<open>Loading modules\<close>

lemma take_prefix: "prefix xs ys \<Longrightarrow> take (length xs) ys = xs"
  by (auto simp: prefix_def)

lemma ResetToMarkPoint_appends_only:
  "appends_only e e' \<Longrightarrow> ResetToMarkPoint (Mark e) e' = e"
  by (cases e) (simp add: appends_only_def ResetToMarkPoint_def Mark_def take_prefix)

lemma appends_only_refl [simp]: "appends_only e e"
  by (simp add: appends_only_def)

lemma read_module_frame: "read_module x g path h w = (r, w') \<Longrightarrow> frame w w'"
  by (auto simp: read_module_def Let_def frame_def printf_def
        split: option.splits prod.splits if_splits)

lemma read_module_env:
  "read_module x g path h w = (r, w') \<Longrightarrow>
     env w' = (case ReadFile x path of None \<Rightarrow> env w
               | Some file_data \<Rightarrow> fst (snd (read_binary_interpreter x (env w) file_data)))"
  by (auto simp: read_module_def Let_def printf_def split: option.splits prod.splits if_splits)

lemma read_invalid_module_frame:
  "read_invalid_module x g ctx path module_type desc w = (r, w') \<Longrightarrow> frame w w'"
  by (auto simp: read_invalid_module_def read_invalid_text_module_def Let_def
        split: ModuleType.splits prod.splits dest!: read_module_frame
        intro: frame_printf)

lemma CreateModulePath_total [simp]:
  "CreateModulePath (ctx\<lparr>total := t\<rparr>) filename = CreateModulePath ctx filename"
  by (simp add: CreateModulePath_def)

lemma take_length_prefix: "(take (length xs) ys = xs) = prefix xs ys"
proof
  assume "take (length xs) ys = xs"
  then have "xs = take (length xs) ys"
    by simp
  then show "prefix xs ys"
    by (metis take_is_prefix)
next
  assume "prefix xs ys"
  then show "take (length xs) ys = xs"
    by (auto simp: prefix_def)
qed

lemma ResetToMarkPoint_restores:
  "(Mark (ResetToMarkPoint (Mark e) e') = Mark e
    \<and> module_bindings (ResetToMarkPoint (Mark e) e') = module_bindings e
    \<and> registered_module_bindings (ResetToMarkPoint (Mark e) e') = registered_module_bindings e)
   = grows_from e e'"
  by (auto simp: ResetToMarkPoint_def Mark_def grows_from_def take_length_prefix
        dest: prefix_length_le)

text \<open>
  Claim C3. An assert_unlinkable command takes a mark of the Environment before the load
  and resets the Environment to that mark afterwards, whatever the load returned. After the
  reset the counts of modules, functions, tables, memories and globals and the two binding
  maps are those at the mark exactly when the load has lost nothing that the mark counts:
  no vector is shorter than at the mark and the bindings present at the mark are still in
  place. What the load has appended is gone. A load that has written into a memory, a table
  or a global that was there before is within this: such a write is no part of the counts and
  the maps, and the reset does not undo it.
\<close>

theorem assert_unlinkable_leaves_no_trace:
  assumes "read_invalid_module x g (ctx\<lparr>total := total ctx + 1\<rparr>)
               (CreateModulePath ctx filename) module_type ''assert_unlinkable''
               (ctx\<lparr>total := total ctx + 1\<rparr>) = (result, loaded)"
  shows "\<exists>ctx'.
           on_assert_unlinkable_command x g filename text module_type ctx
             = (if Failed result then Ok else Error, ctx')
         \<and> env ctx' = ResetToMarkPoint (Mark (env ctx)) (env loaded)
         \<and> ((Mark (env ctx') = Mark (env ctx)
              \<and> module_bindings (env ctx') = module_bindings (env ctx)
              \<and> registered_module_bindings (env ctx') = registered_module_bindings (env ctx))
             = grows_from (env ctx) (env loaded))
         \<and> total ctx' = total ctx + 1
         \<and> passed ctx' = passed ctx + (if Failed result then 1 else 0)"
  using frame_fields [OF read_invalid_module_frame [OF assms]] assms
    ResetToMarkPoint_restores [of "env ctx" "env loaded"]
  by (simp add: on_assert_unlinkable_command_def Let_def print_command_error_def printf_def)

lemma example_path [simp]:
  "CreateModulePath example_context ''unlinkable.wasm'' = ''unlinkable.wasm''"
  "CreateModulePath example_context ''ok.wasm'' = ''ok.wasm''"
  "CreateModulePath example_context ''trap.wasm'' = ''trap.wasm''"
  by (simp_all add: CreateModulePath_def get_dirname_def ConvertBackslashToSlash_def
        example_context_def)

theorem assert_unlinkable_leaves_no_trace_witness:
  "read_invalid_module example_collab Globals_initial
       (example_context\<lparr>total := total example_context + 1\<rparr>)
       ''unlinkable.wasm'' Binary ''assert_unlinkable''
       (example_context\<lparr>total := total example_context + 1\<rparr>)
     = (Error,
        example_context\<lparr>total := 1,
          env := (env example_context)
            \<lparr>modules := modules (env example_context) @ [example_module],
             funcs := [HostFunc \<lparr>param_types = [], result_types = [I32]\<rparr> ''Mf'' ''call'']\<rparr>,
          stdout := ''test.wast:7: assert_unlinkable passed:'' @ newline
                     @ ''  error: import signature mismatch'' @ newline\<rparr>)
   \<and> on_assert_unlinkable_command example_collab Globals_initial ''unlinkable.wasm'' [] Binary
       example_context
     = (Ok, example_context\<lparr>total := 1, passed := 1,
              stdout := ''test.wast:7: assert_unlinkable passed:'' @ newline
                        @ ''  error: import signature mismatch'' @ newline\<rparr>)
   \<and> (\<exists>ctx'.
         on_assert_unlinkable_command example_collab Globals_initial ''unlinkable.wasm'' []
             Binary example_context
           = (Ok, ctx')
       \<and> length (modules (env ctx')) = length (modules (env example_context))
       \<and> length (funcs (env ctx')) = 0
       \<and> Mark (env ctx') = Mark (env example_context)
       \<and> module_bindings (env ctx') = module_bindings (env example_context)
       \<and> registered_module_bindings (env ctx')
           = registered_module_bindings (env example_context)
       \<and> total ctx' = 1 \<and> passed ctx' = 1)"
proof -
  have s: "format_u 7 = ''7''"
    by code_simp
  have l: "read_invalid_module example_collab Globals_initial
             (example_context\<lparr>total := total example_context + 1\<rparr>)
             ''unlinkable.wasm'' Binary ''assert_unlinkable''
             (example_context\<lparr>total := total example_context + 1\<rparr>)
        = (Error,
           example_context\<lparr>total := 1,
             env := (env example_context)
               \<lparr>modules := modules (env example_context) @ [example_module],
                funcs := [HostFunc \<lparr>param_types = [], result_types = [I32]\<rparr> ''Mf'' ''call'']\<rparr>,
             stdout := ''test.wast:7: assert_unlinkable passed:'' @ newline
                        @ ''  error: import signature mismatch'' @ newline\<rparr>)"
    by (simp add: read_invalid_module_def read_module_def error_handler_stdout_def printf_def
          Succeeded_def s format_d_def example_collab_def example_ReadFile_def
          example_read_binary_interpreter_def example_context_def Context_new_def
          example_env_def init_environment_def AppendHostModule_def Environment_new_def)
  have f: "funcs (env example_context) = []" "total example_context = 0"
    "passed example_context = 0"
    by (simp_all add: example_context_def example_env_def init_environment_def
          AppendHostModule_def Environment_new_def Context_new_def)
  have g: "grows_from (env example_context)
             ((env example_context)
               \<lparr>modules := modules (env example_context) @ [example_module],
                funcs := [HostFunc \<lparr>param_types = [], result_types = [I32]\<rparr> ''Mf'' ''call'']\<rparr>)"
    by (simp add: grows_from_def f)
  have r: "ResetToMarkPoint (Mark (env example_context))
             ((env example_context)
               \<lparr>modules := modules (env example_context) @ [example_module],
                funcs := [HostFunc \<lparr>param_types = [], result_types = [I32]\<rparr> ''Mf'' ''call'']\<rparr>)
           = env example_context"
    by (rule ResetToMarkPoint_appends_only)
       (simp add: appends_only_def example_context_def example_env_def init_environment_def
          AppendHostModule_def Environment_new_def)
  have c: "on_assert_unlinkable_command example_collab Globals_initial ''unlinkable.wasm'' []
             Binary example_context
           = (Ok, example_context\<lparr>total := 1, passed := 1,
                    stdout := ''test.wast:7: assert_unlinkable passed:'' @ newline
                              @ ''  error: import signature mismatch'' @ newline\<rparr>)"
    using l r
    by (simp add: on_assert_unlinkable_command_def Let_def Failed_def)
       (simp add: example_context_def Context_new_def)
  have l': "read_invalid_module example_collab Globals_initial
             (example_context\<lparr>total := total example_context + 1\<rparr>)
             (CreateModulePath example_context ''unlinkable.wasm'') Binary ''assert_unlinkable''
             (example_context\<lparr>total := total example_context + 1\<rparr>)
        = (Error,
           example_context\<lparr>total := 1,
             env := (env example_context)
               \<lparr>modules := modules (env example_context) @ [example_module],
                funcs := [HostFunc \<lparr>param_types = [], result_types = [I32]\<rparr> ''Mf'' ''call'']\<rparr>,
             stdout := ''test.wast:7: assert_unlinkable passed:'' @ newline
                        @ ''  error: import signature mismatch'' @ newline\<rparr>)"
    using l by simp
  from assert_unlinkable_leaves_no_trace [OF l', of "[]"] g r f
  have "\<exists>ctx'.
         on_assert_unlinkable_command example_collab Globals_initial ''unlinkable.wasm'' []
             Binary example_context
           = (Ok, ctx')
       \<and> length (modules (env ctx')) = length (modules (env example_context))
       \<and> length (funcs (env ctx')) = 0
       \<and> Mark (env ctx') = Mark (env example_context)
       \<and> module_bindings (env ctx') = module_bindings (env example_context)
       \<and> registered_module_bindings (env ctx')
           = registered_module_bindings (env example_context)
       \<and> total ctx' = 1 \<and> passed ctx' = 1"
    by (auto simp: Failed_def)
  with l c show ?thesis
    by blast
qed

text \<open>
  Claim C4. After a module has been read, the driver runs its start function, if it has
  one, with no arguments and asserts that it leaves no results. If the start function
  traps, the Environment is reset to the mark taken before the load and the command
  fails. Without a start function nothing runs and the result is \<^verbatim>\<open>Ok\<close>.
\<close>

theorem module_command_start_function:
  assumes "read_module x g (CreateModulePath ctx filename) ErrorHandler_stderr ctx
             = ((Ok, Some i), loaded)"
    and "i < length (modules (env loaded))"
  shows "(start_func_index (modules (env loaded) ! i) = kInvalidIndex \<longrightarrow>
            (\<forall>w. run_start_function x g (modules (env loaded) ! i) w = Inr (Result_Ok, w))
          \<and> on_module_command x g filename [] ctx = Inr (Ok, loaded\<lparr>last_module := Some i\<rparr>))
       \<and> (start_func_index (modules (env loaded) ! i) \<noteq> kInvalidIndex \<longrightarrow>
            (\<forall>iresult results ctx2.
               run_function x g (start_func_index (modules (env loaded) ! i)) [] []
                 (if s_trace g
                  then printf (''>>> running start function:'' @ newline)
                         (loaded\<lparr>last_module := Some i\<rparr>)
                  else loaded\<lparr>last_module := Some i\<rparr>)
                 = ((iresult, results), ctx2) \<longrightarrow>
               (results \<noteq> [] \<longrightarrow>
                  on_module_command x g filename nm ctx
                    = Inl (AssertionFailure ''results.size() == 0''))
             \<and> (results = [] \<and> iresult \<noteq> Result_Ok \<longrightarrow>
                  on_module_command x g filename nm ctx
                    = Inr (Error,
                           printf (print_interpreter_result x
                                     ''error running start function'' iresult)
                             (ctx2\<lparr>env := ResetToMarkPoint (Mark (env ctx)) (env ctx2)\<rparr>)))
             \<and> (results = [] \<and> iresult = Result_Ok \<longrightarrow>
                  on_module_command x g filename [] ctx = Inr (Ok, ctx2))))"
  using assms
  by (auto simp: on_module_command_def Let_def Failed_def deref_module_def at_index_def
        run_start_function_def)


theorem module_command_start_function_witness:
  "on_module_command example_collab Globals_initial ''trap.wasm'' [] example_context
     = Inr (Error,
            example_context\<lparr>last_module := Some 2,
              stdout := ''error running start function: trap'' @ newline\<rparr>)
   \<and> on_module_command example_collab Globals_initial ''ok.wasm'' [] example_context
     = Inr (Ok,
            example_context\<lparr>env := (env example_context)
                \<lparr>modules := modules (env example_context) @ [example_module],
                 globals := globals (env example_context) @ [example_global]\<rparr>,
              last_module := Some 2\<rparr>)"
proof -
  let ?trap = "example_context\<lparr>env := (env example_context)
                 \<lparr>modules := modules (env example_context)
                               @ [example_module\<lparr>start_func_index := 4\<rparr>]\<rparr>\<rparr>"
  let ?ok = "example_context\<lparr>env := (env example_context)
                 \<lparr>modules := modules (env example_context) @ [example_module],
                  globals := globals (env example_context) @ [example_global]\<rparr>\<rparr>"
  have m: "length (modules (env example_context)) = 2"
    by (simp add: example_defs)
  have r1: "read_module example_collab Globals_initial
              (CreateModulePath example_context ''trap.wasm'') ErrorHandler_stderr example_context
            = ((Ok, Some 2), ?trap)"
    by (simp add: read_module_def error_handler_stdout_def printf_def Succeeded_def m
          example_collab_def example_ReadFile_def example_read_binary_interpreter_def
          Globals_initial_def)
  have r2: "read_module example_collab Globals_initial
              (CreateModulePath example_context ''ok.wasm'') ErrorHandler_stderr example_context
            = ((Ok, Some 2), ?ok)"
    by (simp add: read_module_def error_handler_stdout_def printf_def Succeeded_def m
          example_collab_def example_ReadFile_def example_read_binary_interpreter_def
          Globals_initial_def)
  have l1: "2 < length (modules (env ?trap))" and l2: "2 < length (modules (env ?ok))"
    by (simp_all add: m)
  have s1: "(modules (env example_context) @ [example_module\<lparr>start_func_index := 4\<rparr>]) ! 2
              = example_module\<lparr>start_func_index := 4\<rparr>"
    and s2: "(modules (env example_context) @ [example_module]) ! 2 = example_module"
    by (simp_all add: nth_append m)
  have k: "start_func_index example_module = kInvalidIndex" "4 \<noteq> kInvalidIndex"
    by (simp_all add: example_module_def kInvalidIndex_def)
  have reset: "ResetToMarkPoint (Mark (env example_context))
                 ((env example_context)
                    \<lparr>modules := modules (env example_context)
                                  @ [example_module\<lparr>start_func_index := 4\<rparr>]\<rparr>)
               = env example_context"
    by (rule ResetToMarkPoint_appends_only) (simp add: appends_only_def)
  have run: "run_function example_collab Globals_initial 4 [] []
               (?trap\<lparr>last_module := Some 2\<rparr>)
             = ((TrapUnreachable, []), ?trap\<lparr>last_module := Some 2\<rparr>)"
    by (simp add: run_function_def example_collab_def example_RunFunction_def
          Globals_initial_def)
  have g: "s_trace Globals_initial = False"
    by (simp add: Globals_initial_def)
  have t: "s_trap_strings example_collab TrapUnreachable = ''trap''"
    by (simp add: example_collab_def)
  have o: "stdout example_context = []"
    by (simp add: example_context_def Context_new_def)
  show ?thesis
    using module_command_start_function [OF r1 l1, of "[]"]
      module_command_start_function [OF r2 l2, of "[]"] run
    by (auto simp: s1 s2 k g reset print_interpreter_result_def printf_def t o)
qed

subsection \<open>The command line\<close>

lemma run_option_callback_flags:
  "s_spec (run_option_callback x g cb) = (s_spec g \<or> cb = On_spec)
   \<and> s_run_all_exports (run_option_callback x g cb)
       = (s_run_all_exports g \<or> cb = On_run_all_exports)"
  by (cases cb) (simp_all add: run_option_callback_def)

lemma run_option_callbacks_flags:
  "s_spec (foldl (run_option_callback x) g callbacks) = (s_spec g \<or> On_spec \<in> set callbacks)
   \<and> s_run_all_exports (foldl (run_option_callback x) g callbacks)
       = (s_run_all_exports g \<or> On_run_all_exports \<in> set callbacks)"
proof (induction callbacks arbitrary: g)
  case Nil
  show ?case by simp
next
  case (Cons cb callbacks)
  show ?case
    by (auto simp: Cons.IH run_option_callback_flags)
qed

text \<open>
  Claim C10. The options \<^verbatim>\<open>--spec\<close> and \<^verbatim>\<open>--run-all-exports\<close> exclude each other: when the
  option parser has run the callbacks of both, \<^verbatim>\<open>parse_options\<close> ends the program with the
  fatal error \<^verbatim>\<open>--spec and --run-all-exports are incompatible.\<close>, and no file is read,
  whatever the file system holds.
\<close>

theorem spec_and_run_all_exports_incompatible:
  assumes "OptionParser_Parse x argv = Inr callbacks"
    and "On_spec \<in> set callbacks"
    and "On_run_all_exports \<in> set callbacks"
  shows "parse_options x argv g
           = Inl (Fatal (''--spec and --run-all-exports are incompatible.'' @ newline))
       \<and> (\<forall>files. ProgramMain (x\<lparr>ReadFile := files\<rparr>) argv out
             = Inl (Fatal (''--spec and --run-all-exports are incompatible.'' @ newline)))"
proof -
  have "\<And>x' g'. OptionParser_Parse x' argv = Inr callbacks \<Longrightarrow>
          parse_options x' argv g'
            = Inl (Fatal (''--spec and --run-all-exports are incompatible.'' @ newline))"
    using assms(2,3) by (simp add: parse_options_def Let_def run_option_callbacks_flags)
  with assms(1) show ?thesis
    by (simp add: ProgramMain_def)
qed

theorem spec_and_run_all_exports_incompatible_witness:
  "parse_options example_collab
     [''wasm-interp'', ''test.json'', ''--spec'', ''--run-all-exports''] Globals_initial
     = Inl (Fatal (''--spec and --run-all-exports are incompatible.'' @ newline))
   \<and> (\<forall>files. ProgramMain (example_collab\<lparr>ReadFile := files\<rparr>)
          [''wasm-interp'', ''test.json'', ''--spec'', ''--run-all-exports''] []
        = Inl (Fatal (''--spec and --run-all-exports are incompatible.'' @ newline)))"
proof -
  have p: "OptionParser_Parse example_collab
             [''wasm-interp'', ''test.json'', ''--spec'', ''--run-all-exports'']
           = Inr [On_filename ''test.json'', On_spec, On_run_all_exports]"
    by (simp add: example_collab_def example_option_def)
  show ?thesis
    by (rule spec_and_run_all_exports_incompatible [OF p]) simp_all
qed

subsection \<open>Counting tests\<close>

text \<open>What a handler may do to the counters and to the standard output: it appends to
  the output, adds \<open>n\<close> to \<^verbatim>\<open>total\<close> and at most \<open>n\<close> to \<^verbatim>\<open>passed\<close>.\<close>

lemma on_module_command_counts:
  assumes "on_module_command x g filename nm ctx = Inr (r, ctx')"
  shows "prefix (stdout ctx) (stdout ctx') \<and> total ctx' = total ctx \<and> passed ctx' = passed ctx
         \<and> source_filename ctx' = source_filename ctx
         \<and> json_data ctx' = json_data ctx \<and> json_offset ctx' = json_offset ctx"
proof -
  obtain result module loaded where
    l: "read_module x g (CreateModulePath ctx filename) ErrorHandler_stderr ctx
          = ((result, module), loaded)"
    by (metis surj_pair)
  note f = frame_fields [OF read_module_frame [OF l]]
  show ?thesis
  proof (cases "Failed result")
    case True
    with assms l f show ?thesis
      by (auto simp: on_module_command_def Let_def print_command_error_def printf_def)
  next
    case False
    with assms l obtain m iresult ctx2 where
      d: "deref_module (env loaded) module = Inr m" and
      s: "run_start_function x g m (loaded\<lparr>last_module := module\<rparr>) = Inr (iresult, ctx2)"
      by (auto simp: on_module_command_def Let_def split: sum.splits)
    note f2 = frame_fields [OF run_start_function_frame [OF s]]
    from assms l False d s f f2 show ?thesis
      by (auto simp: on_module_command_def Let_def printf_def
            split: if_splits option.splits)
  qed
qed

lemma on_action_command_counts:
  assumes "on_action_command x g action ctx = Inr (r, ctx')"
  shows "prefix (stdout ctx) (stdout ctx') \<and> total ctx' = total ctx + 1
         \<and> passed ctx \<le> passed ctx' \<and> passed ctx' \<le> passed ctx + 1
         \<and> source_filename ctx' = source_filename ctx
         \<and> json_data ctx' = json_data ctx \<and> json_offset ctx' = json_offset ctx"
proof -
  from assms obtain result iresult results ctx1 where
    a: "run_action x g action Verbose (ctx\<lparr>total := total ctx + 1\<rparr>)
          = Inr ((result, iresult, results), ctx1)"
    by (auto simp: on_action_command_def split: sum.splits)
  from run_action_counts [OF a] assms a show ?thesis
    by (auto simp: on_action_command_def print_command_error_def printf_def
          split: if_splits)
qed

lemma on_assert_return_command_counts:
  assumes "on_assert_return_command x g action expected ctx = Inr (r, ctx')"
  shows "prefix (stdout ctx) (stdout ctx') \<and> total ctx' = total ctx + 1
         \<and> passed ctx \<le> passed ctx' \<and> passed ctx' \<le> passed ctx + 1
         \<and> source_filename ctx' = source_filename ctx
         \<and> json_data ctx' = json_data ctx \<and> json_offset ctx' = json_offset ctx"
proof -
  from assms obtain result iresult results ctx1 where
    a: "run_action x g action Quiet (ctx\<lparr>total := total ctx + 1\<rparr>)
          = Inr ((result, iresult, results), ctx1)"
    by (auto simp: on_assert_return_command_def split: sum.splits)
  note c = run_action_counts [OF a]
  show ?thesis
  proof (cases "iresult = Result_Ok \<and> length results = length expected")
    case True
    then have "length expected = length results" by simp
    from assert_return_loop_result [OF this, of x 0 result ctx1] obtain ctx2 where
      "assert_return_loop x 0 expected results result ctx1
         = (if list_all2 typed_values_are_equal expected results then result else Error, ctx2)"
      and "frame ctx1 ctx2"
      by blast
    with frame_fields [of ctx1 ctx2] c assms a True show ?thesis
      by (auto simp: on_assert_return_command_def Succeeded_def split: if_splits)
  next
    case False
    with c assms a show ?thesis
      by (auto simp: on_assert_return_command_def Succeeded_def print_command_error_def
            printf_def split: if_splits)
  qed
qed

lemma on_assert_return_nan_command_counts:
  assumes "on_assert_return_nan_command x g action canonical ctx = Inr (r, ctx')"
  shows "prefix (stdout ctx) (stdout ctx') \<and> total ctx' = total ctx + 1
         \<and> passed ctx \<le> passed ctx' \<and> passed ctx' \<le> passed ctx + 1
         \<and> source_filename ctx' = source_filename ctx
         \<and> json_data ctx' = json_data ctx \<and> json_offset ctx' = json_offset ctx"
proof -
  from assms obtain result iresult results ctx1 where
    a: "run_action x g action Quiet (ctx\<lparr>total := total ctx + 1\<rparr>)
          = Inr ((result, iresult, results), ctx1)"
    by (auto simp: on_assert_return_nan_command_def split: sum.splits)
  from run_action_counts [OF a] assms a show ?thesis
    by (auto simp: on_assert_return_nan_command_def Succeeded_def print_command_error_def
          printf_def Let_def split: if_splits sum.splits Type.splits prod.splits)
qed

lemma on_assert_trap_command_counts:
  assumes "on_assert_trap_command x g action text ctx = Inr (r, ctx')"
  shows "prefix (stdout ctx) (stdout ctx') \<and> total ctx' = total ctx + 1
         \<and> passed ctx \<le> passed ctx' \<and> passed ctx' \<le> passed ctx + 1
         \<and> source_filename ctx' = source_filename ctx
         \<and> json_data ctx' = json_data ctx \<and> json_offset ctx' = json_offset ctx"
proof -
  from assms obtain result iresult results ctx1 where
    a: "run_action x g action Quiet (ctx\<lparr>total := total ctx + 1\<rparr>)
          = Inr ((result, iresult, results), ctx1)"
    by (auto simp: on_assert_trap_command_def split: sum.splits)
  from run_action_counts [OF a] assms a show ?thesis
    by (auto simp: on_assert_trap_command_def print_command_error_def printf_def
          split: if_splits)
qed

lemma on_assert_exhaustion_command_counts:
  assumes "on_assert_exhaustion_command x g action ctx = Inr (r, ctx')"
  shows "prefix (stdout ctx) (stdout ctx') \<and> total ctx' = total ctx + 1
         \<and> passed ctx \<le> passed ctx' \<and> passed ctx' \<le> passed ctx + 1
         \<and> source_filename ctx' = source_filename ctx
         \<and> json_data ctx' = json_data ctx \<and> json_offset ctx' = json_offset ctx"
proof -
  from assms obtain result iresult results ctx1 where
    a: "run_action x g action Quiet (ctx\<lparr>total := total ctx + 1\<rparr>)
          = Inr ((result, iresult, results), ctx1)"
    by (auto simp: on_assert_exhaustion_command_def split: sum.splits)
  from run_action_counts [OF a] assms a show ?thesis
    by (auto simp: on_assert_exhaustion_command_def print_command_error_def printf_def
          split: if_splits)
qed


lemma on_register_command_counts:
  assumes "on_register_command nm as ctx = (r, ctx')"
  shows "prefix (stdout ctx) (stdout ctx') \<and> total ctx' = total ctx \<and> passed ctx' = passed ctx
         \<and> source_filename ctx' = source_filename ctx
         \<and> json_data ctx' = json_data ctx \<and> json_offset ctx' = json_offset ctx"
  using assms
  by (auto simp: on_register_command_def Let_def print_command_error_def printf_def
        split: if_splits)

lemma on_assert_malformed_command_counts:
  assumes "on_assert_malformed_command x g filename text module_type ctx = (r, ctx')"
  shows "prefix (stdout ctx) (stdout ctx') \<and> total ctx' = total ctx + 1
         \<and> passed ctx \<le> passed ctx' \<and> passed ctx' \<le> passed ctx + 1
         \<and> source_filename ctx' = source_filename ctx
         \<and> json_data ctx' = json_data ctx \<and> json_offset ctx' = json_offset ctx"
proof -
  obtain result loaded where
    l: "read_invalid_module x g (ctx\<lparr>total := total ctx + 1\<rparr>) (CreateModulePath ctx filename)
          module_type ''assert_malformed''
          (ctx\<lparr>total := total ctx + 1, env := init_environment Environment_new\<rparr>)
        = (result, loaded)"
    by (metis surj_pair)
  from read_invalid_module_frame [OF l] have "frame (ctx\<lparr>total := total ctx + 1\<rparr>) loaded"
    by simp
  from frame_fields [OF this] assms l show ?thesis
    by (auto simp: on_assert_malformed_command_def Let_def print_command_error_def printf_def
          split: if_splits)
qed

lemma on_assert_invalid_command_counts:
  assumes "on_assert_invalid_command x g filename text module_type ctx = (r, ctx')"
  shows "prefix (stdout ctx) (stdout ctx') \<and> total ctx' = total ctx + 1
         \<and> passed ctx \<le> passed ctx' \<and> passed ctx' \<le> passed ctx + 1
         \<and> source_filename ctx' = source_filename ctx
         \<and> json_data ctx' = json_data ctx \<and> json_offset ctx' = json_offset ctx"
proof -
  obtain result loaded where
    l: "read_invalid_module x g (ctx\<lparr>total := total ctx + 1\<rparr>) (CreateModulePath ctx filename)
          module_type ''assert_invalid''
          (ctx\<lparr>total := total ctx + 1, env := init_environment Environment_new\<rparr>)
        = (result, loaded)"
    by (metis surj_pair)
  from read_invalid_module_frame [OF l] have "frame (ctx\<lparr>total := total ctx + 1\<rparr>) loaded"
    by simp
  from frame_fields [OF this] assms l show ?thesis
    by (auto simp: on_assert_invalid_command_def Let_def print_command_error_def printf_def
          split: if_splits)
qed

lemma on_assert_unlinkable_command_counts:
  assumes "on_assert_unlinkable_command x g filename text module_type ctx = (r, ctx')"
  shows "prefix (stdout ctx) (stdout ctx') \<and> total ctx' = total ctx + 1
         \<and> passed ctx \<le> passed ctx' \<and> passed ctx' \<le> passed ctx + 1
         \<and> source_filename ctx' = source_filename ctx
         \<and> json_data ctx' = json_data ctx \<and> json_offset ctx' = json_offset ctx"
proof -
  obtain result loaded where
    l: "read_invalid_module x g (ctx\<lparr>total := total ctx + 1\<rparr>) (CreateModulePath ctx filename)
          module_type ''assert_unlinkable'' (ctx\<lparr>total := total ctx + 1\<rparr>)
        = (result, loaded)"
    by (metis surj_pair)
  from frame_fields [OF read_invalid_module_frame [OF l]] assms l show ?thesis
    by (auto simp: on_assert_unlinkable_command_def Let_def print_command_error_def printf_def
          split: if_splits)
qed

lemma on_assert_uninstantiable_command_counts:
  assumes "on_assert_uninstantiable_command x g filename text module_type ctx = Inr (r, ctx')"
  shows "prefix (stdout ctx) (stdout ctx') \<and> total ctx' = total ctx + 1
         \<and> passed ctx \<le> passed ctx' \<and> passed ctx' \<le> passed ctx + 1
         \<and> source_filename ctx' = source_filename ctx
         \<and> json_data ctx' = json_data ctx \<and> json_offset ctx' = json_offset ctx"
proof -
  obtain result module loaded where
    l: "read_module x g (CreateModulePath ctx filename) ErrorHandler_stderr
          (ctx\<lparr>total := total ctx + 1\<rparr>) = ((result, module), loaded)"
    by (metis surj_pair)
  note f = frame_fields [OF read_module_frame [OF l]]
  show ?thesis
  proof (cases "Succeeded result")
    case False
    with assms l f show ?thesis
      by (auto simp: on_assert_uninstantiable_command_def Let_def print_command_error_def
            printf_def)
  next
    case True
    with assms l obtain m iresult ctx3 where
      d: "deref_module (env loaded) module = Inr m" and
      s: "run_start_function x g m loaded = Inr (iresult, ctx3)"
      by (auto simp: on_assert_uninstantiable_command_def Let_def split: sum.splits)
    note f2 = frame_fields [OF run_start_function_frame [OF s]]
    from assms l True d s f f2 show ?thesis
      by (auto simp: on_assert_uninstantiable_command_def Let_def print_command_error_def
            printf_def split: if_splits)
  qed
qed

lemma run_command_counts:
  assumes "run_command x g command ctx = Inr (r, ctx')"
  shows "prefix (stdout ctx) (stdout ctx')
         \<and> total ctx' = total ctx + (if counts_as_test command then 1 else 0)
         \<and> passed ctx \<le> passed ctx'
         \<and> passed ctx' - passed ctx \<le> total ctx' - total ctx
         \<and> source_filename ctx' = source_filename ctx
         \<and> json_data ctx' = json_data ctx \<and> json_offset ctx' = json_offset ctx"
proof (cases command)
  case (ModuleCommand filename nm)
  with assms on_module_command_counts [of x g filename nm ctx r ctx'] show ?thesis
    by (simp add: run_command_def)
next
  case (ActionCommand action)
  with assms on_action_command_counts [of x g action ctx r ctx'] show ?thesis
    by (simp add: run_command_def)
next
  case (RegisterCommand nm as)
  with assms on_register_command_counts [of nm as ctx r ctx'] show ?thesis
    by (simp add: run_command_def)
next
  case (AssertMalformedCommand filename msg module_type)
  with assms on_assert_malformed_command_counts [of x g filename msg module_type ctx r ctx']
  show ?thesis
    by (simp add: run_command_def)
next
  case (AssertInvalidCommand filename msg module_type)
  with assms on_assert_invalid_command_counts [of x g filename msg module_type ctx r ctx']
  show ?thesis
    by (simp add: run_command_def)
next
  case (AssertUnlinkableCommand filename msg module_type)
  with assms on_assert_unlinkable_command_counts [of x g filename msg module_type ctx r ctx']
  show ?thesis
    by (simp add: run_command_def)
next
  case (AssertUninstantiableCommand filename msg module_type)
  with assms
    on_assert_uninstantiable_command_counts [of x g filename msg module_type ctx r ctx']
  show ?thesis
    by (simp add: run_command_def)
next
  case (AssertReturnCommand action expected)
  with assms on_assert_return_command_counts [of x g action expected ctx r ctx'] show ?thesis
    by (simp add: run_command_def)
next
  case (AssertReturnCanonicalNanCommand action)
  with assms on_assert_return_nan_command_counts [of x g action True ctx r ctx'] show ?thesis
    by (simp add: run_command_def)
next
  case (AssertReturnArithmeticNanCommand action)
  with assms on_assert_return_nan_command_counts [of x g action False ctx r ctx'] show ?thesis
    by (simp add: run_command_def)
next
  case (AssertTrapCommand action msg)
  with assms on_assert_trap_command_counts [of x g action msg ctx r ctx'] show ?thesis
    by (simp add: run_command_def)
next
  case (AssertExhaustionCommand action)
  with assms on_assert_exhaustion_command_counts [of x g action ctx r ctx'] show ?thesis
    by (simp add: run_command_def)
qed

subsection \<open>The JSON reader\<close>

lemma lex_step_refl [simp]: "lex_step c c"
  by (simp add: lex_step_def)

lemma lex_step_trans: "lex_step a b \<Longrightarrow> lex_step b c \<Longrightarrow> lex_step a c"
  by (auto simp: lex_step_def)

lemma lexesD: "lexes p \<Longrightarrow> p c = Inr (r, c') \<Longrightarrow> lex_step c c'"
  by (auto simp: lexes_def)

lemma read_char_step:
  "read_char x c = (r, c') \<Longrightarrow>
     lex_step c c' \<and> (json_offset c < length (json_data c) \<longrightarrow> remaining c' < remaining c)
     \<and> (r \<noteq> - 1 \<longrightarrow> remaining c' < remaining c)
     \<and> (length (json_data c) \<le> json_offset c \<longrightarrow> c' = c \<and> r = - 1)"
  by (auto simp: read_char_def lex_step_def remaining_def split: if_splits)

lemma putback_char_step:
  "putback_char c = Inr c' \<Longrightarrow>
     remaining c' \<le> remaining c + 1 \<and> json_data c' = json_data c \<and> env c' = env c
     \<and> stdout c' = stdout c \<and> passed c' = passed c \<and> total c' = total c"
  by (auto simp: putback_char_def remaining_def split: if_splits)

lemma skip_whitespace_step: "skip_whitespace x c = Inr c' \<Longrightarrow> lex_step c c'"
proof (induction x c rule: skip_whitespace.induct)
  case (1 x ctx)
  obtain r ctx1 where r: "read_char x ctx = (r, ctx1)"
    by (cases "read_char x ctx")
  note s = read_char_step [OF r]
  show ?case
  proof (cases "r = - 1")
    case True
    with "1.prems" r s show ?thesis
      by (simp add: skip_whitespace.simps [of x ctx])
  next
    case False
    show ?thesis
    proof (cases "r = 32 \<or> r = 9 \<or> r = 10 \<or> r = 13")
      case True
      with "1.prems" r False have "skip_whitespace x ctx1 = Inr c'"
        by (simp add: skip_whitespace.simps [of x ctx])
      from "1.IH" [OF r [symmetric] False True this] s show ?thesis
        by (auto intro: lex_step_trans)
    next
      case ws: False
      with "1.prems" r False have "putback_char ctx1 = Inr c'"
        by (simp add: skip_whitespace.simps [of x ctx])
      from putback_char_step [OF this] s False show ?thesis
        by (auto simp: lex_step_def)
    qed
  qed
qed

lemma match_loop_step:
  "match_loop x s c = (b, c') \<Longrightarrow>
     lex_step c c' \<and> (b \<longrightarrow> remaining c' + length s \<le> remaining c)"
proof (induction s arbitrary: c)
  case Nil
  then show ?case by simp
next
  case (Cons ch s)
  obtain r ctx1 where r: "read_char x c = (r, ctx1)"
    by (cases "read_char x c")
  note st = read_char_step [OF r]
  show ?case
  proof (cases "of_char ch = r")
    case True
    have "(of_char ch :: int) = of_nat (of_char ch)"
      by (simp add: of_nat_of_char)
    then have "0 \<le> (of_char ch :: int)"
      by simp
    with True have "r \<noteq> - 1"
      by auto
    with Cons.prems r True Cons.IH [of ctx1] st show ?thesis
      by (auto simp: lex_step_def)
  next
    case False
    with Cons.prems r st show ?thesis by auto
  qed
qed


lemma match_step:
  "match x s c = Inr (b, c') \<Longrightarrow>
     lex_step c c' \<and> (b \<longrightarrow> remaining c' + length s \<le> remaining c)"
proof -
  assume m: "match x s c = Inr (b, c')"
  then obtain ctx1 where w: "skip_whitespace x c = Inr ctx1"
    by (auto simp: match_def split: sum.splits)
  obtain b2 ctx2 where l: "match_loop x s ctx1 = (b2, ctx2)"
    by (cases "match_loop x s ctx1")
  from m w l skip_whitespace_step [OF w] match_loop_step [OF l] show ?thesis
    by (cases b2) (auto simp: match_def lex_step_def remaining_def)
qed

lemma expect_step:
  "expect x s c = Inr (r, c') \<Longrightarrow>
     lex_step c c' \<and> (r \<noteq> None \<longrightarrow> remaining c' + length s \<le> remaining c)"
  by (auto simp: expect_def split: sum.splits prod.splits if_splits dest!: match_step)

lemma lexes_expect [intro, simp]: "lexes (expect x s)"
  by (auto simp: lexes_def dest: expect_step)

lemma lexes_ok [intro, simp]: "lexes (ok a)"
  by (simp add: lexes_def ok_def)

lemma lexes_fail [intro, simp]: "lexes fail"
  by (simp add: lexes_def fail_def)

lemma lexes_then_read [intro]:
  "lexes p \<Longrightarrow> (\<And>a. lexes (f a)) \<Longrightarrow> lexes (then_read p f)"
  unfolding lexes_def then_read_def
  by (auto split: sum.splits prod.splits option.splits) (blast intro: lex_step_trans)

lemma lexes_if_match [intro]: "lexes p \<Longrightarrow> lexes q \<Longrightarrow> lexes (if_match x s p q)"
  unfolding lexes_def if_match_def
  by (auto split: sum.splits prod.splits bool.splits dest!: match_step intro: lex_step_trans)

lemma lexes_if [intro]: "lexes p \<Longrightarrow> lexes q \<Longrightarrow> lexes (if b then p else q)"
  by simp

lemma lexes_case_option [intro]:
  "lexes p \<Longrightarrow> (\<And>v. lexes (q v)) \<Longrightarrow> lexes (case opt of None \<Rightarrow> p | Some v \<Rightarrow> q v)"
  by (cases opt) simp_all

lemma lexes_expect_key [intro, simp]: "lexes (expect_key x key)"
  unfolding expect_key_def by blast

text \<open>A reader that begins with a successful \<^verbatim>\<open>EXPECT\<close> of a non-empty string consumes
  input.\<close>

lemma then_read_expect_strict:
  assumes "then_read (expect x s) f c = Inr (Some r, c')" and "s \<noteq> []" and "\<And>u. lexes (f u)"
  shows "remaining c' < remaining c"
proof -
  from assms(1) obtain c1 where e: "expect x s c = Inr (Some (), c1)"
    and f: "f () c1 = Inr (Some r, c')"
    by (auto simp: then_read_def split: sum.splits prod.splits option.splits)
  from expect_step [OF e] assms(2) have "remaining c1 < remaining c"
    by (cases s) auto
  with lexesD [OF assms(3) f] show ?thesis
    by (simp add: lex_step_def)
qed

lemma parse_hex_digits_step:
  "parse_hex_digits x n code c = Inr (r, c') \<Longrightarrow> lex_step c c'"
proof (induction n arbitrary: code c)
  case 0
  then show ?case by simp
next
  case (Suc n)
  obtain ch ctx1 where r: "read_char x c = (ch, ctx1)"
    by (cases "read_char x c")
  from Suc.prems r read_char_step [OF r] Suc.IH [of _ ctx1] show ?case
    by (auto split: if_splits intro: lex_step_trans)
qed

termination parse_string_loop
proof (relation "measure (\<lambda>(x, out, ctx). remaining ctx)", goal_cases)
  case 1
  show ?case by simp
next
  case (2 x out ctx c ctx1 c2 ctx2 code ctx3)
  from 2 read_char_step [of x ctx c ctx1] read_char_step [of x ctx1 c2 ctx2]
    parse_hex_digits_step [of x 4 0 ctx2 "Some code" ctx3]
  show ?case
    by (auto simp: lex_step_def)
next
  case (3 x out ctx c ctx1)
  from 3 read_char_step [of x ctx c ctx1] show ?case
    by auto
qed

declare parse_string_loop.simps [simp del]

lemma parse_string_loop_step: "parse_string_loop x out c = Inr (r, c') \<Longrightarrow> lex_step c c'"
proof (induction x out c rule: parse_string_loop.induct)
  case (1 x out ctx)
  from "1.prems" have n: "\<not> length (json_data ctx) \<le> json_offset ctx"
    by (auto simp: parse_string_loop.simps [of x out ctx] split: if_splits)
  obtain ch ctx1 where a: "read_char x ctx = (ch, ctx1)"
    by (cases "read_char x ctx")
  note sa = read_char_step [OF a]
  show ?case
  proof (cases "ch = 34")
    case True
    with "1.prems" n a sa show ?thesis
      by (simp add: parse_string_loop.simps [of x out ctx])
  next
    case q: False
    show ?thesis
    proof (cases "ch = 92")
      case False
      with "1.prems" n a q have "parse_string_loop x (out @ [char_of ch]) ctx1 = Inr (r, c')"
        by (simp add: parse_string_loop.simps [of x out ctx])
      from "1.IH"(2) [OF n a [symmetric] q False this] sa show ?thesis
        by (auto intro: lex_step_trans)
    next
      case True
      obtain c2 ctx2 where b: "read_char x ctx1 = (c2, ctx2)"
        by (cases "read_char x ctx1")
      note sb = read_char_step [OF b]
      show ?thesis
      proof (cases "c2 = 117")
        case False
        with "1.prems" n a q True b sa sb show ?thesis
          by (auto simp: parse_string_loop.simps [of x out ctx] intro: lex_step_trans)
      next
        case u: True
        with "1.prems" n a q True b have
          t: "then_read (parse_hex_digits x 4 0)
                (\<lambda>code. parse_string_loop x
                          (if code < 256 then out @ [char_of (unat code)] else out)) ctx2
              = Inr (r, c')"
          by (simp add: parse_string_loop.simps [of x out ctx])
        show ?thesis
        proof (cases "parse_hex_digits x 4 0 ctx2")
          case (Inl f)
          with t show ?thesis by (simp add: then_read_def)
        next
          case (Inr res)
          obtain code ctx3 where res: "res = (code, ctx3)" by (cases res)
          note sh = parse_hex_digits_step [OF Inr [unfolded res]]
          show ?thesis
          proof (cases code)
            case None
            with t Inr res sa sb sh show ?thesis
              by (auto simp: then_read_def intro: lex_step_trans)
          next
            case (Some v)
            with t Inr res have
              "parse_string_loop x (if v < 256 then out @ [char_of (unat v)] else out) ctx3
               = Inr (r, c')"
              by (simp add: then_read_def)
            from "1.IH"(1) [OF n a [symmetric] q True b [symmetric] _ _ this] u Inr res Some
            have "lex_step ctx3 c'"
              by simp
            with sa sb sh show ?thesis
              by (blast intro: lex_step_trans)
          qed
        qed
      qed
    qed
  qed
qed


lemma lexes_parse_string [intro, simp]: "lexes (parse_string x)"
  unfolding lexes_def parse_string_def
  by (auto split: sum.splits prod.splits if_splits
        dest!: skip_whitespace_step read_char_step parse_string_loop_step
        intro: lex_step_trans)

lemma lexes_parse_key_string_value [intro, simp]: "lexes (parse_key_string_value x key)"
  unfolding parse_key_string_value_def by blast

lemma lexes_parse_opt_name_string_value [intro, simp]: "lexes (parse_opt_name_string_value x)"
  unfolding parse_opt_name_string_value_def by blast

lemma lexes_parse_type_object [intro, simp]: "lexes (parse_type_object x)"
  unfolding parse_type_object_def by (intro lexes_then_read lexes_if) simp_all

lemma parse_type_object_strict:
  "parse_type_object x c = Inr (Some t, c') \<Longrightarrow> remaining c' < remaining c"
  unfolding parse_type_object_def
  by (erule then_read_expect_strict) (simp, intro lexes_then_read lexes_if, simp_all)

lemma lexes_parse_const [intro, simp]: "lexes (parse_const x)"
  unfolding parse_const_def
  by (intro lexes_then_read lexes_if lexes_case_option) simp_all

lemma parse_const_strict:
  "parse_const x c = Inr (Some v, c') \<Longrightarrow> remaining c' < remaining c"
  unfolding parse_const_def
  by (erule then_read_expect_strict)
     (simp, intro lexes_then_read lexes_if lexes_case_option, simp_all)

text \<open>One round of a vector loop: the closing bracket is not there, a comma is read
  unless the element is the first, and the element is read.\<close>

lemma vector_round:
  assumes "match x s c = Inr (False, c1)"
    and "(if \<not> first then expect x t else ok ()) c1 = Inr (Some u, c2)"
    and "remaining c3 < remaining c2"
  shows "remaining c3 < remaining c"
proof -
  from match_step [OF assms(1)] have "remaining c1 \<le> remaining c"
    by (simp add: lex_step_def)
  moreover from assms(2) have "remaining c2 \<le> remaining c1"
    by (auto simp: ok_def lex_step_def split: if_splits dest!: expect_step)
  ultimately show ?thesis
    using assms(3) by simp
qed

termination parse_type_vector_loop
proof (relation "measure (\<lambda>(x, first, out_types, ctx). remaining ctx)", goal_cases)
  case 1
  show ?case by simp
next
  case (2 x first out_types ctx p b ctx1 u ctx2 t ctx3)
  then have m: "match x '']'' ctx = Inr (False, ctx1)"
    by simp
  from 2 vector_round [OF m, of first "'',''" u ctx2 ctx3] parse_type_object_strict [of x ctx2 t ctx3]
  show ?case
    by simp
qed

termination parse_const_vector_loop
proof (relation "measure (\<lambda>(x, first, out_values, ctx). remaining ctx)", goal_cases)
  case 1
  show ?case by simp
next
  case (2 x first out_values ctx p b ctx1 u ctx2 v ctx3)
  then have m: "match x '']'' ctx = Inr (False, ctx1)"
    by simp
  from 2 vector_round [OF m, of first "'',''" u ctx2 ctx3] parse_const_strict [of x ctx2 v ctx3]
  show ?case
    by simp
qed


declare parse_type_vector_loop.simps [simp del] parse_const_vector_loop.simps [simp del]

lemma parse_type_vector_loop_step:
  "parse_type_vector_loop x first out_types c = Inr (r, c') \<Longrightarrow> lex_step c c'"
proof (induction x first out_types c rule: parse_type_vector_loop.induct)
  case (1 x first out_types ctx)
  from "1.prems" obtain b ctx1 where m: "match x '']'' ctx = Inr (b, ctx1)"
    by (auto simp: parse_type_vector_loop.simps [of x first out_types ctx] split: sum.splits)
  note sm = match_step [OF m]
  show ?case
  proof (cases b)
    case True
    with "1.prems" m sm show ?thesis
      by (simp add: parse_type_vector_loop.simps [of x first out_types ctx])
  next
    case False
    with "1.prems" m have
      t: "then_read (if \<not> first then expect x '','' else ok ()) (\<lambda>u.
          then_read (parse_type_object x) (\<lambda>t.
            parse_type_vector_loop x False (out_types @ [t]))) ctx1 = Inr (r, c')"
      by (simp add: parse_type_vector_loop.simps [of x first out_types ctx])
    have e: "lexes (if \<not> first then expect x '','' else ok ())"
      by simp
    show ?thesis
    proof (cases "(if \<not> first then expect x '','' else ok ()) ctx1")
      case (Inl f)
      with t show ?thesis by (simp add: then_read_def)
    next
      case (Inr res)
      obtain u ctx2 where res: "res = (u, ctx2)" by (cases res)
      note se = lexesD [OF e Inr [unfolded res]]
      show ?thesis
      proof (cases u)
        case None
        with t Inr res sm se show ?thesis
          by (auto simp: then_read_def intro: lex_step_trans)
      next
        case (Some uu)
        with t Inr res have
          t2: "then_read (parse_type_object x) (\<lambda>t.
                 parse_type_vector_loop x False (out_types @ [t])) ctx2 = Inr (r, c')"
          by (simp add: then_read_def)
        show ?thesis
        proof (cases "parse_type_object x ctx2")
          case (Inl f)
          with t2 show ?thesis by (simp add: then_read_def)
        next
          case o: (Inr res2)
          obtain t ctx3 where res2: "res2 = (t, ctx3)" by (cases res2)
          note so = lexesD [OF lexes_parse_type_object o [unfolded res2]]
          show ?thesis
          proof (cases t)
            case None
            with t2 o res2 sm se so show ?thesis
              by (auto simp: then_read_def intro: lex_step_trans)
          next
            case v: (Some ty)
            with t2 o res2 have
              "parse_type_vector_loop x False (out_types @ [ty]) ctx3 = Inr (r, c')"
              by (simp add: then_read_def)
            moreover from False have "b = False" by simp
            ultimately have "lex_step ctx3 c'"
              using "1.IH" [OF m refl _ Inr [unfolded res Some] o [unfolded res2 v]] by blast
            with sm se so show ?thesis
              by (blast intro: lex_step_trans)
          qed
        qed
      qed
    qed
  qed
qed


lemma parse_const_vector_loop_step:
  "parse_const_vector_loop x first out_values c = Inr (r, c') \<Longrightarrow> lex_step c c'"
proof (induction x first out_values c rule: parse_const_vector_loop.induct)
  case (1 x first out_values ctx)
  from "1.prems" obtain b ctx1 where m: "match x '']'' ctx = Inr (b, ctx1)"
    by (auto simp: parse_const_vector_loop.simps [of x first out_values ctx] split: sum.splits)
  note sm = match_step [OF m]
  show ?case
  proof (cases b)
    case True
    with "1.prems" m sm show ?thesis
      by (simp add: parse_const_vector_loop.simps [of x first out_values ctx])
  next
    case False
    with "1.prems" m have
      t: "then_read (if \<not> first then expect x '','' else ok ()) (\<lambda>u.
          then_read (parse_const x) (\<lambda>t.
            parse_const_vector_loop x False (out_values @ [t]))) ctx1 = Inr (r, c')"
      by (simp add: parse_const_vector_loop.simps [of x first out_values ctx])
    have e: "lexes (if \<not> first then expect x '','' else ok ())"
      by simp
    show ?thesis
    proof (cases "(if \<not> first then expect x '','' else ok ()) ctx1")
      case (Inl f)
      with t show ?thesis by (simp add: then_read_def)
    next
      case (Inr res)
      obtain u ctx2 where res: "res = (u, ctx2)" by (cases res)
      note se = lexesD [OF e Inr [unfolded res]]
      show ?thesis
      proof (cases u)
        case None
        with t Inr res sm se show ?thesis
          by (auto simp: then_read_def intro: lex_step_trans)
      next
        case (Some uu)
        with t Inr res have
          t2: "then_read (parse_const x) (\<lambda>t.
                 parse_const_vector_loop x False (out_values @ [t])) ctx2 = Inr (r, c')"
          by (simp add: then_read_def)
        show ?thesis
        proof (cases "parse_const x ctx2")
          case (Inl f)
          with t2 show ?thesis by (simp add: then_read_def)
        next
          case o: (Inr res2)
          obtain t ctx3 where res2: "res2 = (t, ctx3)" by (cases res2)
          note so = lexesD [OF lexes_parse_const o [unfolded res2]]
          show ?thesis
          proof (cases t)
            case None
            with t2 o res2 sm se so show ?thesis
              by (auto simp: then_read_def intro: lex_step_trans)
          next
            case v: (Some ty)
            with t2 o res2 have
              "parse_const_vector_loop x False (out_values @ [ty]) ctx3 = Inr (r, c')"
              by (simp add: then_read_def)
            moreover from False have "b = False" by simp
            ultimately have "lex_step ctx3 c'"
              using "1.IH" [OF m refl _ Inr [unfolded res Some] o [unfolded res2 v]] by blast
            with sm se so show ?thesis
              by (blast intro: lex_step_trans)
          qed
        qed
      qed
    qed
  qed
qed


lemma lexes_parse_type_vector [intro, simp]: "lexes (parse_type_vector x)"
  unfolding parse_type_vector_def
  by (intro lexes_then_read lexes_expect) (auto simp: lexes_def dest: parse_type_vector_loop_step)

lemma lexes_parse_const_vector [intro, simp]: "lexes (parse_const_vector x)"
  unfolding parse_const_vector_def
  by (intro lexes_then_read lexes_expect) (auto simp: lexes_def dest: parse_const_vector_loop_step)

lemma lexes_parse_action [intro, simp]: "lexes (parse_action x)"
  unfolding parse_action_def
  by (intro lexes_then_read lexes_if lexes_if_match) simp_all

lemma lexes_parse_module_type [intro, simp]: "lexes (parse_module_type x)"
  unfolding parse_module_type_def
  by (intro lexes_then_read lexes_if) simp_all

subsection \<open>Commands and the summary line\<close>

lemma run_step_refl [simp]: "run_step c c"
  by (simp add: run_step_def)


lemma read_step_refl [simp]: "read_step c c"
  by (simp add: read_step_def)

lemma read_step_trans: "read_step a b \<Longrightarrow> read_step b c \<Longrightarrow> read_step a c"
  by (auto simp: read_step_def)

lemma lex_step_read_step: "lex_step c c' \<Longrightarrow> read_step c c'"
  by (auto simp: lex_step_def read_step_def)


lemma readsD: "reads p \<Longrightarrow> p c = Inr (r, c') \<Longrightarrow> read_step c c'"
  by (auto simp: reads_def)


lemma lexes_reads: "lexes p \<Longrightarrow> reads p"
  by (auto simp: lexes_def reads_def intro: lex_step_read_step)


lemma reads_then_read: "reads p \<Longrightarrow> (\<And>a. reads (f a)) \<Longrightarrow> reads (then_read p f)"
  unfolding reads_def then_read_def
  by (auto split: sum.splits prod.splits option.splits) (blast intro: read_step_trans)


lemma reads_if_match: "reads p \<Longrightarrow> reads q \<Longrightarrow> reads (if_match x s p q)"
  unfolding reads_def if_match_def
  by (auto split: sum.splits prod.splits bool.splits dest!: match_step)
     (blast intro: read_step_trans lex_step_read_step)+

lemma reads_case_prod: "(\<And>a b. reads (f a b)) \<Longrightarrow> reads (case p of (a, b) \<Rightarrow> f a b)"
  by (cases p) simp

lemmas reads_lexes =
  lexes_expect [THEN lexes_reads] lexes_expect_key [THEN lexes_reads] lexes_ok [THEN lexes_reads]
  lexes_parse_string [THEN lexes_reads] lexes_parse_key_string_value [THEN lexes_reads]
  lexes_parse_opt_name_string_value [THEN lexes_reads] lexes_parse_action [THEN lexes_reads]
  lexes_parse_module_type [THEN lexes_reads] lexes_parse_const_vector [THEN lexes_reads]
  lexes_parse_type_vector [THEN lexes_reads]

lemma parse_uint32_loop_step:
  "parse_uint32_loop x result c = Inr (r, c') \<Longrightarrow>
     remaining c' \<le> max (remaining c) 1 \<and> json_data c' = json_data c \<and> env c' = env c
     \<and> stdout c' = stdout c \<and> passed c' = passed c \<and> total c' = total c"
proof (induction x result c rule: parse_uint32_loop.induct)
  case (1 x result ctx)
  obtain ch ctx1 where a: "read_char x ctx = (ch, ctx1)"
    by (cases "read_char x ctx")
  note sa = read_char_step [OF a]
  show ?case
  proof (cases "48 \<le> ch \<and> ch \<le> 57")
    case True
    show ?thesis
    proof (cases "result * 10 + word_of_int (ch - 48) < result")
      case o: True
      with "1.prems" a True sa show ?thesis
        by (auto simp: parse_uint32_loop.simps [of x result ctx] lex_step_def)
    next
      case o: False
      with "1.prems" a True have
        "parse_uint32_loop x (result * 10 + word_of_int (ch - 48)) ctx1 = Inr (r, c')"
        by (simp add: parse_uint32_loop.simps [of x result ctx])
      from "1.IH" [OF a [symmetric] True o this] sa show ?thesis
        by (auto simp: lex_step_def)
    qed
  next
    case False
    with "1.prems" a obtain ctx2 where p: "putback_char ctx1 = Inr ctx2" and "c' = ctx2"
      by (auto simp: parse_uint32_loop.simps [of x result ctx] split: sum.splits)
    with putback_char_step [OF p] sa show ?thesis
      by (cases "json_offset ctx < length (json_data ctx)")
         (auto simp: lex_step_def remaining_def)
  qed
qed

lemma reads_parse_uint32: "reads (parse_uint32 x)"
  unfolding reads_def parse_uint32_def
  by (auto simp: read_step_def lex_step_def split: sum.splits
        dest!: skip_whitespace_step parse_uint32_loop_step)

lemma reads_parse_line: "reads (parse_line x)"
  unfolding parse_line_def
  by (intro reads_then_read reads_lexes reads_parse_uint32)
     (simp add: reads_def read_step_def remaining_def)

lemma reads_parse_invalid_module_fields: "reads (parse_invalid_module_fields x)"
  unfolding parse_invalid_module_fields_def
  by (intro reads_then_read reads_lexes reads_parse_line)

lemma reads_parse_line_and_action: "reads (parse_line_and_action x)"
  unfolding parse_line_and_action_def
  by (intro reads_then_read reads_lexes reads_parse_line)

lemma reads_unknown_command_type:
  "reads (\<lambda>ctx. Inr (None, print_command_error ''unknown command type'' ctx))"
  by (simp add: reads_def read_step_def remaining_def print_command_error_def printf_def)

lemma reads_parse_command_fields: "reads (parse_command_fields x)"
  unfolding parse_command_fields_def
  by (intro reads_if_match reads_then_read reads_case_prod reads_lexes reads_parse_line
        reads_parse_invalid_module_fields reads_parse_line_and_action
        reads_unknown_command_type)

lemma call_handler_step:
  assumes "call_handler (run_command x g command) c = Inr (r, c')"
  shows "run_step c c' \<and> remaining c' = remaining c"
proof -
  from assms obtain r1 where "run_command x g command c = Inr (r1, c')"
    by (auto simp: call_handler_def split: sum.splits)
  from run_command_counts [OF this] show ?thesis
    by (simp add: run_step_def remaining_def)
qed


text \<open>A command that is read to its closing brace consumes input: its braces are read,
  and between them the input left to read does not grow beyond one byte.\<close>

lemma parse_command_strict:
  assumes "parse_command x g c = Inr (Some u, c')"
  shows "remaining c' < remaining c"
proof -
  from assms obtain c1 c2 command c3 c4 where
    s1: "expect x ''{'' c = Inr (Some (), c1)" and
    s2: "expect_key x ''type'' c1 = Inr (Some (), c2)" and
    s3: "parse_command_fields x c2 = Inr (Some command, c3)" and
    s4: "call_handler (run_command x g command) c3 = Inr (Some (), c4)" and
    s5: "expect x ''}'' c4 = Inr (Some u, c')"
    by (auto simp: parse_command_def then_read_def
          split: sum.splits prod.splits option.splits)
  from expect_step [OF s1] have "remaining c1 + 1 \<le> remaining c"
    by simp
  moreover from lexesD [OF lexes_expect_key s2] have "remaining c2 \<le> remaining c1"
    by (simp add: lex_step_def)
  moreover from readsD [OF reads_parse_command_fields s3]
  have "remaining c3 \<le> max (remaining c2) 1"
    by (simp add: read_step_def)
  moreover from call_handler_step [OF s4] have "remaining c4 = remaining c3"
    by simp
  moreover from expect_step [OF s5] have "remaining c' + 1 \<le> remaining c4"
    by simp
  ultimately show ?thesis
    by auto
qed

termination parse_commands_loop
proof (relation "measure (\<lambda>(x, g, first, ctx). remaining ctx)", goal_cases)
  case 1
  show ?case by simp
next
  case (2 x g first ctx p b ctx1 u ctx2 v ctx3)
  then have m: "match x '']'' ctx = Inr (False, ctx1)"
    by simp
  from 2 vector_round [OF m, of first "'',''" u ctx2 ctx3] parse_command_strict [of x g ctx2 v ctx3]
  show ?case
    by simp
qed

declare parse_commands_loop.simps [simp del]

termination commands_log
proof (relation "measure (\<lambda>(x, g, first, ctx). remaining ctx)", goal_cases)
  case 1
  show ?case by simp
next
  case (2 x g first ctx p b ctx1 q ou ctx2 u d r ov ctx3 v)
  then have m: "match x '']'' ctx = Inr (False, ctx1)"
    by simp
  from 2 have e: "(if \<not> first then expect x '','' else ok ()) ctx1 = Inr (Some u, ctx2)"
    by simp
  from 2 have c: "parse_command x g ctx2 = Inr (Some v, ctx3)"
    by simp
  from vector_round [OF m e parse_command_strict [OF c]] show ?case
    by simp
qed

declare commands_log.simps [simp del]

lemma then_read_assoc:
  "then_read (then_read p f) h = then_read p (\<lambda>a. then_read (f a) h)"
  by (rule ext) (simp add: then_read_def split: sum.splits prod.splits option.splits)

text \<open>What a handler adds to the counters.\<close>

lemma run_command_passed:
  assumes "run_command x g command k = Inr (r, k')"
  shows "total k' = total k + (if counts_as_test command then 1 else 0)
         \<and> passed k' = passed k + (if counted_as_passed x g (command, k) then 1 else 0)"
  using run_command_counts [OF assms] assms
  by (auto simp: counted_as_passed_def split: if_splits)




text \<open>What a command adds to the counters is what its handler adds; the reader adds
  nothing.\<close>

lemma parse_command_dispatched:
  assumes "parse_command x g c = Inr (r, c')"
  shows "(case dispatched x c of
            None \<Rightarrow> r = None \<and> total c' = total c \<and> passed c' = passed c
          | Some d \<Rightarrow>
              total c' = total c + (if counts_as_test (fst d) then 1 else 0)
              \<and> passed c' = passed c + (if counted_as_passed x g d then 1 else 0))"
proof -
  let ?front = "then_read (expect x ''{'') (\<lambda>u.
                then_read (expect_key x ''type'') (\<lambda>u. parse_command_fields x))"
  have fr: "reads ?front"
    by (intro reads_then_read reads_lexes reads_parse_command_fields)
  have pc: "parse_command x g =
              then_read ?front (\<lambda>command.
              then_read (call_handler (run_command x g command)) (\<lambda>u. expect x ''}''))"
    by (simp add: parse_command_def then_read_assoc)
  show ?thesis
  proof (cases "?front c")
    case (Inl f)
    with assms pc show ?thesis
      by (simp add: then_read_def)
  next
    case (Inr res)
    obtain oc k where res: "res = (oc, k)"
      by (cases res)
    from readsD [OF fr Inr [unfolded res]] have k: "total k = total c" "passed k = passed c"
      by (simp_all add: read_step_def)
    show ?thesis
    proof (cases oc)
      case None
      with assms pc Inr res k show ?thesis
        by (simp add: then_read_def [of ?front] dispatched_def)
    next
      case (Some command)
      with Inr res have d: "dispatched x c = Some (command, k)"
        by (simp add: dispatched_def)
      from assms pc Inr res Some have
        h: "then_read (call_handler (run_command x g command)) (\<lambda>u. expect x ''}'') k
            = Inr (r, c')"
        by (simp add: then_read_def [of ?front])
      then obtain res1 k' where rc: "run_command x g command k = Inr (res1, k')"
        and e: "expect x ''}'' k' = Inr (r, c')"
        by (auto simp: then_read_def call_handler_def split: sum.splits prod.splits)
      from expect_step [OF e] have "total c' = total k'" "passed c' = passed k'"
        by (simp_all add: lex_step_def)
      with run_command_passed [OF rc] k d show ?thesis
        by simp
    qed
  qed
qed



lemma parse_commands_header:
  "parse_commands x g =
     then_read (script_header x) (\<lambda>u.
     then_read (parse_commands_loop x g True) (\<lambda>u. expect x ''}''))"
  by (simp add: parse_commands_def script_header_def then_read_assoc)


text \<open>\<^verbatim>\<open>read_and_run_spec_json\<close> in terms of the context that it builds.\<close>

lemma read_and_run_spec_json_script:
  "read_and_run_spec_json x g spec_json_filename out =
     (case ReadFile x spec_json_filename of
        None \<Rightarrow> Inr (Error, out)
      | Some file_data \<Rightarrow>
          (case parse_commands x g (script_context spec_json_filename file_data out) of
             Inl f \<Rightarrow> Inl f
           | Inr (r, ctx1) \<Rightarrow>
               Inr (if r = None then Error else Ok,
                    stdout ctx1 @ summary_line (passed ctx1) (total ctx1))))"
  by (simp add: read_and_run_spec_json_def script_context_def Let_def printf_def
        Context_new_def split: option.splits sum.splits prod.splits)

lemma script_context_fields [simp]:
  "stdout (script_context spec_json_filename file_data out) = out"
  "passed (script_context spec_json_filename file_data out) = 0"
  "total (script_context spec_json_filename file_data out) = 0"
  by (simp_all add: script_context_def Let_def Context_new_def)





lemmas reader_defs =
  char_value_def read_char_def putback_char_def skip_whitespace.simps
  match_def ok_def then_read_def expect_def fail_def if_match_def quoted_def expect_key_def
  parse_uint32_loop.simps parse_uint32_def parse_string_loop.simps parse_string_def
  parse_key_string_value_def parse_opt_name_string_value_def parse_line_def
  parse_type_object_def parse_type_vector_loop.simps parse_type_vector_def parse_const_def
  parse_const_vector_loop.simps parse_const_vector_def parse_action_def parse_module_type_def
  call_handler_def parse_invalid_module_fields_def parse_line_and_action_def
  parse_command_fields_def parse_command_def parse_commands_def parse_commands_loop.simps
  char_of_def newline_def numeral_2_eq_2 [symmetric]



subsection \<open>The runs that do not return\<close>

lemma fails_in_readerD: "fails_in_reader p \<Longrightarrow> p c = Inl e \<Longrightarrow> reader_fault e"
  by (auto simp: fails_in_reader_def)

lemma putback_char_fault: "putback_char c = Inl e \<Longrightarrow> reader_fault e"
  by (auto simp: putback_char_def reader_fault_def split: if_splits)

lemma skip_whitespace_fault: "skip_whitespace x c = Inl e \<Longrightarrow> reader_fault e"
proof (induction x c rule: skip_whitespace.induct)
  case (1 x ctx)
  obtain r ctx1 where r: "read_char x ctx = (r, ctx1)"
    by (cases "read_char x ctx")
  from "1.prems" r "1.IH" [OF r [symmetric]] show ?case
    by (auto simp: skip_whitespace.simps [of x ctx] split: if_splits
          dest: putback_char_fault)
qed

lemma match_fault: "match x s c = Inl e \<Longrightarrow> reader_fault e"
  by (auto simp: match_def split: sum.splits prod.splits bool.splits
        dest: skip_whitespace_fault)

lemma fails_expect [simp]: "fails_in_reader (expect x s)"
  by (auto simp: fails_in_reader_def expect_def split: sum.splits prod.splits
        dest: match_fault)

lemma fails_ok [simp]: "fails_in_reader (ok a)"
  by (simp add: fails_in_reader_def ok_def)

lemma fails_fail [simp]: "fails_in_reader fail"
  by (simp add: fails_in_reader_def fail_def)

lemma fails_then_read:
  "fails_in_reader p \<Longrightarrow> (\<And>a. fails_in_reader (f a)) \<Longrightarrow> fails_in_reader (then_read p f)"
  unfolding fails_in_reader_def then_read_def
  by (auto split: sum.splits prod.splits option.splits)

lemma fails_if_match:
  "fails_in_reader p \<Longrightarrow> fails_in_reader q \<Longrightarrow> fails_in_reader (if_match x s p q)"
  unfolding fails_in_reader_def if_match_def
  by (auto split: sum.splits prod.splits bool.splits dest: match_fault)

lemma fails_if:
  "fails_in_reader p \<Longrightarrow> fails_in_reader q \<Longrightarrow> fails_in_reader (if b then p else q)"
  by simp

lemma fails_case_option:
  "fails_in_reader p \<Longrightarrow> (\<And>a. fails_in_reader (f a)) \<Longrightarrow>
     fails_in_reader (case v of None \<Rightarrow> p | Some a \<Rightarrow> f a)"
  by (cases v) simp_all

lemma fails_case_prod:
  "(\<And>a b. fails_in_reader (f a b)) \<Longrightarrow> fails_in_reader (case p of (a, b) \<Rightarrow> f a b)"
  by (cases p) simp

lemma fails_expect_key [simp]: "fails_in_reader (expect_key x key)"
  unfolding expect_key_def by (intro fails_then_read fails_expect)

lemma parse_uint32_loop_fault: "parse_uint32_loop x result c = Inl e \<Longrightarrow> reader_fault e"
proof (induction x result c rule: parse_uint32_loop.induct)
  case (1 x result ctx)
  obtain ch ctx1 where a: "read_char x ctx = (ch, ctx1)"
    by (cases "read_char x ctx")
  from "1.prems" a "1.IH" [OF a [symmetric]] show ?case
    by (auto simp: parse_uint32_loop.simps [of x result ctx] split: if_splits sum.splits
          dest: putback_char_fault)
qed

lemma fails_parse_uint32 [simp]: "fails_in_reader (parse_uint32 x)"
  by (auto simp: fails_in_reader_def parse_uint32_def split: sum.splits
        dest: skip_whitespace_fault parse_uint32_loop_fault)

lemma fails_parse_line [simp]: "fails_in_reader (parse_line x)"
  unfolding parse_line_def
  by (intro fails_then_read fails_expect_key fails_parse_uint32)
     (simp add: fails_in_reader_def)

lemma parse_hex_digits_fault: "parse_hex_digits x n code c \<noteq> Inl e"
proof (induction n arbitrary: code c)
  case 0
  show ?case by simp
next
  case (Suc n)
  obtain ch ctx1 where r: "read_char x c = (ch, ctx1)"
    by (cases "read_char x c")
  with Suc show ?case
    by auto
qed

lemma parse_string_loop_fault: "parse_string_loop x out c = Inl e \<Longrightarrow> reader_fault e"
proof (induction x out c rule: parse_string_loop.induct)
  case (1 x out ctx)
  show ?case
  proof (cases "length (json_data ctx) \<le> json_offset ctx")
    case True
    with "1.prems" show ?thesis
      by (simp add: parse_string_loop.simps [of x out ctx] reader_fault_def)
  next
    case n: False
    obtain ch ctx1 where a: "read_char x ctx = (ch, ctx1)"
      by (cases "read_char x ctx")
    show ?thesis
    proof (cases "ch = 34")
      case True
      with "1.prems" n a show ?thesis
        by (simp add: parse_string_loop.simps [of x out ctx])
    next
      case q: False
      show ?thesis
      proof (cases "ch = 92")
        case False
        with "1.prems" n a q have "parse_string_loop x (out @ [char_of ch]) ctx1 = Inl e"
          by (simp add: parse_string_loop.simps [of x out ctx])
        from "1.IH"(2) [OF n a [symmetric] q False this] show ?thesis .
      next
        case True
        obtain c2 ctx2 where b: "read_char x ctx1 = (c2, ctx2)"
          by (cases "read_char x ctx1")
        show ?thesis
        proof (cases "c2 = 117")
          case False
          with "1.prems" n a q True b show ?thesis
            by (simp add: parse_string_loop.simps [of x out ctx])
        next
          case u: True
          with "1.prems" n a q True b have
            t: "then_read (parse_hex_digits x 4 0)
                  (\<lambda>code. parse_string_loop x
                            (if code < 256 then out @ [char_of (unat code)] else out)) ctx2
                = Inl e"
            by (simp add: parse_string_loop.simps [of x out ctx])
          show ?thesis
          proof (cases "parse_hex_digits x 4 0 ctx2")
            case (Inl f)
            with parse_hex_digits_fault [of x 4 0 ctx2 f] show ?thesis by simp
          next
            case (Inr res)
            obtain code ctx3 where res: "res = (code, ctx3)" by (cases res)
            show ?thesis
            proof (cases code)
              case None
              with t Inr res show ?thesis
                by (simp add: then_read_def)
            next
              case (Some v)
              with t Inr res have
                "parse_string_loop x (if v < 256 then out @ [char_of (unat v)] else out) ctx3
                 = Inl e"
                by (simp add: then_read_def)
              from "1.IH"(1) [OF n a [symmetric] q True b [symmetric] _ _ this] u Inr res Some
              show ?thesis
                by simp
            qed
          qed
        qed
      qed
    qed
  qed
qed

lemma fails_parse_string [simp]: "fails_in_reader (parse_string x)"
  by (auto simp: fails_in_reader_def parse_string_def split: sum.splits prod.splits if_splits
        dest: skip_whitespace_fault parse_string_loop_fault)

lemma fails_parse_key_string_value [simp]: "fails_in_reader (parse_key_string_value x key)"
  unfolding parse_key_string_value_def
  by (intro fails_then_read fails_expect_key fails_parse_string)

lemma fails_parse_opt_name_string_value [simp]:
  "fails_in_reader (parse_opt_name_string_value x)"
  unfolding parse_opt_name_string_value_def
  by (intro fails_if_match fails_then_read fails_expect fails_parse_string fails_ok)

lemma fails_parse_type_object [simp]: "fails_in_reader (parse_type_object x)"
  unfolding parse_type_object_def
  by (intro fails_then_read fails_expect fails_parse_key_string_value fails_if fails_ok
        fails_fail)

lemma fails_parse_const [simp]: "fails_in_reader (parse_const x)"
  unfolding parse_const_def
  by (intro fails_then_read fails_expect fails_parse_key_string_value fails_if
        fails_case_option fails_ok fails_fail)

lemma fails_separator: "fails_in_reader (if \<not> first then expect x s else ok ())"
  by simp

lemma parse_type_vector_loop_fault:
  "parse_type_vector_loop x first out c = Inl e \<Longrightarrow> reader_fault e"
proof (induction x first out c rule: parse_type_vector_loop.induct)
  case (1 x first out_types ctx)
  from "1.prems" have
    "(case match x '']'' ctx of
        Inl f \<Rightarrow> Inl f
      | Inr (True, ctx1) \<Rightarrow> Inr (Some out_types, ctx1)
      | Inr (False, ctx1) \<Rightarrow>
          then_read (if \<not> first then expect x '','' else ok ()) (\<lambda>u.
          then_read (parse_type_object x) (\<lambda>t.
            parse_type_vector_loop x False (out_types @ [t]))) ctx1) = Inl e"
    by (simp add: parse_type_vector_loop.simps [of x first out_types ctx])
  with "1.IH" show ?case
    by (auto simp: then_read_def split: sum.splits prod.splits bool.splits option.splits
          dest: match_fault fails_in_readerD [OF fails_separator]
            fails_in_readerD [OF fails_parse_type_object])
qed

lemma parse_const_vector_loop_fault:
  "parse_const_vector_loop x first out c = Inl e \<Longrightarrow> reader_fault e"
proof (induction x first out c rule: parse_const_vector_loop.induct)
  case (1 x first out_values ctx)
  from "1.prems" have
    "(case match x '']'' ctx of
        Inl f \<Rightarrow> Inl f
      | Inr (True, ctx1) \<Rightarrow> Inr (Some out_values, ctx1)
      | Inr (False, ctx1) \<Rightarrow>
          then_read (if \<not> first then expect x '','' else ok ()) (\<lambda>u.
          then_read (parse_const x) (\<lambda>v.
            parse_const_vector_loop x False (out_values @ [v]))) ctx1) = Inl e"
    by (simp add: parse_const_vector_loop.simps [of x first out_values ctx])
  with "1.IH" show ?case
    by (auto simp: then_read_def split: sum.splits prod.splits bool.splits option.splits
          dest: match_fault fails_in_readerD [OF fails_separator]
            fails_in_readerD [OF fails_parse_const])
qed

lemma fails_parse_type_vector [simp]: "fails_in_reader (parse_type_vector x)"
  unfolding parse_type_vector_def
  by (intro fails_then_read fails_expect)
     (auto simp: fails_in_reader_def dest: parse_type_vector_loop_fault)

lemma fails_parse_const_vector [simp]: "fails_in_reader (parse_const_vector x)"
  unfolding parse_const_vector_def
  by (intro fails_then_read fails_expect)
     (auto simp: fails_in_reader_def dest: parse_const_vector_loop_fault)

lemma fails_parse_action [simp]: "fails_in_reader (parse_action x)"
  unfolding parse_action_def
  by (intro fails_then_read fails_if_match fails_if fails_expect fails_expect_key fails_ok
        fails_parse_string fails_parse_key_string_value fails_parse_const_vector)

lemma fails_parse_module_type [simp]: "fails_in_reader (parse_module_type x)"
  unfolding parse_module_type_def
  by (intro fails_then_read fails_if fails_parse_key_string_value fails_ok fails_fail)

lemma fails_parse_invalid_module_fields [simp]:
  "fails_in_reader (parse_invalid_module_fields x)"
  unfolding parse_invalid_module_fields_def
  by (intro fails_then_read fails_expect fails_parse_line fails_parse_key_string_value
        fails_parse_module_type fails_ok)

lemma fails_parse_line_and_action [simp]: "fails_in_reader (parse_line_and_action x)"
  unfolding parse_line_and_action_def
  by (intro fails_then_read fails_expect fails_parse_line fails_parse_action)

lemma fails_parse_command_fields [simp]: "fails_in_reader (parse_command_fields x)"
  unfolding parse_command_fields_def
  by (intro fails_if_match fails_then_read fails_case_prod fails_expect fails_expect_key
        fails_parse_line fails_parse_invalid_module_fields fails_parse_line_and_action
        fails_parse_opt_name_string_value fails_parse_key_string_value
        fails_parse_const_vector fails_parse_type_vector fails_ok)
     (simp add: fails_in_reader_def)

text \<open>A command ends in a fault of the reader or in a fault of its handler.\<close>

lemma parse_command_fault:
  assumes "parse_command x g c = Inl e"
  shows "reader_fault e
         \<or> (\<exists>d. dispatched x c = Some d \<and> run_command x g (fst d) (snd d) = Inl e)"
proof -
  let ?front = "then_read (expect x ''{'') (\<lambda>u.
                then_read (expect_key x ''type'') (\<lambda>u. parse_command_fields x))"
  have fr: "fails_in_reader ?front"
    by (intro fails_then_read fails_expect fails_expect_key fails_parse_command_fields)
  have pc: "parse_command x g =
              then_read ?front (\<lambda>command.
              then_read (call_handler (run_command x g command)) (\<lambda>u. expect x ''}''))"
    by (simp add: parse_command_def then_read_assoc)
  show ?thesis
  proof (cases "?front c")
    case (Inl f)
    with assms pc fails_in_readerD [OF fr Inl] show ?thesis
      by (simp add: then_read_def)
  next
    case (Inr res)
    obtain oc k where res: "res = (oc, k)"
      by (cases res)
    show ?thesis
    proof (cases oc)
      case None
      with assms pc Inr res show ?thesis
        by (simp add: then_read_def [of ?front])
    next
      case (Some command)
      with Inr res have d: "dispatched x c = Some (command, k)"
        by (simp add: dispatched_def)
      from assms pc Inr res Some have
        "then_read (call_handler (run_command x g command)) (\<lambda>u. expect x ''}'') k = Inl e"
        by (simp add: then_read_def [of ?front])
      with d show ?thesis
        by (auto simp: then_read_def call_handler_def split: sum.splits prod.splits
              dest: fails_in_readerD [OF fails_expect])
    qed
  qed
qed

lemma parse_commands_loop_fault:
  "parse_commands_loop x g first c = Inl e \<Longrightarrow>
     reader_fault e
     \<or> (\<exists>d \<in> set (commands_log x g first c). run_command x g (fst d) (snd d) = Inl e)"
proof (induction x g first c rule: parse_commands_loop.induct)
  case (1 x g first ctx)
  show ?case
  proof (cases "match x '']'' ctx")
    case (Inl f)
    with "1.prems" match_fault [OF Inl] show ?thesis
      by (simp add: parse_commands_loop.simps [of x g first ctx])
  next
    case (Inr res)
    obtain b ctx1 where res: "res = (b, ctx1)" by (cases res)
    note m = Inr [unfolded res]
    show ?thesis
    proof (cases b)
      case True
      with "1.prems" m show ?thesis
        by (simp add: parse_commands_loop.simps [of x g first ctx])
    next
      case False
      with "1.prems" m have
        t: "then_read (if \<not> first then expect x '','' else ok ()) (\<lambda>u.
            then_read (parse_command x g) (\<lambda>u. parse_commands_loop x g False)) ctx1
            = Inl e"
        by (simp add: parse_commands_loop.simps [of x g first ctx])
      show ?thesis
      proof (cases "(if \<not> first then expect x '','' else ok ()) ctx1")
        case (Inl f)
        with t fails_in_readerD [OF fails_separator Inl] show ?thesis
          by (simp add: then_read_def)
      next
        case s: (Inr res1)
        obtain u ctx2 where res1: "res1 = (u, ctx2)" by (cases res1)
        show ?thesis
        proof (cases u)
          case None
          with t s res1 show ?thesis
            by (simp add: then_read_def)
        next
          case (Some uu)
          with t s res1 have
            t2: "then_read (parse_command x g) (\<lambda>u. parse_commands_loop x g False) ctx2
                 = Inl e"
            by (simp add: then_read_def)
          have lg: "commands_log x g first ctx =
                      (case dispatched x ctx2 of
                         None \<Rightarrow> []
                       | Some dd \<Rightarrow>
                           dd # (case parse_command x g ctx2 of
                                   Inl f \<Rightarrow> []
                                 | Inr (None, ctx3) \<Rightarrow> []
                                 | Inr (Some vv, ctx3) \<Rightarrow> commands_log x g False ctx3))"
            using m False s res1 Some
            by (simp add: commands_log.simps [of x g first ctx])
          show ?thesis
          proof (cases "parse_command x g ctx2")
            case (Inl f)
            with t2 have fe: "f = e"
              by (simp add: then_read_def)
            from parse_command_fault [OF Inl] show ?thesis
            proof
              assume "reader_fault f"
              with fe show ?thesis by simp
            next
              assume "\<exists>d. dispatched x ctx2 = Some d \<and> run_command x g (fst d) (snd d) = Inl f"
              then obtain d where d: "dispatched x ctx2 = Some d"
                and r: "run_command x g (fst d) (snd d) = Inl f"
                by blast
              from d lg have "d \<in> set (commands_log x g first ctx)"
                by simp
              with r fe show ?thesis
                by blast
            qed
          next
            case o: (Inr res2)
            obtain v ctx3 where res2: "res2 = (v, ctx3)" by (cases res2)
            show ?thesis
            proof (cases v)
              case None
              with t2 o res2 show ?thesis
                by (simp add: then_read_def)
            next
              case v: (Some vv)
              with t2 o res2 have l: "parse_commands_loop x g False ctx3 = Inl e"
                by (simp add: then_read_def)
              from False have "b = False" by simp
              with l have ih: "reader_fault e
                  \<or> (\<exists>d \<in> set (commands_log x g False ctx3).
                        run_command x g (fst d) (snd d) = Inl e)"
                using "1.IH" [OF m refl _ s [unfolded res1 Some] o [unfolded res2 v]] by blast
              from parse_command_dispatched [OF o [unfolded res2]] v
              obtain dd where "dispatched x ctx2 = Some dd"
                by (auto split: option.splits)
              with ih lg o res2 v show ?thesis
                by auto
            qed
          qed
        qed
      qed
    qed
  qed
qed

lemma fails_script_header: "fails_in_reader (script_header x)"
  unfolding script_header_def
  by (intro fails_then_read fails_expect fails_expect_key fails_parse_key_string_value)
     (simp add: fails_in_reader_def)

text \<open>
  When \<^verbatim>\<open>read_and_run_spec_json\<close> does not return, the reader has met the end of the input
  inside a string or the assertion of \<^verbatim>\<open>putback_char\<close>, or the handler of a command of the
  script has ended in a fault, as the handler of \<^verbatim>\<open>assert_return_canonical_nan\<close> does on
  an action without results. In every other run the summary line is printed.
\<close>

lemma spec_script_fault:
  assumes "read_and_run_spec_json x g spec_json_filename out = Inl e"
  shows "\<exists>file_data. ReadFile x spec_json_filename = Some file_data
           \<and> (reader_fault e
               \<or> (\<exists>d \<in> set (script_log x g
                                (script_context spec_json_filename file_data out)).
                     run_command x g (fst d) (snd d) = Inl e))"
proof -
  from assms obtain file_data where f: "ReadFile x spec_json_filename = Some file_data"
    and p: "parse_commands x g (script_context spec_json_filename file_data out) = Inl e"
    by (auto simp: read_and_run_spec_json_script split: option.splits sum.splits)
  let ?c = "script_context spec_json_filename file_data out"
  have "reader_fault e
        \<or> (\<exists>d \<in> set (script_log x g ?c). run_command x g (fst d) (snd d) = Inl e)"
  proof (cases "script_header x ?c")
    case (Inl h)
    with p fails_in_readerD [OF fails_script_header Inl] show ?thesis
      by (simp add: parse_commands_header then_read_def)
  next
    case (Inr res)
    obtain u c1 where res: "res = (u, c1)" by (cases res)
    show ?thesis
    proof (cases u)
      case None
      with p Inr res show ?thesis
        by (simp add: parse_commands_header then_read_def)
    next
      case (Some uu)
      with Inr res have lg: "script_log x g ?c = commands_log x g True c1"
        by (simp add: script_log_def)
      from p Inr res Some have
        "then_read (parse_commands_loop x g True) (\<lambda>u. expect x ''}'') c1 = Inl e"
        by (simp add: parse_commands_header then_read_def [of "script_header x"])
      then have "parse_commands_loop x g True c1 = Inl e \<or> reader_fault e"
        by (auto simp: then_read_def split: sum.splits prod.splits option.splits
              dest: fails_in_readerD [OF fails_expect])
      with parse_commands_loop_fault [of x g True c1 e] lg show ?thesis
        by auto
    qed
  qed
  with f show ?thesis
    by blast
qed

text \<open>Two runs without a summary line: when the script file cannot be read the function
  returns with nothing printed, and when the script ends inside a string the reader does not
  return.\<close>

lemma spec_script_unreadable:
  "ReadFile x spec_json_filename = None \<Longrightarrow>
     read_and_run_spec_json x g spec_json_filename out = Inr (Error, out)"
  by (simp add: read_and_run_spec_json_script)

lemma spec_script_cut_in_string:
  "read_and_run_spec_json
     (example_collab\<lparr>ReadFile := \<lambda>path.
        Some (map of_char (''{'' @ quoted ''source_filename'' @ '':'' @ [CHR 0x22] @ ''t''))\<rparr>)
     Globals_initial ''cut.json'' [] = Inl OutOfMemory"
  by (simp add: read_and_run_spec_json_script script_context_def Let_def reader_defs
        example_defs)

end
